(* ===== verification/Prelude.thy ===== *)
theory Prelude
  imports Main "HOL-Library.Word" "HOL-Library.AList" "HOL-Library.Multiset" "HOL-Library.Sublist"
begin

text \<open>
  Shared vocabulary of the development: the machine types the sources use, Rust's
  \<^verbatim>\<open>Result\<close> as a sum with its \<^verbatim>\<open>?\<close> operator, hash maps, and the string operations of the
  standard library that the sources call. A Rust \<^verbatim>\<open>str\<close> is modelled as its list of UTF-8
  bytes, one \<^typ>\<open>char\<close> per byte, so \<^const>\<open>length\<close> is \<^verbatim>\<open>str::len\<close>.
\<close>

named_theorems result_simps \<open>unfolding rules for the result and effect combinators\<close>
named_theorems str_simps \<open>facts about the string operations\<close>
named_theorems inv_intros \<open>preservation of component invariants\<close>

section \<open>Machine types\<close>

type_synonym u16 = "16 word"
type_synonym u32 = "32 word"
type_synonym u64 = "64 word"
type_synonym byte = "8 word"
type_synonym bytes = "8 word list"

definition usize_max :: nat where
  "usize_max = 2 ^ 64 - 1"

definition checked_mul :: "nat \<Rightarrow> nat \<Rightarrow> nat option" where
  "checked_mul a b = (if a * b \<le> usize_max then Some (a * b) else None)"

definition saturating_sub :: "nat \<Rightarrow> nat \<Rightarrow> nat" where
  "saturating_sub a b = (if a \<le> b then 0 else a - b)"

section \<open>Results\<close>

type_synonym ('e, 'a) result = "'e + 'a"

definition bind_result :: "('e, 'a) result \<Rightarrow> ('a \<Rightarrow> ('e, 'b) result) \<Rightarrow> ('e, 'b) result" where
  [result_simps]: "bind_result r f = (case r of Inl e \<Rightarrow> Inl e | Inr x \<Rightarrow> f x)"

definition ok_or :: "'e \<Rightarrow> 'a option \<Rightarrow> ('e, 'a) result" where
  [result_simps]: "ok_or e x = (case x of None \<Rightarrow> Inl e | Some a \<Rightarrow> Inr a)"

text \<open>Collecting an iterator of results: the first error wins.\<close>

fun collect_results :: "('e, 'a) result list \<Rightarrow> ('e, 'a list) result" where
  "collect_results [] = Inr []"
| "collect_results (r # rs) =
     (case r of Inl e \<Rightarrow> Inl e
      | Inr x \<Rightarrow> (case collect_results rs of Inl e \<Rightarrow> Inl e | Inr xs \<Rightarrow> Inr (x # xs)))"

section \<open>Hash maps\<close>

text \<open>
  A \<^verbatim>\<open>HashMap\<close> is an association list with distinct keys. The order in which Rust iterates over
  one is unspecified; operations that iterate take it as an argument.
\<close>

type_synonym ('k, 'v) hmap = "('k \<times> 'v) list"

definition hm_get :: "('k, 'v) hmap \<Rightarrow> 'k \<Rightarrow> 'v option" where
  "hm_get m k = map_of m k"

definition hm_insert :: "'k \<Rightarrow> 'v \<Rightarrow> ('k, 'v) hmap \<Rightarrow> ('k, 'v) hmap" where
  "hm_insert k v m = AList.update k v m"

definition hm_remove :: "'k \<Rightarrow> ('k, 'v) hmap \<Rightarrow> ('k, 'v) hmap" where
  "hm_remove k m = filter (\<lambda>(k', _). k' \<noteq> k) m"

definition hm_ok :: "('k, 'v) hmap \<Rightarrow> bool" where
  "hm_ok m \<longleftrightarrow> distinct (map fst m)"

text \<open>The order an iteration visits a collection in: it visits each element once.\<close>

typedef 'a iter = "{f :: 'a list \<Rightarrow> 'a list. \<forall>xs. mset (f xs) = mset xs}"
  morphisms iterate Abs_iter
  by (rule exI [of _ "\<lambda>xs. xs"]) simp

definition in_order :: "'a iter" where
  "in_order = Abs_iter (\<lambda>xs. xs)"

section \<open>Sequences of operations\<close>

text \<open>Running operations one after the other, collecting what each emits.\<close>

fun run_ops :: "('c \<Rightarrow> 'op \<Rightarrow> 'e list \<times> 'c) \<Rightarrow> 'c \<Rightarrow> 'op list \<Rightarrow> 'e list \<times> 'c" where
  "run_ops f c [] = ([], c)"
| "run_ops f c (op # ops) =
     (case f c op of (es, c') \<Rightarrow> case run_ops f c' ops of (es', c'') \<Rightarrow> (es @ es', c''))"

section \<open>Strings\<close>

fun strip_prefix :: "string \<Rightarrow> string \<Rightarrow> string option" where
  "strip_prefix [] s = Some s"
| "strip_prefix (p # ps) [] = None"
| "strip_prefix (p # ps) (c # cs) = (if p = c then strip_prefix ps cs else None)"

definition starts_with :: "string \<Rightarrow> string \<Rightarrow> bool" where
  "starts_with p s \<longleftrightarrow> strip_prefix p s \<noteq> None"

definition ends_with :: "string \<Rightarrow> string \<Rightarrow> bool" where
  "ends_with p s \<longleftrightarrow> starts_with (rev p) (rev s)"

text \<open>\<^verbatim>\<open>str::split_once\<close>: the parts before and after the first occurrence of a pattern.\<close>

fun split_once :: "string \<Rightarrow> string \<Rightarrow> (string \<times> string) option" where
  "split_once p s =
     (case strip_prefix p s of
        Some r \<Rightarrow> Some ([], r)
      | None \<Rightarrow> (case s of [] \<Rightarrow> None
                 | c # cs \<Rightarrow> (case split_once p cs of None \<Rightarrow> None
                             | Some (a, b) \<Rightarrow> Some (c # a, b))))"

declare split_once.simps [simp del]

definition str_contains :: "string \<Rightarrow> string \<Rightarrow> bool" where
  "str_contains p s \<longleftrightarrow> split_once p s \<noteq> None"

text \<open>The part before the first byte that satisfies a predicate (\<^verbatim>\<open>split(p).next()\<close>).\<close>

definition split_first :: "(char \<Rightarrow> bool) \<Rightarrow> string \<Rightarrow> string" where
  "split_first p s = takeWhile (\<lambda>c. \<not> p c) s"

definition trim_start_matches :: "char \<Rightarrow> string \<Rightarrow> string" where
  "trim_start_matches c s = dropWhile (\<lambda>x. x = c) s"

definition trim_end_matches :: "char \<Rightarrow> string \<Rightarrow> string" where
  "trim_end_matches c s = rev (dropWhile (\<lambda>x. x = c) (rev s))"

text \<open>ASCII case folding (\<^verbatim>\<open>to_ascii_lowercase\<close>).\<close>

definition ascii_lower :: "char \<Rightarrow> char" where
  "ascii_lower c = (let n = (of_char c :: nat) in
     if 65 \<le> n \<and> n \<le> 90 then char_of (n + 32) else c)"

definition to_ascii_lowercase :: "string \<Rightarrow> string" where
  "to_ascii_lowercase s = map ascii_lower s"

definition eq_ignore_ascii_case :: "string \<Rightarrow> string \<Rightarrow> bool" where
  "eq_ignore_ascii_case a b \<longleftrightarrow> to_ascii_lowercase a = to_ascii_lowercase b"

text \<open>
  The UTF-8 encodings of the code points with the Unicode property \<^verbatim>\<open>White_Space\<close>, which is what
  \<^verbatim>\<open>char::is_whitespace\<close> tests.
\<close>

definition whitespace_seqs :: "string list" where
  "whitespace_seqs = map (map char_of)
     ([[9::nat], [10], [11], [12], [13], [32], [0xC2, 0x85], [0xC2, 0xA0], [0xE1, 0x9A, 0x80],
       [0xE2, 0x80, 0xA8], [0xE2, 0x80, 0xA9], [0xE2, 0x80, 0xAF], [0xE2, 0x81, 0x9F],
       [0xE3, 0x80, 0x80], [0xE2, 0x80, 0x80], [0xE2, 0x80, 0x81], [0xE2, 0x80, 0x82],
       [0xE2, 0x80, 0x83], [0xE2, 0x80, 0x84], [0xE2, 0x80, 0x85], [0xE2, 0x80, 0x86],
       [0xE2, 0x80, 0x87], [0xE2, 0x80, 0x88], [0xE2, 0x80, 0x89], [0xE2, 0x80, 0x8A]])"

fun strip_any :: "string list \<Rightarrow> string \<Rightarrow> string option" where
  "strip_any [] s = None"
| "strip_any (p # ps) s = (case strip_prefix p s of Some r \<Rightarrow> Some r | None \<Rightarrow> strip_any ps s)"

lemma strip_prefix_length: "strip_prefix p s = Some r \<Longrightarrow> length s = length p + length r"
  by (induction p s rule: strip_prefix.induct) (auto split: if_splits)

lemma strip_any_length:
  "strip_any ps s = Some r \<Longrightarrow> [] \<notin> set ps \<Longrightarrow> length r < length s"
  by (induction ps) (auto dest!: strip_prefix_length split: option.splits)

text \<open>
  Trimming a list of patterns off the front. Empty patterns are never passed; the guard keeps the
  recursion well founded for every argument.
\<close>

function trim_front :: "string list \<Rightarrow> string \<Rightarrow> string" where
  "trim_front ps s =
     (case strip_any (filter (\<lambda>p. p \<noteq> []) ps) s of None \<Rightarrow> s | Some r \<Rightarrow> trim_front ps r)"
  by pat_completeness auto
termination
  by (relation "measure (\<lambda>(ps, s). length s)") (auto dest: strip_any_length)

declare trim_front.simps [simp del]

definition trim_with :: "string list \<Rightarrow> string \<Rightarrow> string" where
  "trim_with ps s = rev (trim_front (map rev ps) (rev (trim_front ps s)))"

definition trim :: "string \<Rightarrow> string" where
  "trim s = trim_with whitespace_seqs s"

text \<open>\<^verbatim>\<open>str::lines\<close>: split at line feeds, a carriage return before one dropped, no empty last line.\<close>

definition strip_cr :: "string \<Rightarrow> string" where
  "strip_cr l = (if l \<noteq> [] \<and> last l = CHR 0x0D then butlast l else l)"

fun lines_acc :: "string \<Rightarrow> string \<Rightarrow> string list" where
  "lines_acc acc [] = (if acc = [] then [] else [rev acc])"
| "lines_acc acc (c # cs) =
     (if c = CHR 0x0A then strip_cr (rev acc) # lines_acc [] cs else lines_acc (c # acc) cs)"

definition lines :: "string \<Rightarrow> string list" where
  "lines s = lines_acc [] s"

section \<open>Decimal numerals\<close>

definition digit_char :: "nat \<Rightarrow> char" where
  "digit_char d = char_of (48 + d)"

fun show_nat :: "nat \<Rightarrow> string" where
  "show_nat n = (if n < 10 then [digit_char n] else show_nat (n div 10) @ [digit_char (n mod 10)])"

declare show_nat.simps [simp del]

definition show_int :: "int \<Rightarrow> string" where
  "show_int i = (if i < 0 then CHR ''-'' # show_nat (nat (- i)) else show_nat (nat i))"

section \<open>Lemmas\<close>

lemma hm_get_insert [simp]: "hm_get (hm_insert k v m) = (hm_get m)(k \<mapsto> v)"
  by (simp add: hm_get_def hm_insert_def fun_eq_iff update_conv)

lemma hm_get_remove [simp]: "hm_get (hm_remove k m) = (hm_get m)(k := None)"
  unfolding hm_get_def hm_remove_def by (induction m) (auto simp: fun_eq_iff)

lemma hm_get_Nil [simp]: "hm_get [] k = None"
  by (simp add: hm_get_def)

lemma hm_ok_insert [simp, intro]: "hm_ok m \<Longrightarrow> hm_ok (hm_insert k v m)"
  by (simp add: hm_ok_def hm_insert_def distinct_update)

lemma hm_ok_remove [simp, intro]: "hm_ok m \<Longrightarrow> hm_ok (hm_remove k m)"
  unfolding hm_ok_def hm_remove_def by (induction m) auto

lemma hm_ok_Nil [simp, intro]: "hm_ok []"
  by (simp add: hm_ok_def)

lemma hm_get_Some_iff: "hm_ok m \<Longrightarrow> hm_get m k = Some v \<longleftrightarrow> (k, v) \<in> set m"
  unfolding hm_get_def hm_ok_def by simp

lemma mset_values_remove:
  "hm_get m k = Some v \<Longrightarrow> add_mset v (mset (map snd (hm_remove k m))) \<subseteq># mset (map snd m)"
  unfolding hm_get_def hm_remove_def
  by (induction m) (auto split: if_splits intro: subset_mset.order_trans [OF _ multiset_filter_subset]
      simp: image_mset_subseteq_mono)

lemma mset_values_remove_le: "mset (map snd (hm_remove k m)) \<subseteq># mset (map snd m)"
  unfolding hm_remove_def by (simp add: mset_filter image_mset_subseteq_mono)

lemma mset_values_insert:
  "mset (map snd (hm_insert k v m)) \<subseteq># add_mset v (mset (map snd m))"
  unfolding hm_insert_def by (induction m) auto

lemma mset_iterate [simp]: "mset (iterate it xs) = mset xs"
  using iterate [of it] by simp

lemma set_iterate [simp]: "set (iterate it xs) = set xs"
  by (metis mset_iterate set_mset_mset)

lemma iterate_Nil [simp]: "iterate it [] = []"
  by (metis mset_iterate mset_zero_iff)

lemma iterate_single [simp]: "iterate it [x] = [x]"
  by (metis mset_iterate mset_single_iff mset.simps)

lemma distinct_iterate [simp]: "distinct (iterate it xs) = distinct xs"
  by (metis mset_eq_imp_distinct_iff mset_iterate)

lemma iterate_in_order [simp]: "iterate in_order xs = xs"
  by (simp add: in_order_def Abs_iter_inverse)

lemma distinct_subset_mset: "mset xs \<subseteq># mset ys \<Longrightarrow> distinct ys \<Longrightarrow> distinct xs"
proof (induction xs arbitrary: ys)
  case (Cons x xs)
  then have x: "x \<in> set ys" and sub: "mset xs \<subseteq># mset (remove1 x ys)"
    by (auto simp: insert_subset_eq_iff)
  then have "set xs \<subseteq> set (remove1 x ys)" by (metis set_mset_mono set_mset_mset)
  with Cons.prems have "x \<notin> set xs" by auto
  with Cons.IH [OF sub] Cons.prems show ?case by simp
qed simp

lemma run_ops_append:
  "run_ops f c (xs @ ys) =
     (case run_ops f c xs of (es, c') \<Rightarrow> case run_ops f c' ys of (es', c'') \<Rightarrow> (es @ es', c''))"
  by (induction xs arbitrary: c) (auto split: prod.splits)

lemma run_ops_inv:
  assumes "I c" and "\<And>c op. I c \<Longrightarrow> I (snd (f c op))"
  shows "I (snd (run_ops f c ops))"
  using assms(1)
proof (induction ops arbitrary: c)
  case (Cons op ops)
  then have "I (snd (run_ops f (snd (f c op)) ops))" using assms(2) by blast
  then show ?case by (simp add: case_prod_unfold)
qed simp

lemma strip_prefix_iff [str_simps]: "strip_prefix p s = Some r \<longleftrightarrow> s = p @ r"
  by (induction p s rule: strip_prefix.induct) auto

lemma strip_prefix_append [simp]: "strip_prefix p (p @ r) = Some r"
  by (simp add: strip_prefix_iff)

lemma starts_with_iff [str_simps]: "starts_with p s \<longleftrightarrow> (\<exists>r. s = p @ r)"
  unfolding starts_with_def by (auto simp: strip_prefix_iff not_None_eq)

lemma split_once_Some [str_simps]: "split_once p s = Some (a, b) \<Longrightarrow> s = a @ p @ b"
proof (induction s arbitrary: a)
  case Nil
  then show ?case by (subst (asm) split_once.simps) (auto split: option.splits simp: str_simps)
next
  case (Cons c cs)
  then show ?case by (subst (asm) split_once.simps) (auto split: option.splits simp: str_simps)
qed

lemma split_once_None_iff: "split_once p s = None \<longleftrightarrow> (\<forall>a b. s \<noteq> a @ p @ b)"
proof (induction s)
  case Nil
  then show ?case by (subst split_once.simps) (auto split: option.splits simp: str_simps)
next
  case (Cons c cs)
  show ?case
  proof (cases "strip_prefix p (c # cs)")
    case None
    then have "\<And>b. c # cs \<noteq> p @ b" by (metis option.distinct(1) strip_prefix_append)
    with None Cons show ?thesis
      by (subst split_once.simps) (auto split: option.splits simp: Cons_eq_append_conv)
  next
    case (Some r)
    then have "c # cs = [] @ p @ r" by (simp add: strip_prefix_iff)
    moreover have "split_once p (c # cs) = Some ([], r)" using Some by (simp add: split_once.simps)
    ultimately show ?thesis by (metis option.distinct(1))
  qed
qed

lemma str_contains_iff [str_simps]: "str_contains p s \<longleftrightarrow> (\<exists>a b. s = a @ p @ b)"
  unfolding str_contains_def by (meson split_once_None_iff)

lemma of_char_digit_char: "d < 10 \<Longrightarrow> of_char (digit_char d) = 48 + d"
  by (simp add: digit_char_def)

lemma digit_char_inj: "a < 10 \<Longrightarrow> b < 10 \<Longrightarrow> digit_char a = digit_char b \<Longrightarrow> a = b"
  by (metis add_left_cancel of_char_digit_char)

lemma show_nat_nonempty [simp]: "show_nat n \<noteq> []"
  by (subst show_nat.simps) simp

lemma show_nat_snoc: "10 \<le> n \<Longrightarrow> show_nat n = show_nat (n div 10) @ [digit_char (n mod 10)]"
  by (subst show_nat.simps) simp

lemma show_nat_digit: "n < 10 \<Longrightarrow> show_nat n = [digit_char n]"
  by (subst show_nat.simps) simp

lemma show_nat_inj: "show_nat m = show_nat n \<Longrightarrow> m = n"
proof (induction m arbitrary: n rule: show_nat.induct)
  case (1 m)
  show ?case
  proof (cases "m < 10")
    case True
    then have "show_nat n = [digit_char m]" using "1.prems" by (simp add: show_nat_digit)
    then have "n < 10" by (metis append_is_Nil_conv append_self_conv2 butlast.simps(2) butlast_snoc
          linorder_not_le list.distinct(1) show_nat_nonempty show_nat_snoc)
    with True show ?thesis using "1.prems" by (auto simp: show_nat_digit intro: digit_char_inj)
  next
    case False
    then have m: "show_nat m = show_nat (m div 10) @ [digit_char (m mod 10)]"
      by (simp add: show_nat_snoc)
    have "\<not> n < 10" using m "1.prems" by (metis Nil_is_append_conv append.assoc append_Nil
          append_eq_Cons_conv butlast.simps(2) butlast_snoc show_nat_digit show_nat_nonempty)
    then have n: "show_nat n = show_nat (n div 10) @ [digit_char (n mod 10)]"
      by (simp add: show_nat_snoc)
    from m n "1.prems" have "show_nat (m div 10) = show_nat (n div 10)"
      and "digit_char (m mod 10) = digit_char (n mod 10)" by simp_all
    then have "m div 10 = n div 10" and "m mod 10 = n mod 10"
      using "1.IH" [OF False] by (auto intro: digit_char_inj)
    then show ?thesis by (metis div_mult_mod_eq)
  qed
qed

lemma show_nat_inject [simp]: "show_nat m = show_nat n \<longleftrightarrow> m = n"
  by (auto dest: show_nat_inj)

lemma collect_results_map_Inr [simp]: "collect_results (map Inr xs) = Inr xs"
  by (induction xs) simp_all

lemma collect_results_Inr_iff:
  "collect_results rs = Inr xs \<longleftrightarrow> rs = map Inr xs"
  by (induction rs arbitrary: xs) (auto split: sum.splits)

end
