(* ===== verification/F64.thy ===== *)
theory F64
  imports Prelude Complex_Main "HOL-Library.Log_Nat"
begin

text \<open>
  Rust's \<^verbatim>\<open>f64\<close>: IEEE 754 binary64. A finite value is the rational it denotes; every arithmetic
  result is rounded to the nearest representable value, ties to even, with overflow to an infinity
  and gradual underflow. The two zeros are one value: none of the modelled code divides by a zero
  or reads the sign of one.
\<close>

section \<open>Values and rounding\<close>

datatype f64 = Fin rat | Inf | NegInf | NaN

text \<open>The exponent \<open>e\<close> with \<open>2 ^ e \<le> x < 2 ^ (e + 1)\<close>, for positive \<open>x\<close>.\<close>

definition rexp :: "rat \<Rightarrow> int" where
  "rexp x = (let (p, q) = quotient_of x; k = int (floorlog 2 (nat p)) - int (floorlog 2 (nat q))
             in if 2 powi k \<le> x then k else k - 1)"

text \<open>Round to the nearest integer, ties to even.\<close>

definition rne :: "rat \<Rightarrow> int" where
  "rne x = (let f = \<lfloor>x\<rfloor>; d = x - of_int f
            in if d < 1 / 2 then f else if 1 / 2 < d then f + 1
               else if even f then f else f + 1)"

text \<open>The spacing of the representable values around \<open>x\<close>.\<close>

definition ulp :: "rat \<Rightarrow> rat" where
  "ulp x = 2 powi (max (rexp \<bar>x\<bar>) (- 1022) - 52)"

definition round64 :: "rat \<Rightarrow> f64" where
  "round64 x =
     (if x = 0 then Fin 0
      else let r = of_int (rne (x / ulp x)) * ulp x
           in if \<bar>r\<bar> < 2 ^ 1024 then Fin r else if 0 < x then Inf else NegInf)"

section \<open>Operations\<close>

fun is_finite :: "f64 \<Rightarrow> bool" where
  "is_finite (Fin _) = True"
| "is_finite _ = False"

fun f64_neg :: "f64 \<Rightarrow> f64" where
  "f64_neg (Fin x) = Fin (- x)"
| "f64_neg Inf = NegInf"
| "f64_neg NegInf = Inf"
| "f64_neg NaN = NaN"

fun f64_add :: "f64 \<Rightarrow> f64 \<Rightarrow> f64" where
  "f64_add (Fin x) (Fin y) = round64 (x + y)"
| "f64_add NaN _ = NaN"
| "f64_add _ NaN = NaN"
| "f64_add Inf NegInf = NaN"
| "f64_add NegInf Inf = NaN"
| "f64_add Inf _ = Inf"
| "f64_add _ Inf = Inf"
| "f64_add NegInf _ = NegInf"
| "f64_add _ NegInf = NegInf"

definition f64_sub :: "f64 \<Rightarrow> f64 \<Rightarrow> f64" where
  "f64_sub a b = f64_add a (f64_neg b)"

definition signed_inf :: "bool \<Rightarrow> f64" where
  "signed_inf positive = (if positive then Inf else NegInf)"

fun f64_mul :: "f64 \<Rightarrow> f64 \<Rightarrow> f64" where
  "f64_mul (Fin x) (Fin y) = round64 (x * y)"
| "f64_mul NaN _ = NaN"
| "f64_mul _ NaN = NaN"
| "f64_mul (Fin x) Inf = (if x = 0 then NaN else signed_inf (0 < x))"
| "f64_mul (Fin x) NegInf = (if x = 0 then NaN else signed_inf (x < 0))"
| "f64_mul Inf (Fin x) = (if x = 0 then NaN else signed_inf (0 < x))"
| "f64_mul NegInf (Fin x) = (if x = 0 then NaN else signed_inf (x < 0))"
| "f64_mul Inf Inf = Inf"
| "f64_mul NegInf NegInf = Inf"
| "f64_mul Inf NegInf = NegInf"
| "f64_mul NegInf Inf = NegInf"

text \<open>Division by a nonzero finite constant, the only divisor the sources use.\<close>

fun f64_div_by :: "f64 \<Rightarrow> rat \<Rightarrow> f64" where
  "f64_div_by (Fin x) d = round64 (x / d)"
| "f64_div_by Inf d = signed_inf (0 < d)"
| "f64_div_by NegInf d = signed_inf (d < 0)"
| "f64_div_by NaN d = NaN"

fun f64_lt :: "f64 \<Rightarrow> f64 \<Rightarrow> bool" where
  "f64_lt (Fin x) (Fin y) = (x < y)"
| "f64_lt NaN _ = False"
| "f64_lt _ NaN = False"
| "f64_lt NegInf NegInf = False"
| "f64_lt NegInf _ = True"
| "f64_lt _ NegInf = False"
| "f64_lt Inf _ = False"
| "f64_lt _ Inf = True"

definition f64_eq :: "f64 \<Rightarrow> f64 \<Rightarrow> bool" where
  "f64_eq a b \<longleftrightarrow> a \<noteq> NaN \<and> a = b"

definition f64_le :: "f64 \<Rightarrow> f64 \<Rightarrow> bool" where
  "f64_le a b \<longleftrightarrow> f64_lt a b \<or> f64_eq a b"

text \<open>\<^verbatim>\<open>f64::min\<close> and \<^verbatim>\<open>f64::max\<close> return the other operand when one is NaN.\<close>

definition f64_min :: "f64 \<Rightarrow> f64 \<Rightarrow> f64" where
  "f64_min a b = (if a = NaN then b else if b = NaN then a else if f64_lt b a then b else a)"

definition f64_max :: "f64 \<Rightarrow> f64 \<Rightarrow> f64" where
  "f64_max a b = (if a = NaN then b else if b = NaN then a else if f64_lt a b then b else a)"

definition f64_of_nat :: "nat \<Rightarrow> f64" where
  "f64_of_nat n = round64 (of_nat n)"

definition f64_of_int :: "int \<Rightarrow> f64" where
  "f64_of_int i = round64 (of_int i)"

text \<open>\<^verbatim>\<open>f64::round\<close>: to the nearest integer, half away from zero.\<close>

fun f64_round :: "f64 \<Rightarrow> f64" where
  "f64_round (Fin x) = Fin (of_int (if 0 \<le> x then \<lfloor>x + 1 / 2\<rfloor> else - \<lfloor>- x + 1 / 2\<rfloor>))"
| "f64_round a = a"

text \<open>The values of the type: finite ones are representable.\<close>

fun f64_ok :: "f64 \<Rightarrow> bool" where
  "f64_ok (Fin x) = (round64 x = Fin x)"
| "f64_ok _ = True"

section \<open>Lemmas\<close>

lemma floorlog2_rat:
  assumes "0 < n"
  shows "2 powi (int (floorlog 2 n) - 1) \<le> (of_nat n :: rat)" and "(of_nat n :: rat) < 2 powi int (floorlog 2 n)"
proof -
  have b: "2 ^ (floorlog 2 n - 1) \<le> n" "n < 2 ^ floorlog 2 n" and pos: "0 < floorlog 2 n"
    using assms Log_Nat.floorlog_bounds [of n 2] floorlog_eq_zero_iff [of 2 n] by auto
  have "(of_nat (2 ^ (floorlog 2 n - 1)) :: rat) \<le> of_nat n" using b(1) by (rule of_nat_mono)
  moreover have "int (floorlog 2 n) - 1 = int (floorlog 2 n - 1)" using pos by simp
  then have "(2 :: rat) powi (int (floorlog 2 n) - 1) = 2 ^ (floorlog 2 n - 1)"
    by (simp only: power_int_of_nat)
  ultimately show "2 powi (int (floorlog 2 n) - 1) \<le> (of_nat n :: rat)" by simp
  have "(of_nat n :: rat) < of_nat (2 ^ floorlog 2 n)" using b(2) by (simp only: of_nat_less_iff)
  then show "(of_nat n :: rat) < 2 powi int (floorlog 2 n)" by (simp add: power_int_def)
qed

lemma rexp_bounds:
  assumes "0 < x"
  shows "2 powi rexp x \<le> x" and "x < 2 powi (rexp x + 1)"
proof -
  obtain p q where pq: "quotient_of x = (p, q)" by fastforce
  have q: "0 < q" using quotient_of_denom_pos [OF pq] .
  have x: "x = of_int p / of_int q" using quotient_of_div [OF pq] .
  then have p: "0 < p" using assms q by (simp add: zero_less_divide_iff)
  define a b where "a = int (floorlog 2 (nat p))" and "b = int (floorlog 2 (nat q))"
  have pa: "2 powi (a - 1) \<le> (of_int p :: rat)" "(of_int p :: rat) < 2 powi a"
    using floorlog2_rat [of "nat p"] p by (simp_all add: a_def)
  have qb: "2 powi (b - 1) \<le> (of_int q :: rat)" "(of_int q :: rat) < 2 powi b"
    using floorlog2_rat [of "nat q"] q by (simp_all add: b_def)
  have lo: "2 powi (a - b - 1) \<le> x"
  proof -
    have "2 powi (a - 1) / 2 powi b \<le> (of_int p / of_int q :: rat)"
      using pa(1) qb(2) q p by (intro frac_le) auto
    then show ?thesis by (simp add: x power_int_diff mult.commute)
  qed
  have hi: "x < 2 powi (a - b + 1)"
  proof -
    have "(of_int p / of_int q :: rat) < 2 powi a / 2 powi (b - 1)"
      using pa(2) qb(1) q p by (intro frac_less) auto
    then show ?thesis by (simp add: x power_int_diff power_int_add algebra_simps)
  qed
  have r: "rexp x = (if 2 powi (a - b) \<le> x then a - b else a - b - 1)"
    by (simp add: rexp_def pq a_def b_def Let_def)
  show "2 powi rexp x \<le> x" using lo by (simp add: r)
  show "x < 2 powi (rexp x + 1)" using hi by (auto simp: r)
qed

lemma powi2_less_iff [simp]: "(2 :: rat) powi a < 2 powi b \<longleftrightarrow> a < b"
  using power_int_strict_increasing [of a b "2::rat"] power_int_increasing [of b a "2::rat"] by force

lemma powi2_le_iff [simp]: "(2 :: rat) powi a \<le> 2 powi b \<longleftrightarrow> a \<le> b"
  using powi2_less_iff [of b a] by (simp del: powi2_less_iff add: linorder_not_less [symmetric])

lemma powi2_pos [simp]: "0 < (2 :: rat) powi a"
  by simp

lemma rexp_unique:
  assumes "2 powi e \<le> x" and "x < 2 powi (e + 1)"
  shows "rexp x = e"
proof -
  have x: "0 < x" using assms(1) powi2_pos [of e] by linarith
  have "2 powi rexp x < (2 :: rat) powi (e + 1)" "(2 :: rat) powi e < 2 powi (rexp x + 1)"
    using rexp_bounds [OF x] assms by linarith+
  then show ?thesis by simp
qed

lemma rne_of_int [simp]: "rne (of_int n) = n"
  by (simp add: rne_def)

lemma rne_mono: "x \<le> y \<Longrightarrow> rne x \<le> rne y"
proof (cases "\<lfloor>x\<rfloor> = \<lfloor>y\<rfloor>")
  case True
  assume "x \<le> y"
  with True show ?thesis by (auto simp: rne_def Let_def)
next
  case False
  assume "x \<le> y"
  then have "\<lfloor>x\<rfloor> + 1 \<le> \<lfloor>y\<rfloor>" using False floor_mono [of x y] by linarith
  then show ?thesis by (auto simp: rne_def Let_def)
qed

lemma rne_le_int: "x \<le> of_int n \<Longrightarrow> rne x \<le> n"
  using rne_mono [of x "of_int n"] by simp

lemma rne_ge_int: "of_int n \<le> x \<Longrightarrow> n \<le> rne x"
  using rne_mono [of "of_int n" x] by simp

lemma rne_nonneg: "0 \<le> x \<Longrightarrow> 0 \<le> rne x"
  using rne_ge_int [of 0 x] by simp

lemma ulp_pos [simp]: "0 < ulp x"
  by (simp add: ulp_def)

lemma scaled_bound:
  assumes "x \<noteq> 0"
  shows "\<bar>x / ulp x\<bar> < 2 ^ 53"
proof -
  have "\<bar>x\<bar> < 2 powi (rexp \<bar>x\<bar> + 1)" using rexp_bounds [of "\<bar>x\<bar>"] assms by simp
  also have "\<dots> \<le> 2 powi (max (rexp \<bar>x\<bar>) (- 1022) - 52 + 53)" by simp
  also have "\<dots> = ulp x * 2 ^ 53" using power_int_add [of "2::rat" "max (rexp \<bar>x\<bar>) (- 1022) - 52" 53] by (simp add: ulp_def)
  finally have "\<bar>x\<bar> < ulp x * 2 ^ 53" .
  then show ?thesis by (simp add: abs_divide pos_divide_less_eq mult.commute)
qed

lemma rne_scaled_bound:
  assumes "x \<noteq> 0"
  shows "\<bar>rne (x / ulp x)\<bar> \<le> 2 ^ 53"
proof -
  have "x / ulp x \<le> of_int (2 ^ 53)" "of_int (- (2 ^ 53)) \<le> x / ulp x"
    using scaled_bound [OF assms] unfolding abs_less_iff by simp_all
  then have "rne (x / ulp x) \<le> 2 ^ 53" "- (2 ^ 53) \<le> rne (x / ulp x)"
    by (auto intro: rne_le_int rne_ge_int simp del: of_int_power of_int_minus)
  then show ?thesis by (simp add: abs_le_iff)
qed

text \<open>A multiple of the spacing is rounded to itself.\<close>

lemma round64_integral:
  assumes "x / ulp x = of_int m" and "\<bar>x\<bar> < 2 ^ 1024"
  shows "round64 x = Fin x"
proof -
  have "of_int (rne (x / ulp x)) * ulp x = x" unfolding assms(1) rne_of_int
    using assms(1) ulp_pos [of x] by (simp add: nonzero_divide_eq_eq)
  then show ?thesis using assms(2) by (simp add: round64_def Let_def)
qed

lemma powi2_multiple: "t' \<le> t \<Longrightarrow> \<exists>m. (of_int n * 2 powi t) / 2 powi t' = (of_int m :: rat)"
proof -
  assume "t' \<le> t"
  then have "(2 :: rat) powi t / 2 powi t' = of_int (2 ^ nat (t - t'))"
    by (simp flip: power_int_diff add: power_int_nonneg_exp)
  then have "(of_int n * 2 powi t) / 2 powi t' = (of_int (n * 2 ^ nat (t - t')) :: rat)"
    by (metis of_int_mult times_divide_eq_right)
  then show ?thesis by blast
qed

lemma round64_representable:
  assumes n: "\<bar>n\<bar> \<le> 2 ^ 53" and t: "- 1074 \<le> t" and small: "\<bar>of_int n * 2 powi t\<bar> < (2 :: rat) ^ 1024"
  shows "round64 (of_int n * 2 powi t) = Fin (of_int n * 2 powi t)"
proof (cases "n = 0")
  case True
  then show ?thesis by (simp add: round64_def)
next
  case False
  define r where "r = (of_int n * 2 powi t :: rat)"
  define e where "e = rexp \<bar>r\<bar>"
  have r0: "0 < \<bar>r\<bar>" using False by (simp add: r_def)
  have abs_r: "\<bar>r\<bar> = of_int \<bar>n\<bar> * 2 powi t" by (simp add: r_def abs_mult)
  have "\<exists>m. r / ulp r = of_int m"
  proof (cases "\<bar>n\<bar> = 2 ^ 53")
    case True
    have "\<bar>r\<bar> = 2 powi (t + 53)" using True by (simp add: abs_r power_int_add)
    then have "e = t + 53" unfolding e_def by (intro rexp_unique) simp_all
    then have u: "ulp r = 2 powi (t + 1)" using t by (simp add: ulp_def e_def [symmetric] max_def add.commute)
    obtain k where k: "n = 2 * k" using True by (metis abs_minus_cancel abs_if dvd_def even_minus even_power even_two_times_div_two
          dvd_mult_div_cancel pos2 zero_less_numeral even_numeral)
    have "r = of_int k * 2 powi (t + 1)" by (simp add: r_def k power_int_add)
    then have "r / ulp r = of_int k" unfolding u by simp
    then show ?thesis by blast
  next
    case False
    then have "\<bar>n\<bar> < 2 ^ 53" using n by simp
    then have "(of_int \<bar>n\<bar> :: rat) < 2 ^ 53" by (metis of_int_less_iff of_int_numeral of_int_power)
    then have "\<bar>r\<bar> < 2 powi (t + 53)" unfolding abs_r by (simp add: power_int_add mult.commute)
    then have "(2 :: rat) powi e < 2 powi (t + 53)" using rexp_bounds(1) [OF r0] unfolding e_def by linarith
    then have "max e (- 1022) - 52 \<le> t" using t by simp
    then show ?thesis unfolding ulp_def e_def [symmetric] unfolding r_def by (rule powi2_multiple)
  qed
  then obtain m where "r / ulp r = of_int m" ..
  then have "round64 r = Fin r" using small unfolding r_def [symmetric] by (rule round64_integral)
  then show ?thesis by (simp add: r_def)
qed

lemma round64_0 [simp]: "round64 0 = Fin 0"
  by (simp add: round64_def)

text \<open>Every rounded result is a value of the type.\<close>

lemma f64_ok_round64 [simp, intro]: "f64_ok (round64 x)"
proof (cases "x = 0")
  case False
  define t n where "t = max (rexp \<bar>x\<bar>) (- 1022) - 52" and "n = rne (x / ulp x)"
  have u: "ulp x = 2 powi t" by (simp add: ulp_def t_def)
  have "round64 (of_int n * 2 powi t) = Fin (of_int n * 2 powi t)" if "\<bar>of_int n * 2 powi t\<bar> < (2 :: rat) ^ 1024"
    using rne_scaled_bound [OF False] that by (intro round64_representable) (simp_all add: n_def t_def)
  then show ?thesis by (auto simp: round64_def Let_def u [symmetric] n_def [symmetric])
qed simp

lemma round64_of_int [simp]: "\<bar>n\<bar> \<le> 2 ^ 53 \<Longrightarrow> round64 (of_int n) = Fin (of_int n)"
proof -
  assume n: "\<bar>n\<bar> \<le> 2 ^ 53"
  have "(of_int \<bar>n\<bar> :: rat) \<le> of_int (2 ^ 53)" using n by (simp only: of_int_le_iff)
  also have "\<dots> < 2 ^ 1024" by simp
  finally show ?thesis using round64_representable [OF n, of 0] by simp
qed

lemma round64_nonneg: "0 \<le> x \<Longrightarrow> round64 x = Inf \<or> (\<exists>r \<ge> 0. round64 x = Fin r)"
  using rne_nonneg [of "x / ulp x"] less_imp_le [OF ulp_pos, of x]
  by (auto simp: round64_def Let_def)

lemma round64_not_NaN [simp]: "round64 x \<noteq> NaN"
  by (auto simp: round64_def Let_def)

lemma f64_ok_add [simp, intro]: "f64_ok (f64_add a b)"
  by (cases "(a, b)" rule: f64_add.cases) auto

lemma f64_ok_mul [simp, intro]: "f64_ok (f64_mul a b)"
  by (cases "(a, b)" rule: f64_mul.cases) (auto simp: signed_inf_def)

lemma f64_add_0_left: "f64_ok a \<Longrightarrow> f64_add (Fin 0) a = a"
  by (cases a) auto

text \<open>Rounding is monotone: the rounded value before the overflow test, then with it.\<close>

definition rounded :: "rat \<Rightarrow> rat" where
  "rounded x = of_int (rne (x / ulp x)) * ulp x"

lemma round64_rounded:
  "round64 x = (if x = 0 then Fin 0 else if \<bar>rounded x\<bar> < 2 ^ 1024 then Fin (rounded x)
                else if 0 < x then Inf else NegInf)"
  by (simp add: round64_def rounded_def Let_def)

lemma rne_minus [simp]: "rne (- x) = - rne x"
proof (cases "x = of_int \<lfloor>x\<rfloor>")
  case True
  then have "- x = of_int (- \<lfloor>x\<rfloor>)" by simp
  then show ?thesis by (metis True rne_of_int)
next
  case False
  then have "\<lfloor>- x\<rfloor> = - \<lfloor>x\<rfloor> - 1" by (metis ceiling_altdef floor_minus minus_add_distrib uminus_add_conv_diff
        diff_minus_eq_add add.commute)
  then show ?thesis by (auto simp: rne_def Let_def)
qed

lemma ulp_minus [simp]: "ulp (- x) = ulp x"
  by (simp add: ulp_def)

lemma rounded_minus [simp]: "rounded (- x) = - rounded x"
  by (simp add: rounded_def)

lemma rounded_nonneg: "0 \<le> x \<Longrightarrow> 0 \<le> rounded x"
  using rne_nonneg [of "x / ulp x"] less_imp_le [OF ulp_pos, of x] by (simp add: rounded_def)

lemma rexp_mono: "0 < x \<Longrightarrow> x \<le> y \<Longrightarrow> rexp x \<le> rexp y"
proof -
  assume "0 < x" "x \<le> y"
  then have "(2 :: rat) powi rexp x < 2 powi (rexp y + 1)"
    using rexp_bounds(1) [of x] rexp_bounds(2) [of y] by linarith
  then show ?thesis by simp
qed

lemma rounded_upper:
  assumes "0 < x"
  shows "rounded x \<le> 2 powi (max (rexp x) (- 1022) + 1)"
proof -
  have "of_int (rne (x / ulp x)) \<le> (of_int (2 ^ 53) :: rat)"
    using rne_scaled_bound [of x] assms by (simp only: of_int_le_iff abs_le_iff)
  then have "rounded x \<le> 2 ^ 53 * ulp x" unfolding rounded_def
    using less_imp_le [OF ulp_pos, of x] by (intro mult_right_mono) simp_all
  also have "\<dots> = 2 powi (53 + (max (rexp x) (- 1022) - 52))"
    using assms power_int_add [of "2::rat" 53 "max (rexp x) (- 1022) - 52"] by (simp add: ulp_def)
  finally show ?thesis by (simp add: add.commute)
qed

lemma rounded_lower:
  assumes "0 < x" and "- 1022 \<le> rexp x"
  shows "2 powi rexp x \<le> rounded x"
proof -
  have u: "ulp x = 2 powi (rexp x - 52)" using assms by (simp add: ulp_def max_def)
  have "2 powi rexp x = 2 ^ 52 * ulp x" unfolding u using power_int_add [of "2::rat" 52 "rexp x - 52"] by simp
  then have "2 ^ 52 * ulp x \<le> x" using rexp_bounds(1) [OF assms(1)] by simp
  then have "of_int (2 ^ 52) \<le> x / ulp x" by (simp add: pos_le_divide_eq)
  then have "2 ^ 52 \<le> rne (x / ulp x)" by (rule rne_ge_int)
  then have "of_int (2 ^ 52) \<le> (of_int (rne (x / ulp x)) :: rat)" by (simp only: of_int_le_iff)
  then have "2 ^ 52 * ulp x \<le> rounded x" unfolding rounded_def
    using less_imp_le [OF ulp_pos, of x] by (intro mult_right_mono) simp_all
  then show ?thesis using \<open>2 powi rexp x = 2 ^ 52 * ulp x\<close> by simp
qed

lemma rounded_mono_pos:
  assumes "0 < x" and "x \<le> y"
  shows "rounded x \<le> rounded y"
proof (cases "max (rexp x) (- 1022) = max (rexp y) (- 1022)")
  case True
  then have u: "ulp x = ulp y" using assms by (simp add: ulp_def)
  have "x / ulp y \<le> y / ulp y" using assms by (simp add: divide_right_mono less_imp_le)
  then have "rne (x / ulp y) \<le> rne (y / ulp y)" by (rule rne_mono)
  then show ?thesis unfolding rounded_def u using less_imp_le [OF ulp_pos, of y] by (intro mult_right_mono) simp_all
next
  case False
  then have "max (rexp x) (- 1022) + 1 \<le> rexp y" and y: "- 1022 \<le> rexp y"
    using rexp_mono [OF assms] by auto
  then have "(2 :: rat) powi (max (rexp x) (- 1022) + 1) \<le> 2 powi rexp y" by simp
  then show ?thesis using rounded_upper [OF assms(1)] rounded_lower [of y] assms y by linarith
qed

lemma rounded_mono: "x \<le> y \<Longrightarrow> rounded x \<le> rounded y"
proof -
  assume le: "x \<le> y"
  consider "0 < x" | "x \<le> 0" "0 \<le> y" | "y < 0" by linarith
  then show ?thesis
  proof cases
    case 1
    then show ?thesis using le by (rule rounded_mono_pos)
  next
    case 2
    then show ?thesis using rounded_nonneg [of "- x"] rounded_nonneg [of y] by simp
  next
    case 3
    then show ?thesis using rounded_mono_pos [of "- y" "- x"] le by simp
  qed
qed

lemma rounded_0 [simp]: "rounded 0 = 0"
  using rne_of_int [of 0] by (simp add: rounded_def)

lemma round64_mono: "x \<le> y \<Longrightarrow> f64_le (round64 x) (round64 y)"
  using rounded_mono [of x y] rounded_nonneg [of x] rounded_nonneg [of "- y"]
  by (auto simp: round64_rounded f64_le_def f64_eq_def simp del: power_numeral)

text \<open>Evaluation: rounding a concrete value by giving its exponent and its mantissa.\<close>

lemma rne_near:
  assumes "\<bar>x - of_int n\<bar> < 1 / 2"
  shows "rne x = n"
proof -
  have near: "x - of_int n < 1 / 2" "of_int n - x < 1 / 2" using assms by linarith+
  show ?thesis
  proof (cases "of_int n \<le> x")
    case True
    then have "\<lfloor>x\<rfloor> = n" using near by (intro floor_unique) auto
    then show ?thesis using near by (simp add: rne_def Let_def)
  next
    case False
    then have "\<lfloor>x\<rfloor> = n - 1" using near by (intro floor_unique) auto
    then show ?thesis using near by (auto simp: rne_def Let_def)
  qed
qed

lemma rne_tie_up: "x = of_int n - 1 / 2 \<Longrightarrow> even n \<Longrightarrow> rne x = n"
proof -
  assume x: "x = of_int n - 1 / 2" and n: "even n"
  have "\<lfloor>x\<rfloor> = n - 1" by (rule floor_unique) (simp_all add: x)
  with x n show ?thesis by (simp add: rne_def Let_def)
qed

lemma round64_dyadic:
  assumes "\<bar>n\<bar> \<le> 2 ^ 53" and "k \<le> 1074"
  shows "round64 (of_int n / 2 ^ k) = Fin (of_int n / 2 ^ k)"
proof -
  have k: "2 powi (- int k) = (1 / 2 ^ k :: rat)" by (simp add: power_int_minus_divide)
  have "(of_int \<bar>n\<bar> :: rat) \<le> of_int (2 ^ 53)" using assms(1) by (simp only: of_int_le_iff)
  also have "\<dots> < 2 ^ 1024" by simp
  finally have "of_int \<bar>n\<bar> < (2 :: rat) ^ 1024" .
  moreover have "\<bar>of_int n / 2 ^ k\<bar> \<le> (of_int \<bar>n\<bar> :: rat)"
    by (simp add: abs_divide divide_le_eq mult_left_le_one_le mult_le_cancel_left1)
  ultimately have "\<bar>of_int n / 2 ^ k\<bar> < (2 :: rat) ^ 1024" by linarith
  then show ?thesis using round64_representable [of n "- int k"] assms by (simp only: k) simp
qed

lemma round64_evalI:
  assumes "2 powi e \<le> x" and "x < 2 powi (e + 1)" and "- 1022 \<le> e" and "e < 1023"
    and n: "rne (x / 2 powi (e - 52)) = n"
  shows "round64 x = Fin (of_int n * 2 powi (e - 52))"
proof -
  have x: "0 < x" using assms(1) powi2_pos [of e] by linarith
  have e: "rexp x = e" using assms(1,2) by (rule rexp_unique)
  have u: "ulp x = 2 powi (e - 52)" using x e assms(3) by (simp add: ulp_def)
  have r: "rounded x = of_int n * 2 powi (e - 52)" by (simp add: rounded_def u n)
  have "rounded x \<le> 2 powi (e + 1)" using rounded_upper [OF x] e assms(3) by simp
  also have "\<dots> < 2 powi 1024" using assms(4) by (subst powi2_less_iff) simp
  finally have "\<bar>rounded x\<bar> < 2 ^ 1024" using rounded_nonneg [of x] x by (simp only: power_int_numeral abs_of_nonneg less_imp_le)
  then show ?thesis using x by (simp only: round64_rounded r if_True) simp
qed

lemma round64_numeral [simp]: "(numeral n :: int) \<le> 2 ^ 53 \<Longrightarrow> round64 (numeral n) = Fin (numeral n)"
  using round64_of_int [of "numeral n"] by simp

lemma round64_1 [simp]: "round64 1 = Fin 1"
  using round64_of_int [of 1] by simp

end
