(* ===== verification/Protocol.thy ===== *)
theory Protocol
  imports F64
begin

text \<open>
  The wire types of \<^verbatim>\<open>reactor-protocol\<close>: sessions (\<^verbatim>\<open>session.rs\<close>), WebRTC signaling
  (\<^verbatim>\<open>webrtc.rs\<close>), uploads (\<^verbatim>\<open>upload.rs\<close>), and the conversion between JSON values and protobuf
  structs (\<^verbatim>\<open>wire/struct_convert.rs\<close>). JSON objects and struct fields are the sorted maps of
  \<^verbatim>\<open>serde_json\<close> and \<^verbatim>\<open>prost\<close>: association lists in key order.
\<close>

section \<open>JSON values and protobuf structs\<close>

datatype jnumber = PosInt u64 | NegInt int | JFloat f64

datatype json =
    JNull
  | JBool bool
  | JNumber jnumber
  | JString string
  | JArray "json list"
  | JObject "(string \<times> json) list"

fun jnumber_as_f64 :: "jnumber \<Rightarrow> f64" where
  "jnumber_as_f64 (PosInt n) = f64_of_nat (unat n)"
| "jnumber_as_f64 (NegInt i) = f64_of_int i"
| "jnumber_as_f64 (JFloat f) = f"

text \<open>\<^verbatim>\<open>Number::from_f64\<close>: only a finite value is a JSON number.\<close>

definition jnumber_from_f64 :: "f64 \<Rightarrow> jnumber option" where
  "jnumber_from_f64 f = (if is_finite f then Some (JFloat f) else None)"

text \<open>\<^verbatim>\<open>prost_types::Value\<close>: its \<^verbatim>\<open>kind\<close>, or none set.\<close>

datatype prost_value =
    Kind_None
  | NullValue int
  | BoolValue bool
  | NumberValue f64
  | StringValue string
  | ListValue "prost_value list"
  | StructValue "(string \<times> prost_value) list"

type_synonym prost_struct = "(string \<times> prost_value) list"

fun value_to_prost_value :: "json \<Rightarrow> prost_value" where
  "value_to_prost_value JNull = NullValue 0"
| "value_to_prost_value (JBool b) = BoolValue b"
| "value_to_prost_value (JNumber n) = NumberValue (jnumber_as_f64 n)"
| "value_to_prost_value (JString s) = StringValue s"
| "value_to_prost_value (JArray items) = ListValue (map value_to_prost_value items)"
| "value_to_prost_value (JObject m) = StructValue (map (\<lambda>(k, v). (k, value_to_prost_value v)) m)"

definition object_to_struct :: "(string \<times> json) list \<Rightarrow> prost_struct" where
  "object_to_struct m = map (\<lambda>(k, v). (k, value_to_prost_value v)) m"

fun value_to_struct :: "json \<Rightarrow> prost_struct option" where
  "value_to_struct (JObject m) = Some (object_to_struct m)"
| "value_to_struct _ = None"

fun prost_value_to_value :: "prost_value \<Rightarrow> json" where
  "prost_value_to_value Kind_None = JNull"
| "prost_value_to_value (NullValue _) = JNull"
| "prost_value_to_value (BoolValue b) = JBool b"
| "prost_value_to_value (NumberValue n) =
     (case jnumber_from_f64 n of Some m \<Rightarrow> JNumber m | None \<Rightarrow> JNull)"
| "prost_value_to_value (StringValue s) = JString s"
| "prost_value_to_value (ListValue l) = JArray (map prost_value_to_value l)"
| "prost_value_to_value (StructValue s) = JObject (map (\<lambda>(k, v). (k, prost_value_to_value v)) s)"

definition struct_to_value :: "prost_struct \<Rightarrow> json" where
  "struct_to_value s = JObject (map (\<lambda>(k, v). (k, prost_value_to_value v)) s)"

section \<open>Sessions\<close>

datatype SessionState = Created | Pending | Suspended | Waiting | Active | Inactive | Closed | Unknown

definition is_terminal :: "SessionState \<Rightarrow> bool" where
  "is_terminal s = (case s of Inactive \<Rightarrow> True | Closed \<Rightarrow> True | _ \<Rightarrow> False)"

fun show_SessionState :: "SessionState \<Rightarrow> string" where
  "show_SessionState Created = ''Created''"
| "show_SessionState Pending = ''Pending''"
| "show_SessionState Suspended = ''Suspended''"
| "show_SessionState Waiting = ''Waiting''"
| "show_SessionState Active = ''Active''"
| "show_SessionState Inactive = ''Inactive''"
| "show_SessionState Closed = ''Closed''"
| "show_SessionState Unknown = ''Unknown''"

record ClientInfo =
  sdk_version :: string
  sdk_type :: string

record TransportDeclaration =
  td_protocol :: string
  td_version :: string

record ModelConfig =
  mc_name :: string
  mc_version :: "string option"

datatype TrackKind = Audio | Video
datatype TrackDirection = Recvonly | Sendonly

record TrackCapability =
  tc_name :: string
  tc_kind :: TrackKind
  tc_direction :: TrackDirection

record CommandCapability =
  cc_name :: string
  cc_description :: "string option"
  cc_schema :: "json option"

record Capabilities =
  protocol_version :: string
  tracks :: "TrackCapability list"
  commands :: "CommandCapability list option"
  emission_fps :: "f64 option"

record ServerInfo =
  server_version :: string

datatype GenerationMode = Streamed | Stepped

fun GenerationMode_as_str :: "GenerationMode \<Rightarrow> string" where
  "GenerationMode_as_str Streamed = ''streamed''"
| "GenerationMode_as_str Stepped = ''stepped''"

definition GENERATION_KEY :: string where
  "GENERATION_KEY = ''generation''"

record SessionEnd =
  se_at :: "string option"
  se_reason :: "string option"
  se_message :: "string option"

record SessionResponse =
  session_id :: string
  session_state :: SessionState
  model :: "ModelConfig option"
  cluster :: "string option"
  server_info :: "ServerInfo option"
  selected_transport :: "TransportDeclaration option"
  capabilities :: "Capabilities option"
  ended :: "SessionEnd option"
  extra :: "(string \<times> json) list"

definition is_ready :: "SessionResponse \<Rightarrow> bool" where
  "is_ready s \<longleftrightarrow> capabilities s \<noteq> None \<and> selected_transport s \<noteq> None"

definition generation :: "SessionResponse \<Rightarrow> string option" where
  "generation s = (case map_of (extra s) GENERATION_KEY of Some (JString m) \<Rightarrow> Some m | _ \<Rightarrow> None)"

record CreateSessionRequest =
  csr_model :: ModelConfig
  csr_client_info :: ClientInfo
  supported_transports :: "TransportDeclaration list"
  csr_extra_args :: "json option"
  extra_configs :: "json option"

section \<open>Signaling and uploads\<close>

record IceCredentials =
  username :: string
  password :: string

record IceServer =
  uris :: "string list"
  credentials :: "IceCredentials option"

record TrackMappingEntry =
  tm_name :: string
  tm_kind :: TrackKind
  tm_direction :: TrackDirection
  tm_mid :: string

record SdpOfferRequest =
  sdp_offer :: string
  sor_client_info :: "ClientInfo option"
  sor_track_mapping :: "TrackMappingEntry list"

record SdpAnswerResponse =
  sdp_answer :: string
  sar_connection_id :: "u32 option"

record IceCandidate =
  candidate :: string
  sdp_mid :: "string option"
  sdp_mline_index :: "u16 option"

record IceCandidatesRequest =
  candidates :: "IceCandidate list"
  is_final :: bool
  icr_client_info :: "ClientInfo option"

record CreateUploadRequest =
  cur_name :: string
  cur_size :: u64
  cur_mime_type :: string

record CreateUploadResponse =
  presigned_id :: string
  presigned_url :: string
  upload_path :: string

record FileRef =
  upload_id :: string
  fref_name :: string
  fref_mime_type :: string
  fref_size :: u64

definition REACTOR_API_VERSION :: string where "REACTOR_API_VERSION = ''1''"
definition REACTOR_WEBRTC_VERSION :: string where "REACTOR_WEBRTC_VERSION = ''1.0''"
definition API_VERSION_HEADER :: string where "API_VERSION_HEADER = ''Reactor-API-Version''"
definition API_ACCEPT_VERSION_HEADER :: string where "API_ACCEPT_VERSION_HEADER = ''Reactor-API-Accept-Version''"
definition WEBRTC_VERSION_HEADER :: string where "WEBRTC_VERSION_HEADER = ''Reactor-WebRTC-Version''"

definition DEFAULT_MAX_MESSAGE_BYTES :: nat where
  "DEFAULT_MAX_MESSAGE_BYTES = 256 * 1024"

definition TransportDeclaration_webrtc :: TransportDeclaration where
  "TransportDeclaration_webrtc = \<lparr> td_protocol = ''webrtc'', td_version = REACTOR_WEBRTC_VERSION \<rparr>"

section \<open>Properties of the struct conversion\<close>

text \<open>
  What crossing the wire does to a value: every number becomes the double it converts to, a number
  with no finite double becomes null, nothing else changes.
\<close>

fun wire_normal :: "json \<Rightarrow> json" where
  "wire_normal (JNumber n) = (if is_finite (jnumber_as_f64 n) then JNumber (JFloat (jnumber_as_f64 n)) else JNull)"
| "wire_normal (JArray items) = JArray (map wire_normal items)"
| "wire_normal (JObject m) = JObject (map (\<lambda>(k, v). (k, wire_normal v)) m)"
| "wire_normal v = v"

text \<open>A value whose numbers are all finite doubles, as \<^verbatim>\<open>json!\<close> builds them from \<^verbatim>\<open>f64\<close>s.\<close>

fun float_json :: "json \<Rightarrow> bool" where
  "float_json (JNumber (JFloat f)) = is_finite f"
| "float_json (JNumber _) = False"
| "float_json (JArray items) = list_all float_json items"
| "float_json (JObject m) = list_all (\<lambda>(_, v). float_json v) m"
| "float_json _ = True"

lemma prost_roundtrip: "prost_value_to_value (value_to_prost_value v) = wire_normal v"
  by (induction v rule: value_to_prost_value.induct) (auto simp: jnumber_from_f64_def)

lemma wire_normal_float_json: "float_json v \<Longrightarrow> wire_normal v = v"
proof (induction v rule: wire_normal.induct)
  case (1 n)
  then show ?case by (cases n) auto
next
  case (2 items)
  then show ?case by (auto simp: list_all_iff intro: map_idI)
next
  case (3 m)
  then show ?case by (force simp: list_all_iff intro!: map_idI)
qed auto

text \<open>
  C40: a JSON object sent as a protobuf struct and read back is the same object with its numbers
  turned into doubles; it is unchanged when its numbers were finite doubles already. Anything that is
  not an object is refused.
\<close>

theorem struct_roundtrip:
  "(case value_to_struct v of
      Some s \<Rightarrow> struct_to_value s = wire_normal v \<and> (float_json v \<longrightarrow> struct_to_value s = v)
    | None \<Rightarrow> \<forall>m. v \<noteq> JObject m)"
proof (cases v)
  case (JObject m)
  have "struct_to_value (object_to_struct m) = wire_normal v"
    using prost_roundtrip [of v] by (simp add: JObject struct_to_value_def object_to_struct_def)
  then show ?thesis using wire_normal_float_json [of v] by (simp add: JObject)
qed auto

theorem struct_roundtrip_witness:
  "(case value_to_struct (JObject [(''x'', JNumber (JFloat (Fin 1)))]) of
      Some s \<Rightarrow> struct_to_value s = wire_normal (JObject [(''x'', JNumber (JFloat (Fin 1)))])
        \<and> struct_to_value s = JObject [(''x'', JNumber (JFloat (Fin 1)))]
    | None \<Rightarrow> False)"
  using struct_roundtrip [of "JObject [(''x'', JNumber (JFloat (Fin 1)))]"] by simp

end
