(* ===== verification/Errors.thy ===== *)
theory Errors
  imports Protocol
begin

text \<open>
  The error model of \<^verbatim>\<open>reactor-core/src/error.rs\<close>: the variants of \<^verbatim>\<open>CoreError\<close>, the code every
  variant maps to, which codes are recoverable, and the flattened details a binding receives.
\<close>

section \<open>Codes\<close>

definition INVALID_STATE :: string where "INVALID_STATE = ''INVALID_STATE''"
definition DISCONNECTED :: string where "DISCONNECTED = ''DISCONNECTED''"
definition NETWORK_ERROR :: string where "NETWORK_ERROR = ''NETWORK_ERROR''"
definition REQUEST_TIMEOUT :: string where "REQUEST_TIMEOUT = ''REQUEST_TIMEOUT''"
definition TRANSPORT_ERROR :: string where "TRANSPORT_ERROR = ''TRANSPORT_ERROR''"
definition UNAUTHORIZED :: string where "UNAUTHORIZED = ''UNAUTHORIZED''"
definition NOT_FOUND :: string where "NOT_FOUND = ''NOT_FOUND''"
definition CONFLICT :: string where "CONFLICT = ''CONFLICT''"
definition RATE_LIMITED :: string where "RATE_LIMITED = ''RATE_LIMITED''"
definition BAD_REQUEST :: string where "BAD_REQUEST = ''BAD_REQUEST''"
definition SERVER_ERROR :: string where "SERVER_ERROR = ''SERVER_ERROR''"
definition VERSION_MISMATCH :: string where "VERSION_MISMATCH = ''VERSION_MISMATCH''"
definition DECODE_FAILED :: string where "DECODE_FAILED = ''DECODE_FAILED''"
definition SESSION_TERMINAL :: string where "SESSION_TERMINAL = ''SESSION_TERMINAL''"
definition MESSAGE_TOO_LARGE :: string where "MESSAGE_TOO_LARGE = ''MESSAGE_TOO_LARGE''"
definition ABORTED :: string where "ABORTED = ''ABORTED''"
definition RECORDER_DISABLED :: string where "RECORDER_DISABLED = ''RECORDER_DISABLED''"
definition GENERATION_MODE_MISMATCH :: string where "GENERATION_MODE_MISMATCH = ''GENERATION_MODE_MISMATCH''"
definition DATA_CHANNEL_CHUNKING_REQUIRED :: string where
  "DATA_CHANNEL_CHUNKING_REQUIRED = ''DATA_CHANNEL_CHUNKING_REQUIRED''"
definition STEP_REFUSED :: string where "STEP_REFUSED = ''step_refused''"
definition STEP_NOT_READY :: string where "STEP_NOT_READY = ''step_not_ready''"
definition STEP_RESULT_TOO_LARGE :: string where "STEP_RESULT_TOO_LARGE = ''step_result_too_large''"
definition STEP_COMMAND_FAILED :: string where "STEP_COMMAND_FAILED = ''step_command_failed''"
definition STEP_SESSION_ENDED :: string where "STEP_SESSION_ENDED = ''step_session_ended''"
definition UNSUPPORTED_FRAME_ENCODING :: string where
  "UNSUPPORTED_FRAME_ENCODING = ''UNSUPPORTED_FRAME_ENCODING''"
definition INTERNAL_ERROR :: string where "INTERNAL_ERROR = ''INTERNAL_ERROR''"

lemmas code_defs =
  INVALID_STATE_def DISCONNECTED_def NETWORK_ERROR_def REQUEST_TIMEOUT_def TRANSPORT_ERROR_def
  UNAUTHORIZED_def NOT_FOUND_def CONFLICT_def RATE_LIMITED_def BAD_REQUEST_def SERVER_ERROR_def
  VERSION_MISMATCH_def DECODE_FAILED_def SESSION_TERMINAL_def MESSAGE_TOO_LARGE_def ABORTED_def
  RECORDER_DISABLED_def GENERATION_MODE_MISMATCH_def DATA_CHANNEL_CHUNKING_REQUIRED_def
  STEP_REFUSED_def STEP_NOT_READY_def STEP_RESULT_TOO_LARGE_def STEP_COMMAND_FAILED_def
  STEP_SESSION_ENDED_def UNSUPPORTED_FRAME_ENCODING_def INTERNAL_ERROR_def

definition code_is_recoverable :: "string \<Rightarrow> bool" where
  "code_is_recoverable c \<longleftrightarrow>
     c = DISCONNECTED \<or> c = NETWORK_ERROR \<or> c = REQUEST_TIMEOUT \<or> c = TRANSPORT_ERROR
     \<or> c = RATE_LIMITED \<or> c = SERVER_ERROR"

section \<open>Errors\<close>

record ErrorDetails =
  ed_code :: string
  ed_message :: string
  ed_recoverable :: bool
  ed_status :: "u16 option"
  ed_operation :: "string option"
  ed_retry_after_ms :: "f64 option"
  ed_entry :: "string option"
  ed_command_code :: "string option"

definition ErrorDetails_new :: "string \<Rightarrow> string \<Rightarrow> bool \<Rightarrow> ErrorDetails" where
  "ErrorDetails_new c m r =
     \<lparr> ed_code = c, ed_message = m, ed_recoverable = r, ed_status = None, ed_operation = None,
       ed_retry_after_ms = None, ed_entry = None, ed_command_code = None \<rparr>"

record ReactorError =
  details :: ErrorDetails
  timestamp_ms :: f64

datatype CoreError =
    Http string
  | Status (status_code: u16) (status_context: string) (status_body: string) (status_retry: "f64 option")
  | VersionMismatch string
  | Decode string
  | InvalidState string
  | Timeout string
  | TerminalSession string
  | MessageTooLarge (mtl_size: nat) (mtl_max: nat)
  | Peer string
  | Disconnected string
  | ControlRequest (cr_method: string) (cr_code: string) (cr_message: string)
  | CommandRequest (cm_command: string) (cm_code: string) (cm_message: string)
  | Recording (rec_code: string) (rec_message: string)
  | Aborted
  | GenerationModeMismatch (requested: GenerationMode) (echoed: "string option")
  | ChunkingRequired
  | StepRefused (sr_message: string) (sr_entry: "string option")
  | StepNotReady string
  | StepResultTooLarge string
  | StepCommandFailed (scf_message: string) (scf_command_code: "string option") (scf_entry: "string option")
  | StepSessionEnded string
  | StepFailed (sf_code: string) (sf_message: string)
  | UnsupportedFrameEncoding (ufe_track: string) (ufe_encoding: int)
  | PresetTracksMismatch (ptm_expected: "TrackCapability list") (ptm_actual: "TrackCapability list")

definition status_error_code :: "u16 \<Rightarrow> string" where
  "status_error_code s =
     (if s = 401 \<or> s = 403 then UNAUTHORIZED
      else if s = 404 then NOT_FOUND
      else if s = 409 then CONFLICT
      else if s = 426 \<or> s = 501 then VERSION_MISMATCH
      else if s = 429 then RATE_LIMITED
      else if 400 \<le> s \<and> s \<le> 499 then BAD_REQUEST
      else SERVER_ERROR)"

definition platform_code :: "string \<Rightarrow> string" where
  "platform_code c = (if c \<noteq> [] then c else INTERNAL_ERROR)"

fun code :: "CoreError \<Rightarrow> string" where
  "code (ControlRequest _ c _) = platform_code c"
| "code (CommandRequest _ c _) = platform_code c"
| "code (Recording c _) = platform_code c"
| "code (StepFailed c _) = platform_code c"
| "code (StepRefused _ _) = STEP_REFUSED"
| "code (StepNotReady _) = STEP_NOT_READY"
| "code (StepResultTooLarge _) = STEP_RESULT_TOO_LARGE"
| "code (StepCommandFailed _ _ _) = STEP_COMMAND_FAILED"
| "code (StepSessionEnded _) = STEP_SESSION_ENDED"
| "code (UnsupportedFrameEncoding _ _) = UNSUPPORTED_FRAME_ENCODING"
| "code (Http _) = NETWORK_ERROR"
| "code (Status s _ _ _) = status_error_code s"
| "code (VersionMismatch _) = VERSION_MISMATCH"
| "code (Decode _) = DECODE_FAILED"
| "code (InvalidState _) = INVALID_STATE"
| "code (Timeout _) = REQUEST_TIMEOUT"
| "code (TerminalSession _) = SESSION_TERMINAL"
| "code (MessageTooLarge _ _) = MESSAGE_TOO_LARGE"
| "code (Peer _) = TRANSPORT_ERROR"
| "code (Disconnected _) = DISCONNECTED"
| "code Aborted = ABORTED"
| "code (PresetTracksMismatch _ _) = BAD_REQUEST"
| "code (GenerationModeMismatch _ _) = GENERATION_MODE_MISMATCH"
| "code ChunkingRequired = DATA_CHANNEL_CHUNKING_REQUIRED"

definition recoverable :: "CoreError \<Rightarrow> bool" where
  "recoverable e = code_is_recoverable (code e)"

fun error_status :: "CoreError \<Rightarrow> u16 option" where
  "error_status (Status s _ _ _) = Some s"
| "error_status _ = None"

fun error_retry_after_ms :: "CoreError \<Rightarrow> f64 option" where
  "error_retry_after_ms (Status _ _ _ r) = r"
| "error_retry_after_ms _ = None"

text \<open>
  The \<^verbatim>\<open>Display\<close> text of an error. \<open>show_tracks\<close> is the derived \<^verbatim>\<open>Debug\<close> rendering of a list of
  tracks, whose string escapes follow the Unicode tables of the standard library.
\<close>

fun display :: "(TrackCapability list \<Rightarrow> string) \<Rightarrow> CoreError \<Rightarrow> string" where
  "display st (Http m) = ''http transport error: '' @ m"
| "display st (Status s ctx body _) =
     ''unexpected HTTP status '' @ show_nat (unat s) @ '' from '' @ ctx @ '': '' @ body"
| "display st (VersionMismatch m) = ''protocol version mismatch: '' @ m"
| "display st (Decode m) = ''failed to decode response: '' @ m"
| "display st (InvalidState m) = ''invalid state: '' @ m"
| "display st (Timeout m) = ''timed out: '' @ m"
| "display st (TerminalSession m) = ''session entered terminal state '' @ m"
| "display st (MessageTooLarge s m) =
     ''message too large: '' @ show_nat s @ '' bytes exceeds '' @ show_nat m"
| "display st (Peer m) = ''peer transport error: '' @ m"
| "display st (Disconnected m) = ''connection disconnected: '' @ m"
| "display st (ControlRequest f c m) =
     ''control request '' @ [CHR 0x27] @ f @ [CHR 0x27] @ '' failed ('' @ c @ ''): '' @ m"
| "display st (CommandRequest f c m) =
     ''command '' @ [CHR 0x27] @ f @ [CHR 0x27] @ '' failed ('' @ c @ ''): '' @ m"
| "display st (Recording c m) = ''recording error ('' @ c @ ''): '' @ m"
| "display st Aborted = ''operation aborted''"
| "display st (GenerationModeMismatch r e) =
     ''requested '' @ GenerationMode_as_str r @ '' generation, but the runtime started the session in ''
     @ (case e of Some m \<Rightarrow> m | None \<Rightarrow> ''a mode it did not report (no stepped generation support?)'')"
| "display st ChunkingRequired =
     ''stepped generation needs data-channel chunking, which this connection did not negotiate''"
| "display st (StepRefused m _) = ''step refused: '' @ m"
| "display st (StepNotReady m) = ''step not ready: '' @ m"
| "display st (StepResultTooLarge m) = ''step result too large: '' @ m"
| "display st (StepCommandFailed m _ _) = ''step command failed: '' @ m"
| "display st (StepSessionEnded m) = ''step session ended: '' @ m"
| "display st (StepFailed c m) = ''step failed ('' @ c @ ''): '' @ m"
| "display st (UnsupportedFrameEncoding t e) =
     ''step result track '' @ [CHR 0x27] @ t @ [CHR 0x27] @ '' has a frame in unsupported encoding '' @ show_int e"
| "display st (PresetTracksMismatch ex ac) =
     ''preset tracks '' @ st ex @ '' do not match the session'' @ [CHR 0x27] @ ''s real tracks '' @ st ac"

definition error_details :: "(TrackCapability list \<Rightarrow> string) \<Rightarrow> CoreError \<Rightarrow> string option \<Rightarrow> ErrorDetails" where
  "error_details st e operation =
     \<lparr> ed_code = code e,
       ed_message = display st e,
       ed_recoverable = recoverable e,
       ed_status = error_status e,
       ed_operation = operation,
       ed_retry_after_ms = error_retry_after_ms e,
       ed_entry = (case e of StepRefused _ en \<Rightarrow> en | StepCommandFailed _ _ en \<Rightarrow> en | _ \<Rightarrow> None),
       ed_command_code = (case e of StepCommandFailed _ cc _ \<Rightarrow> cc | _ \<Rightarrow> None) \<rparr>"

section \<open>Properties\<close>

lemma code_nonempty: "code e \<noteq> []"
  by (cases e) (auto simp: code_defs platform_code_def status_error_code_def)

lemma status_code_recoverable:
  "code_is_recoverable (status_error_code s) \<longleftrightarrow> s = 429 \<or> (\<not> (400 \<le> s \<and> s \<le> 499) \<and> s \<noteq> 501)"
  by (auto simp: status_error_code_def code_is_recoverable_def code_defs)

lemma platform_code_not_recoverable: "\<not> code_is_recoverable (platform_code [])"
  by (simp add: platform_code_def code_is_recoverable_def code_defs)

text \<open>
  Every error has a non-empty code, and retrying is promised only by code. Of the HTTP failures
  exactly 429 and the statuses outside 400 to 499 other than 501 are recoverable; a platform code this
  SDK does not know never is.
\<close>

theorem recoverable_by_code:
  "code e \<noteq> [] \<and> (recoverable e \<longleftrightarrow> code_is_recoverable (ed_code (error_details st e oper)))
   \<and> recoverable (Status s ctx body r) = (s = 429 \<or> (\<not> (400 \<le> s \<and> s \<le> 499) \<and> s \<noteq> 501))
   \<and> \<not> recoverable (ControlRequest f [] m) \<and> \<not> recoverable (Recording [] m)"
  using platform_code_not_recoverable
  by (simp add: recoverable_def code_nonempty status_code_recoverable error_details_def)

end
