(* ===== verification/Http.thy ===== *)
theory Http
  imports Errors
begin

text \<open>
  The HTTP surface of \<^verbatim>\<open>reactor-core/src/http.rs\<close>: requests and responses, the reading of
  \<^verbatim>\<open>Retry-After\<close>, the mapping of statuses to errors, and the token exchange of \<^verbatim>\<open>auth.rs\<close>.
  A body is a list of bytes, one \<^typ>\<open>char\<close> each.
\<close>

section \<open>Parsing numbers\<close>

text \<open>The grammar of \<^verbatim>\<open>f64::from_str\<close>: an optional sign, then a word for a special value or a decimal.\<close>

definition digit_value :: "char \<Rightarrow> nat option" where
  "digit_value c = (let n = (of_char c :: nat) in if 48 \<le> n \<and> n \<le> 57 then Some (n - 48) else None)"

fun take_digits :: "nat \<Rightarrow> string \<Rightarrow> nat \<times> nat \<times> string" where
  "take_digits acc [] = (acc, 0, [])"
| "take_digits acc (c # cs) =
     (case digit_value c of
        None \<Rightarrow> (acc, 0, c # cs)
      | Some d \<Rightarrow> (let (v, n, r) = take_digits (10 * acc + d) cs in (v, Suc n, r)))"

definition parse_sign :: "string \<Rightarrow> bool \<times> string" where
  "parse_sign s = (case s of c # cs \<Rightarrow> if c = CHR ''-'' then (True, cs) else if c = CHR ''+'' then (False, cs) else (False, s)
                   | [] \<Rightarrow> (False, []))"

definition parse_exponent :: "string \<Rightarrow> int option" where
  "parse_exponent s =
     (case s of [] \<Rightarrow> Some 0
      | c # cs \<Rightarrow>
        (if ascii_lower c = CHR ''e'' then
           (let (neg, t) = parse_sign cs; (v, n, r) = take_digits 0 t
            in if n = 0 \<or> r \<noteq> [] then None else Some (if neg then - int v else int v))
         else None))"

definition parse_decimal :: "string \<Rightarrow> rat option" where
  "parse_decimal s =
     (let (iv, ilen, r) = take_digits 0 s;
          (fv, flen, r') = (case r of c # cs \<Rightarrow> if c = CHR ''.'' then take_digits iv cs else (iv, 0, r) | [] \<Rightarrow> (iv, 0, []))
      in if ilen = 0 \<and> flen = 0 then None
         else (case parse_exponent r' of None \<Rightarrow> None
               | Some e \<Rightarrow> Some (of_nat fv * 10 powi (e - int flen))))"

definition parse_f64 :: "string \<Rightarrow> f64 option" where
  "parse_f64 s =
     (let (neg, t) = parse_sign s; l = to_ascii_lowercase t
      in if l = ''inf'' \<or> l = ''infinity'' then Some (if neg then NegInf else Inf)
         else if l = ''nan'' then Some NaN
         else (case parse_decimal t of None \<Rightarrow> None
               | Some q \<Rightarrow> Some (round64 (if neg then - q else q))))"

section \<open>Requests and responses\<close>

datatype Method = Get | Post | Put | Delete

fun Method_as_str :: "Method \<Rightarrow> string" where
  "Method_as_str Get = ''GET''"
| "Method_as_str Post = ''POST''"
| "Method_as_str Put = ''PUT''"
| "Method_as_str Delete = ''DELETE''"

record HttpRequest =
  req_method :: Method
  req_url :: string
  req_headers :: "(string \<times> string) list"
  req_body :: "string option"

record HttpResponse =
  resp_status :: u16
  resp_headers :: "(string \<times> string) list"
  resp_body :: string

definition is_success :: "HttpResponse \<Rightarrow> bool" where
  "is_success r \<longleftrightarrow> 200 \<le> resp_status r \<and> resp_status r < 300"

definition header :: "HttpResponse \<Rightarrow> string \<Rightarrow> string option" where
  "header r name = map_option snd (find (\<lambda>(k, _). eq_ignore_ascii_case k name) (resp_headers r))"

text \<open>
  \<^verbatim>\<open>String::from_utf8_lossy\<close>: each maximal ill-formed piece becomes U+FFFD. \<open>utf8_piece\<close> gives the
  length of the first piece and whether it is well formed.
\<close>

definition cont_len :: "(nat \<Rightarrow> bool) \<Rightarrow> nat \<Rightarrow> nat list \<Rightarrow> nat \<times> bool" where
  "cont_len first width rest =
     (case rest of [] \<Rightarrow> (1, False)
      | b1 # r1 \<Rightarrow>
        if \<not> first b1 then (1, False)
        else if width = 2 then (2, True)
        else (case r1 of [] \<Rightarrow> (2, False)
              | b2 # r2 \<Rightarrow>
                if \<not> (0x80 \<le> b2 \<and> b2 \<le> 0xBF) then (2, False)
                else if width = 3 then (3, True)
                else (case r2 of [] \<Rightarrow> (3, False)
                      | b3 # _ \<Rightarrow> if 0x80 \<le> b3 \<and> b3 \<le> 0xBF then (4, True) else (3, False))))"

fun utf8_piece :: "nat list \<Rightarrow> nat \<times> bool" where
  "utf8_piece [] = (0, True)"
| "utf8_piece (b # bs) =
     (if b < 0x80 then (1, True)
      else if 0xC2 \<le> b \<and> b \<le> 0xDF then cont_len (\<lambda>c. 0x80 \<le> c \<and> c \<le> 0xBF) 2 bs
      else if b = 0xE0 then cont_len (\<lambda>c. 0xA0 \<le> c \<and> c \<le> 0xBF) 3 bs
      else if b = 0xED then cont_len (\<lambda>c. 0x80 \<le> c \<and> c \<le> 0x9F) 3 bs
      else if 0xE1 \<le> b \<and> b \<le> 0xEF then cont_len (\<lambda>c. 0x80 \<le> c \<and> c \<le> 0xBF) 3 bs
      else if b = 0xF0 then cont_len (\<lambda>c. 0x90 \<le> c \<and> c \<le> 0xBF) 4 bs
      else if 0xF1 \<le> b \<and> b \<le> 0xF3 then cont_len (\<lambda>c. 0x80 \<le> c \<and> c \<le> 0xBF) 4 bs
      else if b = 0xF4 then cont_len (\<lambda>c. 0x80 \<le> c \<and> c \<le> 0x8F) 4 bs
      else (1, False))"

fun lossy_fuel :: "nat \<Rightarrow> string \<Rightarrow> string" where
  "lossy_fuel 0 s = []"
| "lossy_fuel (Suc n) s =
     (if s = [] then []
      else let (k, valid) = utf8_piece (map of_char s)
           in (if valid then take k s else [CHR 0xEF, CHR 0xBF, CHR 0xBD]) @ lossy_fuel n (drop k s))"

definition from_utf8_lossy :: "string \<Rightarrow> string" where
  "from_utf8_lossy s = lossy_fuel (length s) s"

definition body_text :: "HttpResponse \<Rightarrow> string" where
  "body_text r = from_utf8_lossy (resp_body r)"

text \<open>Deserialising a body: \<open>dec\<close> is \<^verbatim>\<open>serde_json::from_slice\<close> at the wanted type.\<close>

definition response_json :: "(string \<Rightarrow> string + 'a) \<Rightarrow> HttpResponse \<Rightarrow> (CoreError, 'a) result" where
  "response_json dec r = (case dec (resp_body r) of Inl m \<Rightarrow> Inl (Decode m) | Inr v \<Rightarrow> Inr v)"

definition parse_retry_after_ms :: "string \<Rightarrow> f64 option" where
  "parse_retry_after_ms value =
     (case parse_f64 (trim value) of None \<Rightarrow> None
      | Some seconds \<Rightarrow>
        if is_finite seconds \<and> f64_le (Fin 0) seconds then Some (f64_mul seconds (Fin 1000)) else None)"

definition check_status :: "HttpResponse \<Rightarrow> string \<Rightarrow> (CoreError, unit) result" where
  "check_status response context =
     (let s = resp_status response in
      if 200 \<le> s \<and> s < 300 then Inr ()
      else if s = 426 then Inl (VersionMismatch (context @ '': client API version too old (426)''))
      else if s = 501 then
        Inl (VersionMismatch (context @ '': server does not support client API version (501)''))
      else Inl (Status s context (body_text response)
                  (Option.bind (header response ''retry-after'') parse_retry_after_ms)))"

record AuthRequest =
  ar_session_id :: "string option"

definition AuthRequest_for_session :: "string \<Rightarrow> AuthRequest" where
  "AuthRequest_for_session sid = \<lparr> ar_session_id = Some sid \<rparr>"

section \<open>Properties\<close>

lemma utf8_piece_pos: "s \<noteq> [] \<Longrightarrow> 0 < fst (utf8_piece s)"
  by (cases s) (auto simp: cont_len_def split: list.splits)

text \<open>The fuel is enough: decoding the rest never depends on how much is left over.\<close>

lemma lossy_fuel_step:
  assumes "s \<noteq> []" and "k = fst (utf8_piece (map of_char s))"
  shows "lossy_fuel (Suc n) s =
    (if snd (utf8_piece (map of_char s)) then take k s else [CHR 0xEF, CHR 0xBF, CHR 0xBD]) @ lossy_fuel n (drop k s)"
  using assms by (simp add: case_prod_unfold Let_def)

lemma lossy_fuel_enough: "length s \<le> n \<Longrightarrow> lossy_fuel n s = lossy_fuel (length s) s"
proof (induction n arbitrary: s rule: less_induct)
  case (less n)
  show ?case
  proof (cases "s = []")
    case False
    define k where "k = fst (utf8_piece (map of_char s))"
    have k: "0 < k" unfolding k_def using False by (intro utf8_piece_pos) simp
    obtain l where l: "length s = Suc l" using False by (cases s) auto
    then obtain m where m: "n = Suc m" using less.prems by (cases n) auto
    have short: "length (drop k s) \<le> l" using k l by simp
    have "lossy_fuel m (drop k s) = lossy_fuel (length (drop k s)) (drop k s)"
      using less.prems short l m by (intro less.IH) auto
    moreover have "lossy_fuel l (drop k s) = lossy_fuel (length (drop k s)) (drop k s)"
      using less.prems short l m by (intro less.IH) auto
    ultimately show ?thesis using lossy_fuel_step [OF False k_def] by (simp only: l m)
  qed (cases n, auto)
qed

lemma check_status_ok_iff: "check_status r ctx = Inr () \<longleftrightarrow> is_success r"
  by (auto simp: check_status_def is_success_def Let_def)

lemma f64_mul_1000_nonneg:
  "f64_le (Fin 0) (Fin q) \<Longrightarrow> f64_le (Fin 0) (f64_mul (Fin q) (Fin 1000))"
  using round64_nonneg [of "q * 1000"] by (auto simp: f64_le_def f64_eq_def)

text \<open>
  A status check succeeds exactly on 2xx. Otherwise 426 and 501 become a version mismatch, which
  is never retried and carries no backoff hint, and every other status keeps its code; a backoff
  hint, when there is one, is a non-negative number of milliseconds.
\<close>

theorem check_status_cases:
  "case check_status r ctx of
     Inr _ \<Rightarrow> is_success r
   | Inl e \<Rightarrow> \<not> is_success r
       \<and> (if resp_status r = 426 \<or> resp_status r = 501
          then code e = VERSION_MISMATCH \<and> \<not> recoverable e \<and> error_retry_after_ms e = None
          else error_status e = Some (resp_status r) \<and>
               (case error_retry_after_ms e of None \<Rightarrow> True | Some ms \<Rightarrow> f64_le (Fin 0) ms))"
proof -
  have "f64_le (Fin 0) ms" if "parse_retry_after_ms v = Some ms" for v ms
    using that f64_mul_1000_nonneg
    by (auto simp: parse_retry_after_ms_def split: option.splits if_splits elim!: is_finite.elims)
  then show ?thesis
    by (auto simp: check_status_def is_success_def Let_def recoverable_def code_is_recoverable_def code_defs
        split: option.splits bind_splits)
qed

end
