(* ===== verification/Backoff.thy ===== *)
theory Backoff
  imports F64
begin

text \<open>
  \<^verbatim>\<open>std::time::Duration\<close> as whole nanoseconds, and the polling schedule of
  \<^verbatim>\<open>reactor-core/src/backoff.rs\<close>. A conversion that panics in Rust is \<^const>\<open>None\<close>.
\<close>

section \<open>Durations\<close>

type_synonym duration = nat

definition duration_max :: duration where
  "duration_max = 2 ^ 64 * 10 ^ 9 - 1"

definition from_millis :: "nat \<Rightarrow> duration" where
  "from_millis n = n * 10 ^ 6"

definition from_secs :: "nat \<Rightarrow> duration" where
  "from_secs n = n * 10 ^ 9"

definition as_secs_f64 :: "duration \<Rightarrow> f64" where
  "as_secs_f64 d =
     f64_add (f64_of_nat (d div 10 ^ 9)) (f64_div_by (f64_of_nat (d mod 10 ^ 9)) (10 ^ 9))"

fun try_from_secs_f64 :: "f64 \<Rightarrow> duration option" where
  "try_from_secs_f64 (Fin x) =
     (if x < 0 then None
      else let n = nat (rne (x * 10 ^ 9)) in if n \<le> duration_max then Some n else None)"
| "try_from_secs_f64 _ = None"

definition duration_saturating_add :: "duration \<Rightarrow> duration \<Rightarrow> duration" where
  "duration_saturating_add a b = min duration_max (a + b)"

text \<open>\<^verbatim>\<open>impl Debug for Duration\<close>: the largest unit that is not zero, trailing zeros dropped.\<close>

definition pad_left :: "nat \<Rightarrow> string \<Rightarrow> string" where
  "pad_left w s = replicate (w - length s) CHR ''0'' @ s"

definition show_frac :: "nat \<Rightarrow> nat \<Rightarrow> string" where
  "show_frac w n = (let s = trim_end_matches CHR ''0'' (pad_left w (show_nat n))
                    in if s = [] then [] else CHR ''.'' # s)"

definition show_duration :: "duration \<Rightarrow> string" where
  "show_duration d =
     (if 10 ^ 9 \<le> d then show_nat (d div 10 ^ 9) @ show_frac 9 (d mod 10 ^ 9) @ ''s''
      else if 10 ^ 6 \<le> d then show_nat (d div 10 ^ 6) @ show_frac 6 (d mod 10 ^ 6) @ ''ms''
      else if 10 ^ 3 \<le> d then show_nat (d div 10 ^ 3) @ show_frac 3 (d mod 10 ^ 3) @ [CHR 0xC2, CHR 0xB5, CHR ''s'']
      else show_nat d @ ''ns'')"

section \<open>The schedule\<close>

record PollConfig =
  initial :: duration
  max_delay :: duration
  multiplier :: f64
  max_attempts :: u32

definition PollConfig_session :: PollConfig where
  "PollConfig_session = \<lparr> initial = from_millis 200, max_delay = from_secs 10, multiplier = Fin 2, max_attempts = 20 \<rparr>"

definition PollConfig_sdp :: PollConfig where
  "PollConfig_sdp = \<lparr> initial = from_millis 200, max_delay = from_secs 15, multiplier = Fin 2, max_attempts = 6 \<rparr>"

record Backoff =
  next_at :: duration
  backoff_max :: duration
  backoff_multiplier :: f64

definition backoff :: "PollConfig \<Rightarrow> Backoff" where
  "backoff c = \<lparr> next_at = initial c, backoff_max = max_delay c, backoff_multiplier = multiplier c \<rparr>"

text \<open>The delay to sleep and the advanced schedule; \<^const>\<open>None\<close> when \<^verbatim>\<open>Duration::from_secs_f64\<close> panics.\<close>

definition next_delay :: "Backoff \<Rightarrow> (duration \<times> Backoff) option" where
  "next_delay b =
     (let current = next_at b;
          scaled = f64_mul (as_secs_f64 current) (backoff_multiplier b)
      in case try_from_secs_f64 (f64_min scaled (as_secs_f64 (backoff_max b))) of
           None \<Rightarrow> None
         | Some n \<Rightarrow> Some (current, b\<lparr>next_at := n\<rparr>))"

text \<open>The first \<open>n\<close> delays a loop that keeps asking for the next one sleeps.\<close>

fun delays :: "nat \<Rightarrow> Backoff \<Rightarrow> duration list option" where
  "delays 0 b = Some []"
| "delays (Suc n) b =
     (case next_delay b of None \<Rightarrow> None
      | Some (d, b') \<Rightarrow> (case delays n b' of None \<Rightarrow> None | Some ds \<Rightarrow> Some (d # ds)))"

section \<open>Lemmas\<close>

lemma round64_small_int: "n \<le> 2 ^ 53 \<Longrightarrow> round64 (of_nat n) = Fin (of_nat n)"
  using round64_of_int [of "int n"] by simp

lemma as_secs_f64_whole: "n \<le> 2 ^ 53 \<Longrightarrow> as_secs_f64 (from_secs n) = Fin (of_nat n)"
  by (simp add: as_secs_f64_def from_secs_def f64_of_nat_def round64_small_int)

lemma try_from_whole:
  assumes "n < 2 ^ 64"
  shows "try_from_secs_f64 (Fin (of_nat n)) = Some (from_secs n)"
proof -
  have "rne (of_nat n * 10 ^ 9) = rne (of_int (int n * 10 ^ 9))" by simp
  also have "\<dots> = int n * 10 ^ 9" by (rule rne_of_int)
  finally show ?thesis using assms by (simp add: from_secs_def duration_max_def nat_mult_distrib)
qed

text \<open>
  The default schedules start at 200 ms and double: at every stage the seconds are the value
  \<open>0.2\<close> rounds to, times a power of two.
\<close>

lemma round64_fifth1: "round64 (1 / 5) = Fin (3602879701896397 / 2 ^ 54)"
  by (subst round64_evalI [where e = "- 3" and n = 7205759403792794]) (simp_all add: rne_near)

lemma round64_fifth2: "round64 (2 / 5) = Fin (3602879701896397 / 2 ^ 53)"
  by (subst round64_evalI [where e = "- 2" and n = 7205759403792794]) (simp_all add: rne_near)

lemma round64_fifth3: "round64 (3 / 5) = Fin (5404319552844595 / 2 ^ 53)"
  by (subst round64_evalI [where e = "- 1" and n = 5404319552844595]) (simp_all add: rne_near)

lemma round64_fifth4: "round64 (4 / 5) = Fin (3602879701896397 / 2 ^ 52)"
  by (subst round64_evalI [where e = "- 1" and n = 7205759403792794]) (simp_all add: rne_near)

lemma round64_carry1: "round64 (1 + 5404319552844595 / 2 ^ 53) = Fin (3602879701896397 / 2 ^ 51)"
  by (subst round64_evalI [where e = "0" and n = 7205759403792794]) (simp_all add: rne_tie_up)

lemma round64_carry2: "round64 (3 + 3602879701896397 / 2 ^ 54) = Fin (3602879701896397 / 2 ^ 50)"
  by (subst round64_evalI [where e = "1" and n = 7205759403792794]) (simp_all add: rne_near)

lemma round64_carry3: "round64 (6 + 3602879701896397 / 2 ^ 53) = Fin (3602879701896397 / 2 ^ 49)"
  by (subst round64_evalI [where e = "2" and n = 7205759403792794]) (simp_all add: rne_near)

lemma round64_carry4: "round64 (12 + 3602879701896397 / 2 ^ 52) = Fin (3602879701896397 / 2 ^ 48)"
  by (subst round64_evalI [where e = "3" and n = 7205759403792794]) (simp_all add: rne_near)

lemma round64_stage: "k \<le> 1074 \<Longrightarrow> round64 (3602879701896397 / 2 ^ k) = Fin (3602879701896397 / 2 ^ k)"
  using round64_dyadic [of 3602879701896397 k] by simp

lemmas schedule_rounding =
  round64_fifth1 [simplified] round64_fifth2 [simplified] round64_fifth3 [simplified] round64_fifth4 [simplified]
  round64_carry1 [simplified] round64_carry2 [simplified] round64_carry3 [simplified] round64_carry4 [simplified]
  round64_stage [of 54, simplified] round64_stage [of 53, simplified] round64_stage [of 52, simplified]
  round64_stage [of 51, simplified] round64_stage [of 50, simplified] round64_stage [of 49, simplified]
  round64_stage [of 48, simplified] round64_stage [of 47, simplified]

lemma as_secs_schedule:
  "as_secs_f64 (from_millis 200) = Fin (3602879701896397 / 2 ^ 54)"
  "as_secs_f64 (from_millis 400) = Fin (3602879701896397 / 2 ^ 53)"
  "as_secs_f64 (from_millis 800) = Fin (3602879701896397 / 2 ^ 52)"
  "as_secs_f64 (from_millis 1600) = Fin (3602879701896397 / 2 ^ 51)"
  "as_secs_f64 (from_millis 3200) = Fin (3602879701896397 / 2 ^ 50)"
  "as_secs_f64 (from_millis 6400) = Fin (3602879701896397 / 2 ^ 49)"
  "as_secs_f64 (from_millis 12800) = Fin (3602879701896397 / 2 ^ 48)"
  by (simp_all add: as_secs_f64_def from_millis_def f64_of_nat_def schedule_rounding)

text \<open>Turning the doubled seconds back into nanoseconds is exact.\<close>

lemma try_from_schedule:
  "try_from_secs_f64 (Fin (3602879701896397 / 2 ^ 53)) = Some (from_millis 400)"
  "try_from_secs_f64 (Fin (3602879701896397 / 2 ^ 52)) = Some (from_millis 800)"
  "try_from_secs_f64 (Fin (3602879701896397 / 2 ^ 51)) = Some (from_millis 1600)"
  "try_from_secs_f64 (Fin (3602879701896397 / 2 ^ 50)) = Some (from_millis 3200)"
  "try_from_secs_f64 (Fin (3602879701896397 / 2 ^ 49)) = Some (from_millis 6400)"
  "try_from_secs_f64 (Fin (3602879701896397 / 2 ^ 48)) = Some (from_millis 12800)"
proof -
  have "rne (3602879701896397 / 2 ^ 53 * 10 ^ 9) = 400000000" by (rule rne_near) simp
  then show "try_from_secs_f64 (Fin (3602879701896397 / 2 ^ 53)) = Some (from_millis 400)"
    by (simp add: duration_max_def from_millis_def)
  have "rne (3602879701896397 / 2 ^ 52 * 10 ^ 9) = 800000000" by (rule rne_near) simp
  then show "try_from_secs_f64 (Fin (3602879701896397 / 2 ^ 52)) = Some (from_millis 800)"
    by (simp add: duration_max_def from_millis_def)
  have "rne (3602879701896397 / 2 ^ 51 * 10 ^ 9) = 1600000000" by (rule rne_near) simp
  then show "try_from_secs_f64 (Fin (3602879701896397 / 2 ^ 51)) = Some (from_millis 1600)"
    by (simp add: duration_max_def from_millis_def)
  have "rne (3602879701896397 / 2 ^ 50 * 10 ^ 9) = 3200000000" by (rule rne_near) simp
  then show "try_from_secs_f64 (Fin (3602879701896397 / 2 ^ 50)) = Some (from_millis 3200)"
    by (simp add: duration_max_def from_millis_def)
  have "rne (3602879701896397 / 2 ^ 49 * 10 ^ 9) = 6400000000" by (rule rne_near) simp
  then show "try_from_secs_f64 (Fin (3602879701896397 / 2 ^ 49)) = Some (from_millis 6400)"
    by (simp add: duration_max_def from_millis_def)
  have "rne (3602879701896397 / 2 ^ 48 * 10 ^ 9) = 12800000000" by (rule rne_near) simp
  then show "try_from_secs_f64 (Fin (3602879701896397 / 2 ^ 48)) = Some (from_millis 12800)"
    by (simp add: duration_max_def from_millis_def)
qed

text \<open>One step of the schedule from each delay a doubling from 200 ms visits.\<close>

lemma next_delay_eq:
  "as_secs_f64 c = Fin x \<Longrightarrow> as_secs_f64 m = Fin y \<Longrightarrow> round64 (x * 2) = Fin z \<Longrightarrow>
   try_from_secs_f64 (Fin (min z y)) = Some n \<Longrightarrow>
   next_delay \<lparr> next_at = c, backoff_max = m, backoff_multiplier = Fin 2 \<rparr>
     = Some (c, \<lparr> next_at = n, backoff_max = m, backoff_multiplier = Fin 2 \<rparr>)"
  by (auto simp: next_delay_def Let_def f64_min_def min_def split: if_splits)

definition doubling :: "duration \<Rightarrow> nat \<Rightarrow> duration" where
  "doubling m k = min (from_millis (200 * 2 ^ k)) m"

definition doubling_state :: "duration \<Rightarrow> nat \<Rightarrow> Backoff" where
  "doubling_state m k = \<lparr> next_at = doubling m k, backoff_max = m, backoff_multiplier = Fin 2 \<rparr>"

lemma small_cases: "k < 7 \<Longrightarrow> k = 0 \<or> k = 1 \<or> k = 2 \<or> k = 3 \<or> k = 4 \<or> k = 5 \<or> k = (6::nat)"
  by linarith

lemma doubling_saturated:
  assumes "m \<le> from_millis 12800" and "6 \<le> k"
  shows "doubling m k = m"
proof -
  have "(2::nat) ^ 6 \<le> 2 ^ k" using assms(2) by (intro power_increasing) auto
  then have "from_millis 12800 \<le> from_millis (200 * 2 ^ k)" by (simp add: from_millis_def)
  then show ?thesis using assms(1) by (simp add: doubling_def)
qed

lemma doubling_saturated7:
  assumes "m \<le> from_millis 25600" and "7 \<le> k"
  shows "doubling m k = m"
proof -
  have "(2::nat) ^ 7 \<le> 2 ^ k" using assms(2) by (intro power_increasing) auto
  then have "from_millis 25600 \<le> from_millis (200 * 2 ^ k)" by (simp add: from_millis_def)
  then show ?thesis using assms(1) by (simp add: doubling_def)
qed

lemma next_delay_at_max:
  assumes "n \<le> 2 ^ 52"
  shows "next_delay \<lparr> next_at = from_secs n, backoff_max = from_secs n, backoff_multiplier = Fin 2 \<rparr>
     = Some (from_secs n, \<lparr> next_at = from_secs n, backoff_max = from_secs n, backoff_multiplier = Fin 2 \<rparr>)"
proof (rule next_delay_eq)
  show "as_secs_f64 (from_secs n) = Fin (of_nat n)" "as_secs_f64 (from_secs n) = Fin (of_nat n)"
    using assms by (simp_all add: as_secs_f64_whole)
  show "round64 (of_nat n * 2) = Fin (of_nat (n * 2))" using assms round64_small_int [of "n * 2"] by simp
  show "try_from_secs_f64 (Fin (min (of_nat (n * 2)) (of_nat n))) = Some (from_secs n)"
    using assms try_from_whole [of n] by simp
qed

lemma as_secs_10_15: "as_secs_f64 (from_secs 10) = Fin 10" "as_secs_f64 (from_secs 15) = Fin 15"
  using as_secs_f64_whole [of 10] as_secs_f64_whole [of 15] by simp_all

lemma try_from_10_15: "try_from_secs_f64 (Fin 10) = Some (from_secs 10)" "try_from_secs_f64 (Fin 15) = Some (from_secs 15)"
  using try_from_whole [of 10] try_from_whole [of 15] by simp_all

lemma doubling_step:
  assumes "as_secs_f64 m = Fin y"
  shows "3602879701896397 / 2 ^ 53 \<le> y \<Longrightarrow> next_delay \<lparr> next_at = from_millis 200, backoff_max = m, backoff_multiplier = Fin 2 \<rparr>
     = Some (from_millis 200, \<lparr> next_at = from_millis 400, backoff_max = m, backoff_multiplier = Fin 2 \<rparr>)"
  and "3602879701896397 / 2 ^ 52 \<le> y \<Longrightarrow> next_delay \<lparr> next_at = from_millis 400, backoff_max = m, backoff_multiplier = Fin 2 \<rparr>
     = Some (from_millis 400, \<lparr> next_at = from_millis 800, backoff_max = m, backoff_multiplier = Fin 2 \<rparr>)"
  and "3602879701896397 / 2 ^ 51 \<le> y \<Longrightarrow> next_delay \<lparr> next_at = from_millis 800, backoff_max = m, backoff_multiplier = Fin 2 \<rparr>
     = Some (from_millis 800, \<lparr> next_at = from_millis 1600, backoff_max = m, backoff_multiplier = Fin 2 \<rparr>)"
  and "3602879701896397 / 2 ^ 50 \<le> y \<Longrightarrow> next_delay \<lparr> next_at = from_millis 1600, backoff_max = m, backoff_multiplier = Fin 2 \<rparr>
     = Some (from_millis 1600, \<lparr> next_at = from_millis 3200, backoff_max = m, backoff_multiplier = Fin 2 \<rparr>)"
  and "3602879701896397 / 2 ^ 49 \<le> y \<Longrightarrow> next_delay \<lparr> next_at = from_millis 3200, backoff_max = m, backoff_multiplier = Fin 2 \<rparr>
     = Some (from_millis 3200, \<lparr> next_at = from_millis 6400, backoff_max = m, backoff_multiplier = Fin 2 \<rparr>)"
  and "3602879701896397 / 2 ^ 48 \<le> y \<Longrightarrow> next_delay \<lparr> next_at = from_millis 6400, backoff_max = m, backoff_multiplier = Fin 2 \<rparr>
     = Some (from_millis 6400, \<lparr> next_at = from_millis 12800, backoff_max = m, backoff_multiplier = Fin 2 \<rparr>)"
  subgoal by (rule next_delay_eq [OF as_secs_schedule(1) assms, where z = "3602879701896397 / 2 ^ 53"])
      (simp_all only: min_absorb1 try_from_schedule, simp add: schedule_rounding)
  subgoal by (rule next_delay_eq [OF as_secs_schedule(2) assms, where z = "3602879701896397 / 2 ^ 52"])
      (simp_all only: min_absorb1 try_from_schedule, simp add: schedule_rounding)
  subgoal by (rule next_delay_eq [OF as_secs_schedule(3) assms, where z = "3602879701896397 / 2 ^ 51"])
      (simp_all only: min_absorb1 try_from_schedule, simp add: schedule_rounding)
  subgoal by (rule next_delay_eq [OF as_secs_schedule(4) assms, where z = "3602879701896397 / 2 ^ 50"])
      (simp_all only: min_absorb1 try_from_schedule, simp add: schedule_rounding)
  subgoal by (rule next_delay_eq [OF as_secs_schedule(5) assms, where z = "3602879701896397 / 2 ^ 49"])
      (simp_all only: min_absorb1 try_from_schedule, simp add: schedule_rounding)
  subgoal by (rule next_delay_eq [OF as_secs_schedule(6) assms, where z = "3602879701896397 / 2 ^ 48"])
      (simp_all only: min_absorb1 try_from_schedule, simp add: schedule_rounding)
  done

lemma doubling_cap:
  "next_delay \<lparr> next_at = from_millis 6400, backoff_max = from_secs 10, backoff_multiplier = Fin 2 \<rparr>
     = Some (from_millis 6400, \<lparr> next_at = from_secs 10, backoff_max = from_secs 10, backoff_multiplier = Fin 2 \<rparr>)"
  "next_delay \<lparr> next_at = from_millis 12800, backoff_max = from_secs 15, backoff_multiplier = Fin 2 \<rparr>
     = Some (from_millis 12800, \<lparr> next_at = from_secs 15, backoff_max = from_secs 15, backoff_multiplier = Fin 2 \<rparr>)"
  subgoal by (rule next_delay_eq [OF as_secs_schedule(6) as_secs_10_15(1), where z = "3602879701896397 / 2 ^ 48"])
      (simp_all add: schedule_rounding min_def try_from_10_15 del: try_from_secs_f64.simps)
  subgoal by (rule next_delay_eq [OF as_secs_schedule(7) as_secs_10_15(2), where z = "3602879701896397 / 2 ^ 47"])
      (simp_all add: schedule_rounding min_def try_from_10_15 del: try_from_secs_f64.simps)
  done

lemma doubling_values:
  "doubling (from_secs 10) 0 = from_millis 200" "doubling (from_secs 15) 0 = from_millis 200"
  "doubling (from_secs 10) (Suc 0) = from_millis 400" "doubling (from_secs 15) (Suc 0) = from_millis 400"
  "doubling (from_secs 10) (Suc (Suc 0)) = from_millis 800" "doubling (from_secs 15) (Suc (Suc 0)) = from_millis 800"
  "doubling (from_secs 10) 2 = from_millis 800" "doubling (from_secs 15) 2 = from_millis 800"
  "doubling (from_secs 10) 3 = from_millis 1600" "doubling (from_secs 15) 3 = from_millis 1600"
  "doubling (from_secs 10) 4 = from_millis 3200" "doubling (from_secs 15) 4 = from_millis 3200"
  "doubling (from_secs 10) 5 = from_millis 6400" "doubling (from_secs 15) 5 = from_millis 6400"
  "doubling (from_secs 10) 6 = from_secs 10" "doubling (from_secs 15) 6 = from_millis 12800"
  "doubling (from_secs 15) 7 = from_secs 15"
  by (simp_all add: doubling_def from_secs_def from_millis_def)

lemma next_delay_session: "next_delay (doubling_state (from_secs 10) k)
    = Some (doubling (from_secs 10) k, doubling_state (from_secs 10) (Suc k))"
proof (cases "6 \<le> k")
  case True
  then have "doubling (from_secs 10) k = from_secs 10" "doubling (from_secs 10) (Suc k) = from_secs 10"
    by (auto intro!: doubling_saturated simp: from_secs_def from_millis_def)
  then show ?thesis using next_delay_at_max [of 10] by (simp add: doubling_state_def)
next
  case False
  then have "k = 0 \<or> k = Suc 0 \<or> k = 2 \<or> k = 3 \<or> k = 4 \<or> k = 5" by linarith
  then show ?thesis
    by (elim disjE; simp add: doubling_state_def doubling_values doubling_step [OF as_secs_10_15(1)] doubling_cap)
qed

lemma next_delay_sdp: "next_delay (doubling_state (from_secs 15) k)
    = Some (doubling (from_secs 15) k, doubling_state (from_secs 15) (Suc k))"
proof (cases "7 \<le> k")
  case True
  then have "doubling (from_secs 15) k = from_secs 15" "doubling (from_secs 15) (Suc k) = from_secs 15"
    by (auto intro!: doubling_saturated7 simp: from_secs_def from_millis_def)
  then show ?thesis using next_delay_at_max [of 15] by (simp add: doubling_state_def)
next
  case False
  then have "k = 0 \<or> k = Suc 0 \<or> k = 2 \<or> k = 3 \<or> k = 4 \<or> k = 5 \<or> k = 6" by linarith
  then show ?thesis
    by (elim disjE; simp add: doubling_state_def doubling_values doubling_step [OF as_secs_10_15(2)] doubling_cap)
qed

lemma delays_doubling:
  assumes "\<And>k. next_delay (doubling_state m k) = Some (doubling m k, doubling_state m (Suc k))"
  shows "delays n (doubling_state m k) = Some (map (doubling m) [k..<k + n])"
  by (induction n arbitrary: k) (simp_all add: assms upt_conv_Cons del: upt_Suc)

lemma backoff_default:
  "backoff PollConfig_session = doubling_state (from_secs 10) 0"
  "backoff PollConfig_sdp = doubling_state (from_secs 15) 0"
  by (simp_all add: backoff_def PollConfig_session_def PollConfig_sdp_def doubling_state_def doubling_values)

text \<open>A step never panics and never passes the cap, from any delay and any sane multiplier.\<close>

lemma f64_mul_nonneg:
  assumes "0 \<le> q" and "a = Inf \<or> (\<exists>r \<ge> 0. a = Fin r)"
  shows "f64_mul a (Fin q) \<in> {Inf, NaN} \<union> Fin ` {r. 0 \<le> r}"
proof (cases a)
  case (Fin r)
  then have "0 \<le> r * q" using assms by auto
  then show ?thesis using Fin round64_nonneg [of "r * q"] by auto
qed (use assms in \<open>auto simp: signed_inf_def\<close>)

lemma f64_add_nonneg:
  assumes "a = Inf \<or> (\<exists>r \<ge> 0. a = Fin r)" and "b = Inf \<or> (\<exists>r \<ge> 0. b = Fin r)"
  shows "f64_add a b = Inf \<or> (\<exists>r \<ge> 0. f64_add a b = Fin r)"
proof (cases "(a, b)" rule: f64_add.cases)
  case (1 x y)
  then have "0 \<le> x + y" using assms by auto
  then show ?thesis using 1 round64_nonneg [of "x + y"] by auto
qed (use assms in auto)

lemma f64_div_by_nonneg:
  assumes "0 < d" and "a = Inf \<or> (\<exists>r \<ge> 0. a = Fin r)"
  shows "f64_div_by a d = Inf \<or> (\<exists>r \<ge> 0. f64_div_by a d = Fin r)"
proof (cases a)
  case (Fin r)
  then show ?thesis using assms round64_nonneg [of "r / d"] by auto
qed (use assms in \<open>auto simp: signed_inf_def\<close>)

lemma as_secs_f64_nonneg: "as_secs_f64 d = Inf \<or> (\<exists>r \<ge> 0. as_secs_f64 d = Fin r)"
  unfolding as_secs_f64_def f64_of_nat_def
  by (intro f64_add_nonneg f64_div_by_nonneg round64_nonneg) simp_all

lemma try_from_secs_f64_le:
  assumes "0 \<le> z" and "z \<le> of_nat n" and "n < 2 ^ 64"
  shows "\<exists>d \<le> from_secs n. try_from_secs_f64 (Fin z) = Some d"
proof -
  have "rne (z * 10 ^ 9) \<le> rne (of_int (int n * 10 ^ 9))" using assms by (intro rne_mono) simp
  then have le: "nat (rne (z * 10 ^ 9)) \<le> from_secs n" by (simp add: from_secs_def rne_of_int nat_le_iff del: of_int_mult)
  moreover have "from_secs n \<le> duration_max" using assms(3) by (simp add: from_secs_def duration_max_def)
  ultimately show ?thesis using assms(1) by auto
qed

lemma next_delay_total:
  assumes "backoff_max b = from_secs n" and "n \<le> 2 ^ 53" and "backoff_multiplier b = Fin q" and "0 \<le> q"
  shows "\<exists>m \<le> from_secs n. next_delay b = Some (next_at b, b\<lparr>next_at := m\<rparr>)"
proof -
  define scaled where "scaled = f64_mul (as_secs_f64 (next_at b)) (Fin q)"
  have "scaled \<in> {Inf, NaN} \<union> Fin ` {r. 0 \<le> r}"
    unfolding scaled_def using assms(4) as_secs_f64_nonneg by (rule f64_mul_nonneg)
  then have "\<exists>z. f64_min scaled (Fin (of_nat n)) = Fin z \<and> 0 \<le> z \<and> z \<le> of_nat n"
    by (auto simp: f64_min_def)
  then obtain z where z: "f64_min scaled (Fin (of_nat n)) = Fin z" "0 \<le> z" "z \<le> of_nat n"
    by blast
  have "\<exists>d \<le> from_secs n. try_from_secs_f64 (Fin z) = Some d"
    using z(2,3) assms(2) by (intro try_from_secs_f64_le) simp_all
  then show ?thesis
    using z(1) assms by (auto simp: next_delay_def Let_def as_secs_f64_whole scaled_def [symmetric]
        simp del: try_from_secs_f64.simps)
qed

section \<open>Properties\<close>

text \<open>
  With the default configurations the delays between polls are exactly 200 ms doubled each
  time and capped at 10 s (session readiness) or 15 s (SDP answer), for any number of polls, in spite
  of the round trip through floating-point seconds.
\<close>

theorem default_schedules:
  "delays n (backoff PollConfig_session) = Some (map (\<lambda>k. min (from_millis (200 * 2 ^ k)) (from_secs 10)) [0..<n])
   \<and> delays n (backoff PollConfig_sdp) = Some (map (\<lambda>k. min (from_millis (200 * 2 ^ k)) (from_secs 15)) [0..<n])"
  using delays_doubling [OF next_delay_session, of n 0] delays_doubling [OF next_delay_sdp, of n 0]
  by (simp add: backoff_default doubling_def [abs_def])

text \<open>
  For any configuration whose cap is a whole number of seconds and whose multiplier is a
  finite non-negative number, asking for delays never panics and no delay after the first exceeds the
  cap; the first is the configured initial delay.
\<close>

theorem delays_bounded:
  assumes "max_delay c = from_secs m" and "m \<le> 2 ^ 53" and "multiplier c = Fin q" and "0 \<le> q"
  shows "\<exists>ds. delays (Suc n) (backoff c) = Some (initial c # ds) \<and> length ds = n \<and> (\<forall>d \<in> set ds. d \<le> max_delay c)"
proof -
  have run: "\<exists>ds. delays n b = Some ds \<and> length ds = n \<and> (\<forall>d \<in> set ds. d \<le> from_secs m)"
    if "backoff_max b = from_secs m" "backoff_multiplier b = Fin q" "next_at b \<le> from_secs m" for b n
    using that
  proof (induction n arbitrary: b)
    case (Suc n)
    obtain k where k: "k \<le> from_secs m" "next_delay b = Some (next_at b, b\<lparr>next_at := k\<rparr>)"
      using next_delay_total [OF Suc.prems(1) assms(2) Suc.prems(2) assms(4)] by blast
    with Suc.IH [of "b\<lparr>next_at := k\<rparr>"] Suc.prems show ?case by auto
  qed simp
  obtain k where k: "k \<le> from_secs m" "next_delay (backoff c) = Some (initial c, (backoff c)\<lparr>next_at := k\<rparr>)"
    using next_delay_total [of "backoff c" m q] assms by (auto simp: backoff_def)
  with run [of "(backoff c)\<lparr>next_at := k\<rparr>" n] assms show ?thesis by (auto simp: backoff_def)
qed

text \<open>The bound holds for the default session configuration.\<close>

theorem delays_bounded_witness:
  "\<exists>ds. delays (Suc 19) (backoff PollConfig_session) = Some (initial PollConfig_session # ds) \<and> length ds = 19
     \<and> (\<forall>d \<in> set ds. d \<le> max_delay PollConfig_session)"
  by (rule delays_bounded [of _ 10 2]) (simp_all add: PollConfig_session_def)

end
