(* ===== verification/Effects.thy ===== *)
theory Effects
  imports Http Backoff
begin

text \<open>
  Effects. A fallible operation of the core is a function from the state to a result and a new state;
  \<open>bindE\<close> is Rust's \<^verbatim>\<open>?\<close> followed by the rest of the body. It fails with a \<open>CoreError\<close> or panics.
  The platform traits the host implements (\<^verbatim>\<open>HttpClient\<close>, \<^verbatim>\<open>AuthProvider\<close>, \<^verbatim>\<open>Platform\<close>) are
  the fields of \<open>host\<close>, an argument of every definition that calls them. An awaited call of the host
  maps the whole state: while the caller is suspended other tasks may run, so what it returns in the
  state is what they left there.
\<close>

named_theorems wp_simps \<open>weakest preconditions of the effect combinators\<close>

named_theorems ensures_intros \<open>what holds when an operation succeeds\<close>

section \<open>Combinators\<close>

datatype failure = Fail CoreError | Panic

type_synonym ('s, 'a) io = "'s \<Rightarrow> (failure, 'a) result \<times> 's"

definition retE :: "'a \<Rightarrow> ('s, 'a) io" where
  "retE x = (\<lambda>s. (Inr x, s))"

definition failE :: "CoreError \<Rightarrow> ('s, 'a) io" where
  "failE e = (\<lambda>s. (Inl (Fail e), s))"

definition panicE :: "('s, 'a) io" where
  "panicE = (\<lambda>s. (Inl Panic, s))"

definition bindE :: "('s, 'a) io \<Rightarrow> ('a \<Rightarrow> ('s, 'b) io) \<Rightarrow> ('s, 'b) io" where
  "bindE m f = (\<lambda>s. case m s of (Inl e, s') \<Rightarrow> (Inl e, s') | (Inr x, s') \<Rightarrow> f x s')"

definition liftE :: "(CoreError, 'a) result \<Rightarrow> ('s, 'a) io" where
  "liftE r = (case r of Inl e \<Rightarrow> failE e | Inr x \<Rightarrow> retE x)"

definition getE :: "('s \<Rightarrow> 'a) \<Rightarrow> ('s, 'a) io" where
  "getE f = (\<lambda>s. (Inr (f s), s))"

definition modifyE :: "('s \<Rightarrow> 's) \<Rightarrow> ('s, unit) io" where
  "modifyE f = (\<lambda>s. (Inr (), f s))"

definition whenE :: "bool \<Rightarrow> ('s, unit) io \<Rightarrow> ('s, unit) io" where
  "whenE b m = (if b then m else retE ())"

text \<open>Running an operation to its result, an error included, as a value. A panic goes on unwinding.\<close>

definition attemptE :: "('s, 'a) io \<Rightarrow> ('s, (CoreError, 'a) result) io" where
  "attemptE m = (\<lambda>s. case m s of
     (Inr x, s') \<Rightarrow> (Inr (Inr x), s')
   | (Inl (Fail e), s') \<Rightarrow> (Inr (Inl e), s')
   | (Inl Panic, s') \<Rightarrow> (Inl Panic, s'))"

section \<open>The host\<close>

record 's host =
  http_request :: "HttpRequest \<Rightarrow> ('s, HttpResponse) io"
  auth_jwt :: "AuthRequest \<Rightarrow> ('s, string option) io"
  sleep :: "duration \<Rightarrow> 's \<Rightarrow> 's"
  now_ms :: "'s \<Rightarrow> f64"

text \<open>The serde codecs of the wire types, from a third-party crate: the bytes of a JSON document.\<close>

record codec =
  enc_json :: "json \<Rightarrow> string"
  enc_create_session :: "CreateSessionRequest \<Rightarrow> string"
  dec_session :: "string \<Rightarrow> string + SessionResponse"
  enc_create_upload :: "CreateUploadRequest \<Rightarrow> string"
  dec_create_upload :: "string \<Rightarrow> string + CreateUploadResponse"
  dec_ice_servers :: "string \<Rightarrow> string + IceServer list"
  dec_register :: "string \<Rightarrow> string + u32"
  enc_sdp_offer :: "SdpOfferRequest \<Rightarrow> string"
  dec_sdp_answer :: "string \<Rightarrow> string + SdpAnswerResponse"
  enc_ice_candidates :: "IceCandidatesRequest \<Rightarrow> string"
  dec_token :: "string \<Rightarrow> string + string"

section \<open>Weakest preconditions\<close>

definition wp :: "('s, 'a) io \<Rightarrow> ('a \<Rightarrow> 's \<Rightarrow> bool) \<Rightarrow> (failure \<Rightarrow> 's \<Rightarrow> bool) \<Rightarrow> 's \<Rightarrow> bool" where
  "wp m Q E s = (case m s of (Inr x, s') \<Rightarrow> Q x s' | (Inl e, s') \<Rightarrow> E e s')"

lemma wp_retE [wp_simps]: "wp (retE x) Q E s = Q x s"
  by (simp add: wp_def retE_def)

lemma wp_failE [wp_simps]: "wp (failE e) Q E s = E (Fail e) s"
  by (simp add: wp_def failE_def)

lemma wp_panicE [wp_simps]: "wp panicE Q E s = E Panic s"
  by (simp add: wp_def panicE_def)

lemma wp_liftE [wp_simps]: "wp (liftE r) Q E s = (case r of Inl e \<Rightarrow> E (Fail e) s | Inr x \<Rightarrow> Q x s)"
  by (simp add: liftE_def wp_failE wp_retE split: sum.splits)

lemma wp_getE [wp_simps]: "wp (getE f) Q E s = Q (f s) s"
  by (simp add: wp_def getE_def)

lemma wp_modifyE [wp_simps]: "wp (modifyE f) Q E s = Q () (f s)"
  by (simp add: wp_def modifyE_def)

lemma wp_bindE [wp_simps]: "wp (bindE m f) Q E s = wp m (\<lambda>x. wp (f x) Q E) E s"
  by (simp add: wp_def bindE_def split: prod.splits sum.splits)

lemma wp_whenE [wp_simps]: "wp (whenE b m) Q E s = (if b then wp m Q E s else Q () s)"
  by (simp add: whenE_def wp_retE)

lemma wp_attemptE [wp_simps]:
  "wp (attemptE m) Q E s = wp m (\<lambda>x. Q (Inr x)) (\<lambda>f. case f of Fail e \<Rightarrow> Q (Inl e) | Panic \<Rightarrow> E Panic) s"
  by (simp add: wp_def attemptE_def split: prod.splits sum.splits failure.splits)

lemma wp_if [wp_simps]: "wp (if b then m else m') Q E s = (if b then wp m Q E s else wp m' Q E s)"
  by simp

lemma wp_mono:
  assumes "wp m Q E s" and "\<And>x s'. Q x s' \<Longrightarrow> Q' x s'" and "\<And>e s'. E e s' \<Longrightarrow> E' e s'"
  shows "wp m Q' E' s"
  using assms by (auto simp: wp_def split: prod.splits sum.splits)

lemma wp_conj: "wp m Q E s \<Longrightarrow> wp m Q' E' s \<Longrightarrow> wp m (\<lambda>x s. Q x s \<and> Q' x s) (\<lambda>e s. E e s \<and> E' e s) s"
  by (auto simp: wp_def split: prod.splits sum.splits)

text \<open>An operation that keeps a predicate of the state, whatever its outcome.\<close>

definition preserves :: "('s, 'a) io \<Rightarrow> ('s \<Rightarrow> bool) \<Rightarrow> bool" where
  "preserves m P \<longleftrightarrow> (\<forall>s. P s \<longrightarrow> P (snd (m s)))"

lemma wp_const: "wp m (\<lambda>_. P) (\<lambda>_. P) s \<longleftrightarrow> P (snd (m s))"
  by (cases "m s"; cases "fst (m s)") (auto simp: wp_def)

lemma preserves_wp: "preserves m P \<longleftrightarrow> (\<forall>s. P s \<longrightarrow> wp m (\<lambda>_. P) (\<lambda>_. P) s)"
  by (simp add: preserves_def wp_const)

lemma preserves_wpD: "preserves m P \<Longrightarrow> P s \<Longrightarrow> wp m (\<lambda>_. P) (\<lambda>_. P) s"
  by (simp add: preserves_wp)

lemma preserves_retE [inv_intros]: "preserves (retE x) P"
  by (simp add: preserves_def retE_def)

lemma preserves_failE [inv_intros]: "preserves (failE x) P"
  by (simp add: preserves_def failE_def)

lemma preserves_panicE [inv_intros]: "preserves panicE P"
  by (simp add: preserves_def panicE_def)

lemma preserves_liftE [inv_intros]: "preserves (liftE x) P"
  by (simp add: liftE_def preserves_failE preserves_retE split: sum.splits)

lemma preserves_getE [inv_intros]: "preserves (getE f) P"
  by (simp add: preserves_def getE_def)

lemma preserves_bindE [inv_intros]: "preserves m P \<Longrightarrow> (\<And>x. preserves (f x) P) \<Longrightarrow> preserves (bindE m f) P"
  unfolding preserves_wp wp_bindE by (blast intro: wp_mono)

lemma preserves_whenE [inv_intros]: "preserves m P \<Longrightarrow> preserves (whenE b m) P"
  by (simp add: whenE_def preserves_retE)

lemma preserves_attemptE [inv_intros]: "preserves m P \<Longrightarrow> preserves (attemptE m) P"
  unfolding preserves_wp wp_attemptE by (auto elim!: wp_mono split: failure.splits)

lemma preserves_if [inv_intros]: "(b \<Longrightarrow> preserves m P) \<Longrightarrow> (\<not> b \<Longrightarrow> preserves m' P) \<Longrightarrow> preserves (if b then m else m') P"
  by simp

lemma preserves_case_option [inv_intros]:
  "preserves m P \<Longrightarrow> (\<And>x. preserves (f x) P) \<Longrightarrow> preserves (case v of None \<Rightarrow> m | Some x \<Rightarrow> f x) P"
  by (cases v) auto

lemma preserves_case_sum [inv_intros]:
  "(\<And>x. preserves (f x) P) \<Longrightarrow> (\<And>x. preserves (g x) P) \<Longrightarrow> preserves (case v of Inl x \<Rightarrow> f x | Inr x \<Rightarrow> g x) P"
  by (cases v) auto

lemma preserves_case_prod [inv_intros]:
  "(\<And>x y. preserves (f x y) P) \<Longrightarrow> preserves (case v of (x, y) \<Rightarrow> f x y) P"
  by (cases v) auto

lemma preserves_case_bool [inv_intros]:
  "preserves m P \<Longrightarrow> preserves m' P \<Longrightarrow> preserves (case v of True \<Rightarrow> m | False \<Rightarrow> m') P"
  by (cases v) auto

lemma preserves_Let [inv_intros]: "(\<And>x. preserves (f x) P) \<Longrightarrow> preserves (Let v f) P"
  by (simp add: Let_def)

section \<open>Success\<close>

text \<open>What holds of the value and the state whenever an operation succeeds, from any state.\<close>

definition ensures :: "('s, 'a) io \<Rightarrow> ('a \<Rightarrow> 's \<Rightarrow> bool) \<Rightarrow> bool" where
  "ensures m Q \<longleftrightarrow> (\<forall>s x s'. m s = (Inr x, s') \<longrightarrow> Q x s')"

lemma ensuresD: "ensures m Q \<Longrightarrow> m s = (Inr x, s') \<Longrightarrow> Q x s'"
  by (simp add: ensures_def)

lemma ensures_bindE [ensures_intros]: "(\<And>x. ensures (f x) Q) \<Longrightarrow> ensures (bindE m f) Q"
  by (auto simp: ensures_def bindE_def split: prod.splits sum.splits)

lemma ensures_failE [ensures_intros]: "ensures (failE err) Q"
  by (simp add: ensures_def failE_def)

lemma ensures_if [ensures_intros]: "ensures m Q \<Longrightarrow> ensures m' Q \<Longrightarrow> ensures (if b then m else m') Q"
  by simp

lemma ensures_case_option [ensures_intros]:
  "ensures m Q \<Longrightarrow> (\<And>x. ensures (f x) Q) \<Longrightarrow> ensures (case v of None \<Rightarrow> m | Some x \<Rightarrow> f x) Q"
  by (cases v) auto

lemma ensures_case_sum [ensures_intros]:
  "(\<And>x. ensures (f x) Q) \<Longrightarrow> (\<And>x. ensures (g x) Q) \<Longrightarrow> ensures (case v of Inl x \<Rightarrow> f x | Inr x \<Rightarrow> g x) Q"
  by (cases v) auto

lemma ensures_case_prod [ensures_intros]:
  "(\<And>x y. ensures (f x y) Q) \<Longrightarrow> ensures (case v of (x, y) \<Rightarrow> f x y) Q"
  by (cases v) auto

lemma ensures_modifyE: "(\<And>s. Q () (f s)) \<Longrightarrow> ensures (modifyE f) Q"
  by (simp add: ensures_def modifyE_def)

end
