(* ===== verification/Auth.thy ===== *)
theory Auth
  imports Effects
begin

text \<open>
  The exchange of an API key for a JWT, \<^verbatim>\<open>reactor-core/src/auth.rs\<close>: the scope a token request
  asks for, the JSON body it becomes, and the POST that sends it.
\<close>

section \<open>Definitions\<close>

definition TOKENS_PATH :: string where "TOKENS_PATH = ''/tokens''"
definition API_KEY_HEADER :: string where "API_KEY_HEADER = ''Reactor-API-Key''"

record TokenRequest =
  models :: "string list option"
  max_sessions :: "u32 option"
  max_session_duration_seconds :: "u32 option"
  expires_after :: "u64 option"
  sessions :: "string list option"

definition TokenRequest_default :: TokenRequest where
  "TokenRequest_default = \<lparr> models = None, max_sessions = None, max_session_duration_seconds = None,
     expires_after = None, sessions = None \<rparr>"

definition scoped :: "string list \<Rightarrow> TokenRequest" where
  "scoped ms = TokenRequest_default\<lparr>models := Some ms\<rparr>"

definition bound :: "string list \<Rightarrow> TokenRequest" where
  "bound ss = TokenRequest_default\<lparr>sessions := Some ss\<rparr>"

definition jstrings :: "string list \<Rightarrow> json" where
  "jstrings ss = JArray (map JString ss)"

definition ju32 :: "u32 \<Rightarrow> json" where
  "ju32 n = JNumber (PosInt (ucast n))"

text \<open>The fields are listed in the key order the map keeps them in.\<close>

definition session_detail :: "TokenRequest \<Rightarrow> json" where
  "session_detail r =
     (let model_scope = (case models r of
              Some ms \<Rightarrow> JObject [(''match'', jstrings ms)]
            | None \<Rightarrow> JObject [(''all'', JBool True)]);
          resources = [(''models'', model_scope)] @
            (case sessions r of Some ss \<Rightarrow> [(''sessions'', JObject [(''bind'', jstrings ss)])] | None \<Rightarrow> []);
          constraints =
            (case max_session_duration_seconds r of
               Some n \<Rightarrow> [(''max_session_duration_seconds'', ju32 n)] | None \<Rightarrow> []) @
            (case max_sessions r of Some n \<Rightarrow> [(''max_sessions'', ju32 n)] | None \<Rightarrow> [])
      in JObject ((if constraints \<noteq> [] then [(''constraints'', JObject constraints)] else [])
                  @ [(''resources'', JObject resources), (''type'', JString ''session'')]))"

definition token_body :: "TokenRequest \<Rightarrow> json option" where
  "token_body r =
     (let body =
        (if models r \<noteq> None \<or> sessions r \<noteq> None
         then [(''authorization_details'', JArray [session_detail r])] else []) @
        (case expires_after r of Some n \<Rightarrow> [(''expires_after'', JNumber (PosInt n))] | None \<Rightarrow> [])
      in if body \<noteq> [] then Some (JObject body) else None)"

text \<open>A body of \<^const>\<open>None\<close> is sent as the JSON literal \<^verbatim>\<open>null\<close>.\<close>

definition fetch_jwt :: "'s host \<Rightarrow> codec \<Rightarrow> string \<Rightarrow> string \<Rightarrow> TokenRequest \<Rightarrow> ('s, string) io" where
  "fetch_jwt h c api_url api_key request =
     (let url = trim_end_matches CHR ''/'' api_url @ TOKENS_PATH;
          body = enc_json c (case token_body request of Some b \<Rightarrow> b | None \<Rightarrow> JNull)
      in bindE (http_request h \<lparr> req_method = Post, req_url = url,
                  req_headers = [(API_KEY_HEADER, api_key), (''Content-Type'', ''application/json'')],
                  req_body = Some body \<rparr>) (\<lambda>response.
         bindE (liftE (check_status response ''fetch token'')) (\<lambda>_.
         bindE (liftE (response_json (dec_token c) response)) (\<lambda>jwt.
         if jwt = [] then failE (Decode (url @ '' returned no token'')) else retE jwt))))"

section \<open>Properties\<close>

text \<open>
  A token request is sent unscoped exactly when it names neither models nor sessions. When it
  names either, the body carries one session detail whose model scope is those models, or every model
  when it only binds sessions, and a budget only when one was asked for.
\<close>

theorem token_scope:
  "(case token_body r of
      None \<Rightarrow> models r = None \<and> sessions r = None \<and> expires_after r = None
    | Some (JObject b) \<Rightarrow>
        (map_of b ''authorization_details'' =
           (if models r = None \<and> sessions r = None then None else Some (JArray [session_detail r])))
    | Some _ \<Rightarrow> False)
   \<and> (case session_detail r of
        JObject d \<Rightarrow>
          map_of d ''type'' = Some (JString ''session'')
          \<and> (map_of d ''constraints'' = None \<longleftrightarrow> max_sessions r = None \<and> max_session_duration_seconds r = None)
          \<and> (\<exists>res. map_of d ''resources'' = Some (JObject res)
              \<and> map_of res ''models'' = Some (JObject (case models r of
                    Some ms \<Rightarrow> [(''match'', jstrings ms)] | None \<Rightarrow> [(''all'', JBool True)]))
              \<and> map_of res ''sessions'' = map_option (\<lambda>ss. JObject [(''bind'', jstrings ss)]) (sessions r))
      | _ \<Rightarrow> False)"
  by (cases "models r"; cases "sessions r"; cases "expires_after r"; cases "max_sessions r";
      cases "max_session_duration_seconds r")
     (simp_all add: token_body_def session_detail_def Let_def)

lemma fetch_jwt_nonempty: "fst (fetch_jwt h c url key r s) = Inr jwt \<Longrightarrow> jwt \<noteq> []"
  by (auto simp: fetch_jwt_def Let_def bindE_def liftE_def failE_def retE_def
      split: prod.splits sum.splits if_splits)

end
