(* ===== verification/Coordinator.thy ===== *)
theory Coordinator
  imports Effects
begin

text \<open>
  The coordinator's session API (\<^verbatim>\<open>coordinator.rs\<close>) and WebRTC signaling over HTTP
  (\<^verbatim>\<open>signaling.rs\<close>). The one piece of state, the local runtime's cached session, is a field of the
  state record the effects run on; the record stays open for the state of the components above.
\<close>

section \<open>The coordinator client\<close>

record CoordState =
  local_session :: "SessionResponse option"

record CoordinatorConfig =
  cfg_api_url :: string
  cfg_model :: ModelConfig
  cfg_client_info :: ClientInfo
  cfg_extra_args :: "json option"
  cfg_generation :: GenerationMode
  cfg_poll :: PollConfig
  cfg_local :: bool

definition CoordinatorClient_new :: "CoordinatorConfig \<Rightarrow> CoordinatorConfig" where
  "CoordinatorClient_new config = config\<lparr>cfg_api_url := trim_end_matches CHR ''/'' (cfg_api_url config)\<rparr>"

definition transport_base_url :: "CoordinatorConfig \<Rightarrow> string \<Rightarrow> string" where
  "transport_base_url cfg sid = cfg_api_url cfg @ ''/sessions/'' @ sid @ ''/transport/webrtc''"

definition version_headers :: "(string \<times> string) list" where
  "version_headers = [(API_VERSION_HEADER, REACTOR_API_VERSION), (API_ACCEPT_VERSION_HEADER, REACTOR_API_VERSION)]"

definition json_headers :: "bool \<Rightarrow> (string \<times> string) list" where
  "json_headers json_body = (if json_body then [(''Content-Type'', ''application/json'')] else [])"

definition auth_headers :: "'s host \<Rightarrow> AuthRequest \<Rightarrow> ('s, (string \<times> string) list) io" where
  "auth_headers h request = bindE (auth_jwt h request) (\<lambda>jwt.
     retE (case jwt of Some j \<Rightarrow> [(''Authorization'', ''Bearer '' @ j)] | None \<Rightarrow> []))"

definition coord_headers :: "'s host \<Rightarrow> bool \<Rightarrow> string option \<Rightarrow> ('s, (string \<times> string) list) io" where
  "coord_headers h json_body sid =
     bindE (auth_headers h \<lparr> ar_session_id = sid \<rparr>) (\<lambda>auth. retE (version_headers @ json_headers json_body @ auth))"

definition local_headers :: "bool \<Rightarrow> (string \<times> string) list" where
  "local_headers json_body = version_headers @ json_headers json_body"

text \<open>A request's headers are read before it is sent.\<close>

definition send_request ::
    "'s host \<Rightarrow> Method \<Rightarrow> string \<Rightarrow> ('s, (string \<times> string) list) io \<Rightarrow> string option \<Rightarrow> ('s, HttpResponse) io" where
  "send_request h method url headers body = bindE headers (\<lambda>hs.
     http_request h \<lparr> req_method = method, req_url = url, req_headers = hs, req_body = body \<rparr>)"

definition extra_configs_of :: "CoordinatorConfig \<Rightarrow> json option" where
  "extra_configs_of cfg = (case cfg_generation cfg of
     Streamed \<Rightarrow> None
   | mode \<Rightarrow> Some (JObject [(GENERATION_KEY, JString (GenerationMode_as_str mode))]))"

definition terminal_session :: "SessionResponse \<Rightarrow> CoreError" where
  "terminal_session session =
     (let detail = show_SessionState (session_state session);
          nonempty = (\<lambda>x. case x of Some (c # cs) \<Rightarrow> Some (c # cs) | _ \<Rightarrow> None);
          detail = (case ended session of
              None \<Rightarrow> detail
            | Some e \<Rightarrow> detail
                @ (case nonempty (se_reason e) of Some r \<Rightarrow> '' ('' @ r @ '')'' | None \<Rightarrow> [])
                @ (case nonempty (se_message e) of Some m \<Rightarrow> '': '' @ m | None \<Rightarrow> []))
      in TerminalSession detail)"

definition local_body :: "CoordinatorConfig \<Rightarrow> json" where
  "local_body cfg = JObject
     ((case cfg_extra_args cfg of Some a \<Rightarrow> [(''extra_args'', a)] | None \<Rightarrow> [])
      @ (if cfg_generation cfg \<noteq> Streamed
         then [(GENERATION_KEY, JString (GenerationMode_as_str (cfg_generation cfg)))] else []))"

definition local_start_session ::
    "'a CoordState_scheme host \<Rightarrow> codec \<Rightarrow> CoordinatorConfig \<Rightarrow> ('a CoordState_scheme, SessionResponse) io" where
  "local_start_session h c cfg =
     bindE (send_request h Post (cfg_api_url cfg @ ''/start_session'') (retE (local_headers True))
              (Some (enc_json c (local_body cfg)))) (\<lambda>response.
     bindE (liftE (check_status response ''start session'')) (\<lambda>_.
     bindE (liftE (response_json (dec_session c) response)) (\<lambda>session.
     bindE (modifyE (\<lambda>s. s\<lparr>local_session := Some session\<rparr>)) (\<lambda>_. retE session))))"

definition create_session ::
    "'a CoordState_scheme host \<Rightarrow> codec \<Rightarrow> CoordinatorConfig \<Rightarrow> ('a CoordState_scheme, SessionResponse) io" where
  "create_session h c cfg =
     (if cfg_local cfg then local_start_session h c cfg
      else
        let body = \<lparr> csr_model = cfg_model cfg, csr_client_info = cfg_client_info cfg,
              supported_transports = [TransportDeclaration_webrtc], csr_extra_args = cfg_extra_args cfg,
              extra_configs = extra_configs_of cfg \<rparr>
        in bindE (send_request h Post (cfg_api_url cfg @ ''/sessions'') (coord_headers h True None)
                    (Some (enc_create_session c body))) (\<lambda>response.
           bindE (liftE (check_status response ''create session'')) (\<lambda>_.
           liftE (response_json (dec_session c) response))))"

definition local_get_session ::
    "'a CoordState_scheme host \<Rightarrow> codec \<Rightarrow> CoordinatorConfig \<Rightarrow> string \<Rightarrow> ('a CoordState_scheme, SessionResponse) io" where
  "local_get_session h c cfg sid =
     bindE (send_request h Get (cfg_api_url cfg @ ''/session'') (retE (local_headers False)) None) (\<lambda>response.
     bindE (liftE (check_status response ''get local session'')) (\<lambda>_.
     bindE (liftE (response_json (dec_session c) response)) (\<lambda>session.
     if session_id session \<noteq> sid
     then failE (InvalidState (''local runtime is serving session '' @ session_id session @ '', not the requested '' @ sid))
     else if is_terminal (session_state session) then failE (terminal_session session)
     else bindE (modifyE (\<lambda>s. s\<lparr>local_session := Some session\<rparr>)) (\<lambda>_. retE session))))"

definition get_session :: "'s host \<Rightarrow> codec \<Rightarrow> CoordinatorConfig \<Rightarrow> string \<Rightarrow> ('s, SessionResponse) io" where
  "get_session h c cfg sid =
     bindE (send_request h Get (cfg_api_url cfg @ ''/sessions/'' @ sid) (coord_headers h False (Some sid)) None) (\<lambda>response.
     bindE (liftE (check_status response ''get session'')) (\<lambda>_.
     liftE (response_json (dec_session c) response)))"

text \<open>The polling loop, with the attempts that are left.\<close>

primrec poll_session_loop ::
    "'s host \<Rightarrow> codec \<Rightarrow> CoordinatorConfig \<Rightarrow> string \<Rightarrow> nat \<Rightarrow> Backoff \<Rightarrow> ('s, SessionResponse) io" where
  "poll_session_loop h c cfg sid 0 b =
     failE (Timeout (''session '' @ sid @ '' not ready after '' @ show_nat (unat (max_attempts (cfg_poll cfg))) @ '' polls''))"
| "poll_session_loop h c cfg sid (Suc n) b =
     bindE (get_session h c cfg sid) (\<lambda>session.
     if is_terminal (session_state session) then failE (terminal_session session)
     else if is_ready session then retE session
     else (case next_delay b of
         None \<Rightarrow> panicE
       | Some (d, b') \<Rightarrow> bindE (modifyE (sleep h d)) (\<lambda>_. poll_session_loop h c cfg sid n b')))"

definition poll_session_ready ::
    "'a CoordState_scheme host \<Rightarrow> codec \<Rightarrow> CoordinatorConfig \<Rightarrow> string \<Rightarrow> ('a CoordState_scheme, SessionResponse) io" where
  "poll_session_ready h c cfg sid =
     (if cfg_local cfg then
        bindE (getE local_session) (\<lambda>cached.
        case cached of Some session \<Rightarrow> retE session | None \<Rightarrow> local_get_session h c cfg sid)
      else poll_session_loop h c cfg sid (unat (max_attempts (cfg_poll cfg))) (backoff (cfg_poll cfg)))"

definition terminate_session ::
    "'a CoordState_scheme host \<Rightarrow> CoordinatorConfig \<Rightarrow> string \<Rightarrow> ('a CoordState_scheme, unit) io" where
  "terminate_session h cfg sid =
     (if cfg_local cfg then
        bindE (attemptE (send_request h Post (cfg_api_url cfg @ ''/stop_session'') (retE (local_headers False)) None)) (\<lambda>_.
        modifyE (\<lambda>s. s\<lparr>local_session := None\<rparr>))
      else
        bindE (send_request h Delete (cfg_api_url cfg @ ''/sessions/'' @ sid) (coord_headers h False (Some sid)) None) (\<lambda>response.
        if resp_status response = 404 then retE ()
        else liftE (check_status response ''terminate session'')))"

definition create_upload ::
    "'s host \<Rightarrow> codec \<Rightarrow> CoordinatorConfig \<Rightarrow> string \<Rightarrow> CreateUploadRequest \<Rightarrow> ('s, CreateUploadResponse) io" where
  "create_upload h c cfg sid request =
     bindE (send_request h Post (cfg_api_url cfg @ ''/sessions/'' @ sid @ ''/uploads'') (coord_headers h True (Some sid))
              (Some (enc_create_upload c request))) (\<lambda>response.
     bindE (liftE (check_status response ''create upload'')) (\<lambda>_.
     liftE (response_json (dec_create_upload c) response)))"

section \<open>Signaling\<close>

record WebRtcSignaling =
  sg_session_id :: string
  sg_base_url :: string
  sg_client_info :: ClientInfo
  sg_poll :: PollConfig

definition WebRtcSignaling_new :: "string \<Rightarrow> string \<Rightarrow> ClientInfo \<Rightarrow> PollConfig \<Rightarrow> WebRtcSignaling" where
  "WebRtcSignaling_new sid base_url info poll =
     \<lparr> sg_session_id = sid, sg_base_url = trim_end_matches CHR ''/'' base_url, sg_client_info = info, sg_poll = poll \<rparr>"

definition sg_headers :: "'s host \<Rightarrow> WebRtcSignaling \<Rightarrow> bool \<Rightarrow> ('s, (string \<times> string) list) io" where
  "sg_headers h g json_body =
     bindE (auth_headers h (AuthRequest_for_session (sg_session_id g))) (\<lambda>auth.
     retE (version_headers @ [(WEBRTC_VERSION_HEADER, REACTOR_WEBRTC_VERSION)] @ json_headers json_body @ auth))"

definition ice_servers :: "'s host \<Rightarrow> codec \<Rightarrow> WebRtcSignaling \<Rightarrow> ('s, IceServer list) io" where
  "ice_servers h c g =
     bindE (send_request h Get (sg_base_url g @ ''/ice_servers'') (sg_headers h g False) None) (\<lambda>response.
     bindE (liftE (check_status response ''ice servers'')) (\<lambda>_.
     liftE (response_json (dec_ice_servers c) response)))"

definition register_connection :: "'s host \<Rightarrow> codec \<Rightarrow> WebRtcSignaling \<Rightarrow> ('s, u32) io" where
  "register_connection h c g =
     bindE (send_request h Post (sg_base_url g @ ''/connections'') (sg_headers h g True) (Some ''{}'')) (\<lambda>response.
     bindE (liftE (check_status response ''register connection'')) (\<lambda>_.
     liftE (response_json (dec_register c) response)))"

definition connection_url :: "WebRtcSignaling \<Rightarrow> u32 \<Rightarrow> string \<Rightarrow> string" where
  "connection_url g cid what = sg_base_url g @ ''/connections/'' @ show_nat (unat cid) @ what"

definition send_sdp_offer ::
    "'s host \<Rightarrow> codec \<Rightarrow> WebRtcSignaling \<Rightarrow> u32 \<Rightarrow> string \<Rightarrow> TrackMappingEntry list \<Rightarrow> bool \<Rightarrow> ('s, unit) io" where
  "send_sdp_offer h c g cid offer mapping reconnect =
     (let body = \<lparr> sdp_offer = offer, sor_client_info = Some (sg_client_info g), sor_track_mapping = mapping \<rparr>
      in bindE (send_request h (if reconnect then Put else Post) (connection_url g cid ''/sdp_params'')
                  (sg_headers h g True) (Some (enc_sdp_offer c body))) (\<lambda>response.
         liftE (check_status response ''send sdp offer'')))"

primrec poll_sdp_loop ::
    "'s host \<Rightarrow> codec \<Rightarrow> WebRtcSignaling \<Rightarrow> u32 \<Rightarrow> nat \<Rightarrow> Backoff \<Rightarrow> ('s, SdpAnswerResponse) io" where
  "poll_sdp_loop h c g cid 0 b =
     failE (Timeout (''no SDP answer after '' @ show_nat (unat (max_attempts (sg_poll g))) @ '' polls''))"
| "poll_sdp_loop h c g cid (Suc n) b =
     bindE (send_request h Get (connection_url g cid ''/sdp_params'') (sg_headers h g False) None) (\<lambda>response.
     if resp_status response = 202
     then (case next_delay b of
         None \<Rightarrow> panicE
       | Some (d, b') \<Rightarrow> bindE (modifyE (sleep h d)) (\<lambda>_. poll_sdp_loop h c g cid n b'))
     else bindE (liftE (check_status response ''poll sdp answer'')) (\<lambda>_.
          liftE (response_json (dec_sdp_answer c) response)))"

definition poll_sdp_answer :: "'s host \<Rightarrow> codec \<Rightarrow> WebRtcSignaling \<Rightarrow> u32 \<Rightarrow> ('s, SdpAnswerResponse) io" where
  "poll_sdp_answer h c g cid = poll_sdp_loop h c g cid (unat (max_attempts (sg_poll g))) (backoff (sg_poll g))"

definition send_ice_candidates ::
    "'s host \<Rightarrow> codec \<Rightarrow> WebRtcSignaling \<Rightarrow> u32 \<Rightarrow> IceCandidate list \<Rightarrow> bool \<Rightarrow> ('s, unit) io" where
  "send_ice_candidates h c g cid cands final =
     (let body = \<lparr> candidates = cands, is_final = final, icr_client_info = Some (sg_client_info g) \<rparr>
      in bindE (send_request h Post (connection_url g cid ''/ice_candidates'') (sg_headers h g True)
                  (Some (enc_ice_candidates c body))) (\<lambda>response.
         liftE (check_status response ''send ice candidates'')))"

section \<open>Counting requests\<close>

text \<open>
  An operation sends at most \<open>n\<close> requests when any count that only the host's HTTP client advances,
  one per request, advances by at most \<open>n\<close>.
\<close>

definition counts :: "('s \<Rightarrow> nat) \<Rightarrow> 's host \<Rightarrow> bool" where
  "counts cnt h \<longleftrightarrow>
     (\<forall>r s. cnt (snd (http_request h r s)) = Suc (cnt s))
     \<and> (\<forall>a s. cnt (snd (auth_jwt h a s)) = cnt s) \<and> (\<forall>d s. cnt (sleep h d s) = cnt s)"

definition sends_at_most :: "('s \<Rightarrow> nat) \<Rightarrow> nat \<Rightarrow> ('s, 'a) io \<Rightarrow> bool" where
  "sends_at_most cnt n m \<longleftrightarrow> (\<forall>s. cnt (snd (m s)) \<le> cnt s + n)"

lemma sends_bind:
  assumes "sends_at_most cnt a m" and "\<And>x. sends_at_most cnt b (f x)" and "a + b \<le> n"
  shows "sends_at_most cnt n (bindE m f)"
  unfolding sends_at_most_def
proof
  fix s
  show "cnt (snd (bindE m f s)) \<le> cnt s + n"
  proof (cases "fst (m s)")
    case (Inl e)
    then show ?thesis using assms(1,3) by (auto simp: bindE_def sends_at_most_def split: prod.splits)
        (metis add.assoc le_iff_add order_trans snd_conv trans_le_add1)
  next
    case (Inr x)
    have "cnt (snd (f x (snd (m s)))) \<le> cnt (snd (m s)) + b" "cnt (snd (m s)) \<le> cnt s + a"
      using assms(1,2) by (auto simp: sends_at_most_def)
    then have "cnt (snd (f x (snd (m s)))) \<le> cnt s + n" using assms(3) by linarith
    then show ?thesis using Inr by (auto simp: bindE_def split: prod.splits)
  qed
qed

lemma sends_basic [simp]:
  "sends_at_most cnt n (retE x)" "sends_at_most cnt n (failE e)" "sends_at_most cnt n panicE"
  "sends_at_most cnt n (liftE r)"
  by (auto simp: sends_at_most_def retE_def failE_def panicE_def liftE_def split: sum.splits)

lemma sends_host:
  assumes "counts cnt h"
  shows "sends_at_most cnt 1 (http_request h r)" and "sends_at_most cnt 0 (auth_jwt h a)"
    and "sends_at_most cnt 0 (modifyE (sleep h d))"
  using assms by (auto simp: counts_def sends_at_most_def modifyE_def)

lemma sends_request:
  assumes "counts cnt h" and "sends_at_most cnt 0 hs"
  shows "sends_at_most cnt 1 (send_request h m url hs body)"
  unfolding send_request_def by (rule sends_bind [OF assms(2) sends_host(1) [OF assms(1)]]) simp

lemma sends_headers:
  assumes "counts cnt h"
  shows "sends_at_most cnt 0 (auth_headers h a)" and "sends_at_most cnt 0 (coord_headers h j sid)"
    and "sends_at_most cnt 0 (sg_headers h g j)"
proof -
  show auth: "sends_at_most cnt 0 (auth_headers h a)" for a
    unfolding auth_headers_def by (rule sends_bind [OF sends_host(2) [OF assms]]) auto
  show "sends_at_most cnt 0 (coord_headers h j sid)"
    unfolding coord_headers_def by (rule sends_bind [OF auth]) auto
  show "sends_at_most cnt 0 (sg_headers h g j)"
    unfolding sg_headers_def by (rule sends_bind [OF auth]) auto
qed

lemma get_session_one: "counts cnt h \<Longrightarrow> sends_at_most cnt 1 (get_session h c cfg sid)"
  unfolding get_session_def
  by (rule sends_bind [of _ 1 _ 0] sends_bind [of _ 0 _ 0] sends_request sends_headers sends_basic | assumption | simp)+

lemma poll_session_bounded: "counts cnt h \<Longrightarrow> sends_at_most cnt n (poll_session_loop h c cfg sid n b)"
proof (induction n arbitrary: b)
  case (Suc n)
  have "sends_at_most cnt n (case next_delay b of None \<Rightarrow> panicE
       | Some (d, b') \<Rightarrow> bindE (modifyE (sleep h d)) (\<lambda>_. poll_session_loop h c cfg sid n b'))"
    using Suc by (auto split: option.splits intro!: sends_bind [OF sends_host(3)])
  then show ?case unfolding poll_session_loop.simps
    by (intro sends_bind [OF get_session_one [OF Suc.prems]]) auto
qed simp

lemma poll_sdp_bounded: "counts cnt h \<Longrightarrow> sends_at_most cnt n (poll_sdp_loop h c g cid n b)"
proof (induction n arbitrary: b)
  case (Suc n)
  have "sends_at_most cnt n (case next_delay b of None \<Rightarrow> panicE
       | Some (d, b') \<Rightarrow> bindE (modifyE (sleep h d)) (\<lambda>_. poll_sdp_loop h c g cid n b'))"
    using Suc by (auto split: option.splits intro!: sends_bind [OF sends_host(3)])
  moreover have "sends_at_most cnt n (bindE (liftE r) (\<lambda>_. liftE r'))" for r r'
    by (rule sends_bind [of _ 0 _ 0]) auto
  ultimately show ?case unfolding poll_sdp_loop.simps
    by (intro sends_bind [OF sends_request [OF Suc.prems sends_headers(3) [OF Suc.prems]]]) auto
qed simp

section \<open>Properties\<close>

definition never_panics :: "'s host \<Rightarrow> bool" where
  "never_panics h \<longleftrightarrow> (\<forall>r s. fst (http_request h r s) \<noteq> Inl Panic) \<and> (\<forall>a s. fst (auth_jwt h a s) \<noteq> Inl Panic)"

lemma get_session_no_panic: "never_panics h \<Longrightarrow> fst (get_session h c cfg sid s) \<noteq> Inl Panic"
  by (auto simp: get_session_def send_request_def coord_headers_def auth_headers_def bindE_def liftE_def retE_def
      failE_def never_panics_def split: prod.splits sum.splits option.splits) (metis fst_conv)+

lemma delays_Suc_Some:
  "delays (Suc n) b = Some ds \<Longrightarrow> \<exists>d b' ds'. next_delay b = Some (d, b') \<and> delays n b' = Some ds'"
  by (auto split: option.splits prod.splits)

lemma poll_session_outcome:
  assumes "never_panics h" and "delays n b = Some ds"
  shows "case fst (poll_session_loop h c cfg sid n b s) of
      Inr session \<Rightarrow> is_ready session \<and> \<not> is_terminal (session_state session)
    | Inl f \<Rightarrow> f \<noteq> Panic"
  using assms(2)
proof (induction n arbitrary: b ds s)
  case 0
  then show ?case by (simp add: failE_def)
next
  case (Suc n)
  obtain d b' ds' where next_d: "next_delay b = Some (d, b')" and ds': "delays n b' = Some ds'"
    using delays_Suc_Some [OF Suc.prems] by blast
  obtain r s1 where g: "get_session h c cfg sid s = (r, s1)" by fastforce
  have "r \<noteq> Inl Panic" using get_session_no_panic [OF assms(1), of c cfg sid s] g by simp
  then show ?case using g next_d Suc.IH [OF ds', of "sleep h d s1"]
    by (cases r) (auto simp: bindE_def failE_def retE_def modifyE_def)
qed


definition counting_host :: "nat CoordState_scheme host" where
  "counting_host = \<lparr> http_request = (\<lambda>_ s. (Inr \<lparr> resp_status = 500, resp_headers = [], resp_body = [] \<rparr>,
        s\<lparr>CoordState.more := Suc (CoordState.more s)\<rparr>)),
     auth_jwt = (\<lambda>_. retE None), sleep = (\<lambda>_ s. s), now_ms = (\<lambda>_. Fin 0) \<rparr>"

definition sample_config :: "u32 \<Rightarrow> bool \<Rightarrow> CoordinatorConfig" where
  "sample_config n is_local = \<lparr> cfg_api_url = ''https://a'', cfg_model = \<lparr> mc_name = ''m'', mc_version = None \<rparr>,
     cfg_client_info = \<lparr> sdk_version = ''1'', sdk_type = ''t'' \<rparr>, cfg_extra_args = None, cfg_generation = Streamed,
     cfg_poll = PollConfig_session\<lparr>max_attempts := n\<rparr>, cfg_local = is_local \<rparr>"

definition sample_codec :: codec where
  "sample_codec = \<lparr> enc_json = (\<lambda>_. []), enc_create_session = (\<lambda>_. []), dec_session = (\<lambda>_. Inl []),
     enc_create_upload = (\<lambda>_. []), dec_create_upload = (\<lambda>_. Inl []), dec_ice_servers = (\<lambda>_. Inl []),
     dec_register = (\<lambda>_. Inl []), enc_sdp_offer = (\<lambda>_. []), dec_sdp_answer = (\<lambda>_. Inl []),
     enc_ice_candidates = (\<lambda>_. []), dec_token = (\<lambda>_. Inl []) \<rparr>"


text \<open>
  Against a local runtime the cached session answers for every id. Once a session is cached,
  waiting for any session, whatever its id, returns the cached one without asking the runtime, so the
  id check of joining a running session is only made the first time.
\<close>

theorem local_cache_ignores_id:
  assumes "cfg_local cfg" and "local_session s = Some cached"
  shows "poll_session_ready h c cfg sid s = (Inr cached, s)"
  using assms by (simp add: poll_session_ready_def bindE_def getE_def retE_def)

definition sample_session :: "string \<Rightarrow> SessionResponse" where
  "sample_session sid = \<lparr> session_id = sid, session_state = Active, model = None, cluster = None, server_info = None,
     selected_transport = None, capabilities = None, ended = None, extra = [] \<rparr>"

theorem local_cache_ignores_id_witness:
  "fst (poll_session_ready counting_host sample_codec (sample_config 1 True) ''other''
      \<lparr> local_session = Some (sample_session ''mine''), \<dots> = 0 \<rparr>) = Inr (sample_session ''mine'')"
  by (subst local_cache_ignores_id) (simp_all add: sample_config_def)

text \<open>
  Ending a session that is already gone is not an error. For a coordinator that answers, ending a
  session succeeds exactly when the answer is a success or says the session does not exist; against a
  local runtime it always succeeds and forgets the cached session.
\<close>

theorem terminate_session_outcome:
  assumes "never_panics h" and "terminate_session h cfg sid s = (r, s')"
  shows "(if cfg_local cfg then r = Inr () \<and> local_session s' = None
    else case fst (auth_jwt h \<lparr> ar_session_id = Some sid \<rparr> s) of
        Inl f \<Rightarrow> r = Inl f
      | Inr jwt \<Rightarrow>
          (case fst (http_request h \<lparr> req_method = Delete, req_url = cfg_api_url cfg @ ''/sessions/'' @ sid,
                req_headers = version_headers @ (case jwt of Some j \<Rightarrow> [(''Authorization'', ''Bearer '' @ j)] | None \<Rightarrow> []),
                req_body = None \<rparr> (snd (auth_jwt h \<lparr> ar_session_id = Some sid \<rparr> s))) of
             Inl f \<Rightarrow> r = Inl f
           | Inr response \<Rightarrow> (r = Inr ()) = (is_success response \<or> resp_status response = 404)))"
  using assms
  by (auto simp: terminate_session_def send_request_def coord_headers_def auth_headers_def local_headers_def
      json_headers_def bindE_def retE_def attemptE_def modifyE_def liftE_def failE_def check_status_ok_iff
      never_panics_def is_success_def check_status_def Let_def
      split: prod.splits sum.splits failure.splits option.splits if_splits) (metis fst_conv)+

theorem terminate_session_outcome_witness:
  "fst (terminate_session counting_host (sample_config 1 True) ''s'' \<lparr> local_session = None, \<dots> = 0 \<rparr>) = Inr ()"
proof -
  have np: "never_panics counting_host" by (simp add: never_panics_def counting_host_def retE_def)
  show ?thesis
    using terminate_session_outcome [OF np prod.collapse [symmetric], of "sample_config 1 True" "''s''"
        "\<lparr> local_session = None, \<dots> = 0 \<rparr>"]
    by (simp add: sample_config_def)
qed

end
