(* ===== verification/Wire.thy ===== *)
theory Wire
  imports Errors
begin

text \<open>
  The messages of \<^verbatim>\<open>reactor_wire.v1\<close> and the commands built from them (\<^verbatim>\<open>messaging.rs\<close>). The
  messages are generated at build time from a schema outside the repository: each is represented by
  the variants and fields the sources read and write, an enum field by its wire number. What the
  generated code computes, the numbers of the enums, the encoded bytes and their lengths, is the
  record \<open>wire\<close>, an argument of every definition that uses it.
\<close>

section \<open>Messages\<close>

record wire_error =
  we_code :: string
  we_message :: string

record ModelMessage =
  mm_type :: string
  mm_data :: "prost_struct option"

record UploadReference =
  ur_upload_id :: string
  ur_name :: string
  ur_mime_type :: string
  ur_size :: int

record Command =
  cmd_type :: string
  cmd_data :: "prost_struct option"
  cmd_uploads :: "(string, UploadReference) hmap"

record Frame =
  fr_encoding :: int
  fr_dtype :: string
  fr_shape :: "u32 list"
  fr_data :: bytes
  fr_metadata :: "bytes option"
  fr_capture_time_us :: "int option"

record TrackFrames =
  tf_track :: string
  tf_kind :: int
  tf_frames :: "Frame list"
  tf_rate :: f64

record RequestStep =
  rs_state :: "prost_struct option"
  rs_commands :: "Command list"
  rs_media_input :: "TrackFrames list"

record StepFileRef =
  sfr_name :: string
  sfr_content_type :: string
  sfr_size :: u64

record StepResult =
  res_step :: u64
  res_tracks :: "TrackFrames list"
  res_elapsed_seconds :: f64
  res_files :: "StepFileRef list"
  res_error :: "string option"
  res_failure_code :: int
  res_code :: "string option"
  res_entry :: "string option"

datatype StepFailureCode =
    SFC_Unspecified | SFC_Failed | SFC_Refused | SFC_NotReady | SFC_ResultTooLarge
  | SFC_CommandFailed | SFC_SessionEnded

datatype DataClientPayload =
    DC_Command Command
  | DC_RequestStep RequestStep
  | DC_Error wire_error

datatype DataServerPayload =
    DS_Message ModelMessage
  | DS_Error wire_error
  | DS_StepResult StepResult

record ClipReady =
  cr_session_id :: string
  cr_kind :: string
  cr_start_marker :: f64
  cr_end_marker :: f64
  cr_now_marker :: f64
  cr_predicted_ready_at_ms :: int
  cr_playlist_url :: string

text \<open>A verdict is only passed on, each field as the JSON value it serializes to.\<close>

record Moderation =
  mod_action :: json
  mod_input_kind :: json
  mod_command :: json
  mod_categories :: json
  mod_message :: json

datatype ControlServerPayload =
    CS_ClipReady ClipReady
  | CS_ClipFailed string
  | CS_Moderation Moderation
  | CS_ModelSchema "prost_struct option"
  | CS_PublishTrack string
  | CS_SessionEnded string
  | CS_Error wire_error

record FrameStage =
  fs_name :: string
  fs_total_ms :: f64
  fs_frames :: u64
  fs_part_of :: string

record MessageStage =
  ms_name :: string
  ms_total_ms :: f64
  ms_messages :: u64
  ms_part_of :: string

datatype VideoCodec = Vp8 | Vp9 | Av1 | H264 | H265
datatype AudioCodec = Opus
datatype TrackCodec = TC_Video int | TC_Audio int

type_synonym metrics = "(string, f64) hmap"

record ClientEnvironment =
  env_sdk_type :: string
  env_sdk_version :: string
  env_os :: string
  env_os_version :: string
  env_arch :: string
  env_device_model :: string

record ClientTrackStat =
  cts_timestamp :: int
  cts_track_name :: string
  cts_kind :: int
  cts_direction :: int
  cts_codec :: "TrackCodec option"
  cts_paused :: bool
  cts_metrics :: metrics
  cts_frame_stages :: "FrameStage list"
  cts_codec_implementation :: string
  cts_hardware_codec :: "bool option"

record ClientConnectionStat =
  ccs_timestamp :: int
  ccs_metrics :: metrics
  ccs_environment :: "ClientEnvironment option"
  ccs_message_stages :: "MessageStage list"

datatype ControlClientPayload =
    CC_Ping
  | CC_ClientStats "ClientTrackStat list" "ClientConnectionStat option"
  | CC_RequestSchema
  | CC_PublishTrack string
  | CC_UnpublishTrack string
  | CC_PauseTrack string
  | CC_ResumeTrack string
  | CC_RequestClip f64
  | CC_RequestRecording
  | CC_FileUploaded UploadReference

datatype MessageKind = MK_Request | MK_Response | MK_Notification

record 'p client_message =
  cl_request_id :: string
  cl_kind :: MessageKind
  cl_payload :: "'p option"

record 'p server_message =
  sv_request_id :: string
  sv_payload :: "'p option"

section \<open>The generated code\<close>

record wire =
  enc_data :: "DataClientPayload client_message \<Rightarrow> bytes"
  dec_data :: "bytes \<Rightarrow> string + DataServerPayload server_message"
  enc_control :: "ControlClientPayload client_message \<Rightarrow> bytes"
  dec_control :: "bytes \<Rightarrow> string + ControlServerPayload server_message"
  encoding_raw :: int
  encoding_unspecified :: int
  kind_video :: int
  kind_audio :: int
  direction_recvonly :: int
  direction_sendonly :: int
  video_codec_number :: "VideoCodec \<Rightarrow> int"
  audio_codec_number :: "AudioCodec \<Rightarrow> int"
  failure_number :: "StepFailureCode \<Rightarrow> int"
  frame_len :: "Frame \<Rightarrow> nat"
  track_frames_len :: "TrackFrames \<Rightarrow> nat"
  length_delimiter_len :: "nat \<Rightarrow> nat"

text \<open>
  What the sources rely on: the numbers of one enum are distinct (a protobuf rule), and
  \<^verbatim>\<open>try_from\<close> of a number is the variant with that number.
\<close>

definition wire_ok :: "wire \<Rightarrow> bool" where
  "wire_ok w \<longleftrightarrow> encoding_raw w \<noteq> encoding_unspecified w \<and> kind_video w \<noteq> kind_audio w
     \<and> inj (failure_number w)"

definition all_failure_codes :: "StepFailureCode list" where
  "all_failure_codes = [SFC_Unspecified, SFC_Failed, SFC_Refused, SFC_NotReady, SFC_ResultTooLarge,
     SFC_CommandFailed, SFC_SessionEnded]"

definition failure_try_from :: "wire \<Rightarrow> int \<Rightarrow> StepFailureCode option" where
  "failure_try_from w n = find (\<lambda>c. failure_number w c = n) all_failure_codes"

section \<open>Commands\<close>

definition upload_reference :: "FileRef \<Rightarrow> UploadReference" where
  "upload_reference f = \<lparr> ur_upload_id = upload_id f, ur_name = fref_name f,
     ur_mime_type = fref_mime_type f, ur_size = sint (fref_size f) \<rparr>"

definition build_command_payload ::
    "string \<Rightarrow> json \<Rightarrow> (string \<times> FileRef) list option \<Rightarrow> (CoreError, DataClientPayload) result" where
  "build_command_payload command data uploads =
     bind_result (ok_or (Decode ''command data must be a JSON object'') (value_to_struct data)) (\<lambda>data.
     Inr (DC_Command \<lparr> cmd_type = command, cmd_data = Some data,
       cmd_uploads = map (\<lambda>(param, file). (param, upload_reference file))
         (case uploads of Some m \<Rightarrow> m | None \<Rightarrow> []) \<rparr>))"

section \<open>Lemmas\<close>

lemma failure_codes_complete: "c \<in> set all_failure_codes"
  by (cases c) (simp_all add: all_failure_codes_def)

lemma failure_try_from_number [simp]:
  assumes "wire_ok w" shows "failure_try_from w (failure_number w c) = Some c"
  using assms by (cases c) (auto simp: failure_try_from_def all_failure_codes_def wire_ok_def inj_eq)

lemma failure_try_from_None: "failure_try_from w n = None \<longleftrightarrow> n \<notin> range (failure_number w)"
  using failure_codes_complete by (auto simp: failure_try_from_def find_None_iff)

lemma build_command_payload_ok:
  "build_command_payload command data uploads = Inr p \<longleftrightarrow>
     (\<exists>m. data = JObject m \<and> p = DC_Command \<lparr> cmd_type = command, cmd_data = Some (object_to_struct m),
        cmd_uploads = map (\<lambda>(param, file). (param, upload_reference file))
          (case uploads of Some m \<Rightarrow> m | None \<Rightarrow> []) \<rparr>)"
  by (cases data) (auto simp: build_command_payload_def result_simps)

text \<open>A generated code the hypotheses on \<^typ>\<open>wire\<close> hold for, used to show they can hold.\<close>

definition sample_wire :: wire where
  "sample_wire = \<lparr> enc_data = (\<lambda>_. []), dec_data = (\<lambda>_. Inl []), enc_control = (\<lambda>_. []),
     dec_control = (\<lambda>_. Inl []), encoding_raw = 1, encoding_unspecified = 0, kind_video = 1,
     kind_audio = 2, direction_recvonly = 1, direction_sendonly = 2,
     video_codec_number = (\<lambda>c. case c of Vp8 \<Rightarrow> 1 | Vp9 \<Rightarrow> 2 | Av1 \<Rightarrow> 3 | H264 \<Rightarrow> 4 | H265 \<Rightarrow> 5),
     audio_codec_number = (\<lambda>_. 1),
     failure_number = (\<lambda>c. case c of SFC_Unspecified \<Rightarrow> 0 | SFC_Failed \<Rightarrow> 1 | SFC_Refused \<Rightarrow> 2
        | SFC_NotReady \<Rightarrow> 3 | SFC_ResultTooLarge \<Rightarrow> 4 | SFC_CommandFailed \<Rightarrow> 5 | SFC_SessionEnded \<Rightarrow> 6),
     frame_len = (\<lambda>f. length (fr_data f)), track_frames_len = (\<lambda>t. length (tf_track t)),
     length_delimiter_len = (\<lambda>n. if n < 128 then 1 else 5) \<rparr>"

lemma sample_wire_ok: "wire_ok sample_wire"
  by (auto simp: wire_ok_def sample_wire_def inj_def split: StepFailureCode.splits)

end
