(* ===== verification/Correlators.thy ===== *)
theory Correlators
  imports Wire
begin

text \<open>
  Request correlation on the control channel (\<^verbatim>\<open>control.rs\<close>) and the data channel
  (\<^verbatim>\<open>data.rs\<close>). A \<^verbatim>\<open>oneshot\<close> channel is named by a value of type \<^typ>\<open>'tx\<close>; sending on it is
  recorded, with the value sent, in the list an operation returns. \<open>alive\<close> tells whether a channel's
  receiver still exists, which decides whether a send fails. The two correlators share one contract,
  the locale \<open>correlator\<close>.
\<close>

section \<open>The control correlator\<close>

type_synonym ControlResult = "(CoreError, ControlServerPayload) result"

record 'tx ControlCorrelator =
  ctl_counter :: u64
  ctl_pending :: "(string, 'tx) hmap"

record 'tx PendingControl =
  pc_payload :: bytes
  pc_request_id :: string
  pc_receiver :: 'tx

definition ControlCorrelator_new :: "'tx ControlCorrelator" where
  "ControlCorrelator_new = \<lparr> ctl_counter = 0, ctl_pending = [] \<rparr>"

definition ctl_id :: "u64 \<Rightarrow> string" where
  "ctl_id n = ''ctrl_'' @ show_nat (unat n)"

definition control_begin ::
    "wire \<Rightarrow> 'tx \<Rightarrow> ControlClientPayload \<Rightarrow> 'tx ControlCorrelator \<Rightarrow> 'tx PendingControl \<times> 'tx ControlCorrelator" where
  "control_begin w tx payload c =
     (let id = ctl_counter c + 1;
          request_id = ctl_id id;
          message = \<lparr> cl_request_id = request_id, cl_kind = MK_Request, cl_payload = Some payload \<rparr>
      in (\<lparr> pc_payload = enc_control w message, pc_request_id = request_id, pc_receiver = tx \<rparr>,
          c\<lparr>ctl_counter := id, ctl_pending := hm_insert request_id tx (ctl_pending c)\<rparr>))"

definition control_notification :: "wire \<Rightarrow> ControlClientPayload \<Rightarrow> bytes" where
  "control_notification w payload =
     enc_control w \<lparr> cl_request_id = [], cl_kind = MK_Notification, cl_payload = Some payload \<rparr>"

definition control_handle_message ::
    "wire \<Rightarrow> bytes \<Rightarrow> 'tx ControlCorrelator \<Rightarrow>
       ControlServerPayload option \<times> ('tx \<times> ControlResult) list \<times> 'tx ControlCorrelator" where
  "control_handle_message w raw c =
     (case dec_control w raw of
        Inl _ \<Rightarrow> (None, [], c)
      | Inr message \<Rightarrow>
          (case sv_payload message of
             None \<Rightarrow> (None, [], c)
           | Some payload \<Rightarrow>
               if sv_request_id message \<noteq> [] then
                 (case hm_get (ctl_pending c) (sv_request_id message) of
                    Some tx \<Rightarrow> (Some payload, [(tx, Inr payload)],
                      c\<lparr>ctl_pending := hm_remove (sv_request_id message) (ctl_pending c)\<rparr>)
                  | None \<Rightarrow> (Some payload, [], c))
               else (Some payload, [], c)))"

definition control_cancel :: "string \<Rightarrow> 'tx ControlCorrelator \<Rightarrow> 'tx ControlCorrelator" where
  "control_cancel request_id c = c\<lparr>ctl_pending := hm_remove request_id (ctl_pending c)\<rparr>"

definition control_fail_all ::
    "(string \<times> 'tx) iter \<Rightarrow> string \<Rightarrow> 'tx ControlCorrelator \<Rightarrow>
       ('tx \<times> ControlResult) list \<times> 'tx ControlCorrelator" where
  "control_fail_all it reason c =
     (map (\<lambda>(request_id, tx). (tx, Inl (ControlRequest ''request'' DISCONNECTED
            (reason @ '' (request_id='' @ request_id @ '')'')))) (iterate it (ctl_pending c)),
      c\<lparr>ctl_pending := []\<rparr>)"

datatype 'tx ctl_op =
    Ctl_Begin ControlClientPayload 'tx
  | Ctl_Handle bytes
  | Ctl_Cancel string
  | Ctl_FailAll string

fun ctl_step ::
    "wire \<Rightarrow> (string \<times> 'tx) iter \<Rightarrow> 'tx ControlCorrelator \<Rightarrow> 'tx ctl_op \<Rightarrow>
       ('tx \<times> ControlResult) list \<times> 'tx ControlCorrelator" where
  "ctl_step w it c (Ctl_Begin payload tx) = ([], snd (control_begin w tx payload c))"
| "ctl_step w it c (Ctl_Handle raw) = snd (control_handle_message w raw c)"
| "ctl_step w it c (Ctl_Cancel rid) = ([], control_cancel rid c)"
| "ctl_step w it c (Ctl_FailAll reason) = control_fail_all it reason c"

fun ctl_opened :: "'tx ctl_op \<Rightarrow> 'tx list" where
  "ctl_opened (Ctl_Begin _ tx) = [tx]"
| "ctl_opened _ = []"

fun ctl_closing :: "'tx ctl_op \<Rightarrow> bool" where
  "ctl_closing (Ctl_FailAll _) = True"
| "ctl_closing _ = False"

section \<open>The data correlator\<close>

type_synonym DataResult = "(CoreError, DataServerPayload option) result"

record ReplyArrival =
  arrived_ms :: f64
  resolved_ms :: f64

record 'tx DataCorrelator =
  dat_counter :: u64
  dat_pending :: "(string, string \<times> 'tx) hmap"
  dat_arrivals :: "(string, ReplyArrival) hmap"

record 'tx PendingData =
  pd_payload :: bytes
  pd_request_id :: string
  pd_receiver :: 'tx

record HandledMessage =
  hm_payload :: "DataServerPayload option"
  correlated :: bool

definition DataCorrelator_new :: "'tx DataCorrelator" where
  "DataCorrelator_new = \<lparr> dat_counter = 0, dat_pending = [], dat_arrivals = [] \<rparr>"

definition dat_id :: "u64 \<Rightarrow> string" where
  "dat_id n = ''data_'' @ show_nat (unat n)"

fun command_label :: "DataClientPayload \<Rightarrow> string" where
  "command_label (DC_Command c) = cmd_type c"
| "command_label (DC_RequestStep _) = ''request_step''"
| "command_label (DC_Error _) = ''command''"

definition data_begin ::
    "wire \<Rightarrow> 'tx \<Rightarrow> DataClientPayload \<Rightarrow> 'tx DataCorrelator \<Rightarrow> 'tx PendingData \<times> 'tx DataCorrelator" where
  "data_begin w tx payload c =
     (let command = command_label payload;
          id = dat_counter c + 1;
          request_id = dat_id id;
          message = \<lparr> cl_request_id = request_id, cl_kind = MK_Request, cl_payload = Some payload \<rparr>
      in (\<lparr> pd_payload = enc_data w message, pd_request_id = request_id, pd_receiver = tx \<rparr>,
          c\<lparr>dat_counter := id, dat_pending := hm_insert request_id (command, tx) (dat_pending c)\<rparr>))"

fun is_step_result :: "DataServerPayload option \<Rightarrow> bool" where
  "is_step_result (Some (DS_StepResult _)) = True"
| "is_step_result _ = False"

text \<open>
  The clock is read when the message arrives and again when it resolves its request: \<open>clock 0\<close> and
  \<open>clock 1\<close>.
\<close>

definition data_handle_message_at ::
    "wire \<Rightarrow> ('tx \<Rightarrow> bool) \<Rightarrow> bytes \<Rightarrow> (nat \<Rightarrow> f64) option \<Rightarrow> 'tx DataCorrelator \<Rightarrow>
       HandledMessage option \<times> ('tx \<times> DataResult) list \<times> 'tx DataCorrelator" where
  "data_handle_message_at w alive raw clock c =
     (case dec_data w raw of
        Inl _ \<Rightarrow> (None, [], c)
      | Inr message \<Rightarrow>
          let payload = sv_payload message; request_id = sv_request_id message;
              uncorrelated = Some \<lparr> hm_payload = payload, correlated = False \<rparr>
          in if request_id = [] then (uncorrelated, [], c)
             else (case hm_get (dat_pending c) request_id of
                 None \<Rightarrow> (uncorrelated, [], c)
               | Some (_, tx) \<Rightarrow>
                   let c = c\<lparr>dat_pending := hm_remove request_id (dat_pending c)\<rparr>
                   in if is_step_result payload
                      then (Some \<lparr> hm_payload = None, correlated = True \<rparr>, [(tx, Inr payload)], c)
                      else
                        let c = (case clock of
                               Some now \<Rightarrow> c\<lparr>dat_arrivals := hm_insert request_id
                                 \<lparr> arrived_ms = now 0, resolved_ms = now 1 \<rparr> (dat_arrivals c)\<rparr>
                             | None \<Rightarrow> c);
                            c = (if alive tx then c
                                 else c\<lparr>dat_arrivals := hm_remove request_id (dat_arrivals c)\<rparr>)
                        in (Some \<lparr> hm_payload = payload, correlated = True \<rparr>, [(tx, Inr payload)], c)))"

definition data_handle_message ::
    "wire \<Rightarrow> ('tx \<Rightarrow> bool) \<Rightarrow> bytes \<Rightarrow> 'tx DataCorrelator \<Rightarrow>
       HandledMessage option \<times> ('tx \<times> DataResult) list \<times> 'tx DataCorrelator" where
  "data_handle_message w alive raw c = data_handle_message_at w alive raw None c"

definition data_cancel :: "string \<Rightarrow> 'tx DataCorrelator \<Rightarrow> 'tx DataCorrelator" where
  "data_cancel request_id c = c\<lparr>dat_pending := hm_remove request_id (dat_pending c),
     dat_arrivals := hm_remove request_id (dat_arrivals c)\<rparr>"

definition take_arrival :: "string \<Rightarrow> 'tx DataCorrelator \<Rightarrow> ReplyArrival option \<times> 'tx DataCorrelator" where
  "take_arrival request_id c =
     (hm_get (dat_arrivals c) request_id, c\<lparr>dat_arrivals := hm_remove request_id (dat_arrivals c)\<rparr>)"

definition data_fail_all ::
    "(string \<times> string \<times> 'tx) iter \<Rightarrow> string \<Rightarrow> 'tx DataCorrelator \<Rightarrow>
       ('tx \<times> DataResult) list \<times> 'tx DataCorrelator" where
  "data_fail_all it reason c =
     (map (\<lambda>(request_id, command, tx). (tx, Inl (CommandRequest command DISCONNECTED
            (reason @ '' (request_id='' @ request_id @ '')'')))) (iterate it (dat_pending c)),
      c\<lparr>dat_pending := []\<rparr>)"

datatype 'tx dat_op =
    Dat_Begin DataClientPayload 'tx
  | Dat_Handle bytes "(nat \<Rightarrow> f64) option"
  | Dat_Cancel string
  | Dat_TakeArrival string
  | Dat_FailAll string

fun dat_step ::
    "wire \<Rightarrow> ('tx \<Rightarrow> bool) \<Rightarrow> (string \<times> string \<times> 'tx) iter \<Rightarrow> 'tx DataCorrelator \<Rightarrow> 'tx dat_op \<Rightarrow>
       ('tx \<times> DataResult) list \<times> 'tx DataCorrelator" where
  "dat_step w alive it c (Dat_Begin payload tx) = ([], snd (data_begin w tx payload c))"
| "dat_step w alive it c (Dat_Handle raw clock) = snd (data_handle_message_at w alive raw clock c)"
| "dat_step w alive it c (Dat_Cancel rid) = ([], data_cancel rid c)"
| "dat_step w alive it c (Dat_TakeArrival rid) = ([], snd (take_arrival rid c))"
| "dat_step w alive it c (Dat_FailAll reason) = data_fail_all it reason c"

fun dat_opened :: "'tx dat_op \<Rightarrow> 'tx list" where
  "dat_opened (Dat_Begin _ tx) = [tx]"
| "dat_opened _ = []"

fun dat_closing :: "'tx dat_op \<Rightarrow> bool" where
  "dat_closing (Dat_FailAll _) = True"
| "dat_closing _ = False"

section \<open>The contract\<close>

text \<open>
  What a correlator promises: a channel waiting for its reply is either still waiting, sent to once,
  or forgotten; a rejection of everything sends to every waiting channel and leaves none.
\<close>

locale correlator =
  fixes waiting :: "'c \<Rightarrow> 'tx list"
    and step :: "'c \<Rightarrow> 'op \<Rightarrow> ('tx \<times> 'r) list \<times> 'c"
    and opened :: "'op \<Rightarrow> 'tx list"
    and closing :: "'op \<Rightarrow> bool"
  assumes conserve: "step c op = (sent, c') \<Longrightarrow>
      mset (map fst sent) + mset (waiting c') \<subseteq># mset (waiting c) + mset (opened op)"
    and close: "closing op \<Longrightarrow> step c op = (sent, c') \<Longrightarrow>
      waiting c' = [] \<and> mset (map fst sent) = mset (waiting c)"
begin

lemma run_conserve:
  "run_ops step c ops = (sent, c') \<Longrightarrow>
     mset (map fst sent) + mset (waiting c') \<subseteq># mset (waiting c) + mset (concat (map opened ops))"
proof (induction ops arbitrary: c sent)
  case (Cons op ops)
  obtain s1 c1 where s1: "step c op = (s1, c1)" by fastforce
  obtain s2 c2 where s2: "run_ops step c1 ops = (s2, c2)" by fastforce
  have "mset (map fst s2) + mset (waiting c2) \<subseteq># mset (waiting c1) + mset (concat (map opened ops))"
    using Cons.IH s2 Cons.prems s1 by auto
  moreover have "mset (map fst s1) + mset (waiting c1) \<subseteq># mset (waiting c) + mset (opened op)"
    by (rule conserve [OF s1])
  ultimately have "mset (map fst s1) + mset (waiting c1) + (mset (map fst s2) + mset (waiting c2))
      \<subseteq># mset (waiting c) + mset (opened op) + (mset (waiting c1) + mset (concat (map opened ops)))"
    by (rule subset_mset.add_mono [rotated])
  with Cons.prems s1 s2 show ?case by (auto simp: ac_simps)
qed simp

lemma at_most_once:
  assumes "run_ops step c ops = (sent, c')"
    and "distinct (waiting c @ concat (map opened ops))"
  shows "distinct (map fst sent)" and "set (map fst sent) \<inter> set (waiting c') = {}"
proof -
  have "mset (map fst sent @ waiting c') \<subseteq># mset (waiting c @ concat (map opened ops))"
    using run_conserve [OF assms(1)] by simp
  then have d: "distinct (map fst sent @ waiting c')"
    using assms(2) by (rule distinct_subset_mset)
  show "distinct (map fst sent)" using d by (simp add: distinct_map)
  show "set (map fst sent) \<inter> set (waiting c') = {}" using d by simp
qed

lemma keep_distinct:
  assumes "step c op = (sent, c')" and "distinct (past @ waiting c @ opened op)"
  shows "distinct (past @ map fst sent @ waiting c')"
    and "set (past @ map fst sent @ waiting c') \<subseteq> set (past @ waiting c @ opened op)"
proof -
  have sub: "mset (past @ map fst sent @ waiting c') \<subseteq># mset (past @ waiting c @ opened op)"
    using conserve [OF assms(1)] by simp
  show "distinct (past @ map fst sent @ waiting c')"
    by (rule distinct_subset_mset [OF sub assms(2)])
  show "set (past @ map fst sent @ waiting c') \<subseteq> set (past @ waiting c @ opened op)"
    using set_mset_mono [OF sub] by simp
qed

lemma closed_once:
  assumes "run_ops step c ops = (sent, c')" and "closing op" and "step c' op = (sent', c'')"
  shows "waiting c'' = []" and "mset (map fst sent') = mset (waiting c')"
  using close [OF assms(2,3)] by auto

end

section \<open>The control correlator meets the contract\<close>

definition ctl_waiting :: "'tx ControlCorrelator \<Rightarrow> 'tx list" where
  "ctl_waiting c = map snd (ctl_pending c)"

definition dat_waiting :: "'tx DataCorrelator \<Rightarrow> 'tx list" where
  "dat_waiting c = map (snd \<circ> snd) (dat_pending c)"

lemma control_handle_conserve:
  assumes "snd (control_handle_message w raw c) = (sent, c')"
  shows "mset (map fst sent) + mset (ctl_waiting c') \<subseteq># mset (ctl_waiting c)"
  using assms mset_values_remove [of "ctl_pending c"]
  by (auto simp: control_handle_message_def ctl_waiting_def
      split: sum.splits option.splits if_splits)

lemma control_fail_all_sends:
  assumes "control_fail_all it reason c = (sent, c')"
  shows "ctl_waiting c' = []" and "mset (map fst sent) = mset (ctl_waiting c)"
  using assms by (auto simp: control_fail_all_def ctl_waiting_def case_prod_unfold comp_def multiset.map_comp)

lemma ctl_conserve:
  assumes "ctl_step w it c op = (sent, c')"
  shows "mset (map fst sent) + mset (ctl_waiting c') \<subseteq># mset (ctl_waiting c) + mset (ctl_opened op)"
proof (cases op)
  case (Ctl_Begin payload tx)
  with assms show ?thesis using mset_values_insert
    by (auto simp: control_begin_def ctl_waiting_def Let_def)
next
  case (Ctl_Handle raw)
  with assms control_handle_conserve show ?thesis by simp
next
  case (Ctl_Cancel rid)
  with assms show ?thesis using mset_values_remove_le
    by (auto simp: control_cancel_def ctl_waiting_def)
next
  case (Ctl_FailAll reason)
  with assms control_fail_all_sends show ?thesis by fastforce
qed

interpretation ctl: correlator ctl_waiting "ctl_step w it" ctl_opened ctl_closing for w it
proof unfold_locales
  show "mset (map fst sent) + mset (ctl_waiting c') \<subseteq># mset (ctl_waiting c) + mset (ctl_opened op)"
    if "ctl_step w it c op = (sent, c')" for c op sent c'
    using that by (rule ctl_conserve)
  show "ctl_waiting c' = [] \<and> mset (map fst sent) = mset (ctl_waiting c)"
    if "ctl_closing op" and "ctl_step w it c op = (sent, c')" for op c sent c'
    using that control_fail_all_sends by (cases op) auto
qed

section \<open>The data correlator meets the contract\<close>

lemma dat_waiting_values: "dat_waiting c = map snd (map snd (dat_pending c))"
  by (simp add: dat_waiting_def)

lemma data_handle_conserve:
  assumes "snd (data_handle_message_at w alive raw clock c) = (sent, c')"
  shows "mset (map fst sent) + mset (dat_waiting c') \<subseteq># mset (dat_waiting c)"
proof -
  have "add_mset tx (image_mset snd (mset (map snd (hm_remove k (dat_pending c)))))
      \<subseteq># image_mset snd (mset (map snd (dat_pending c)))"
    if "hm_get (dat_pending c) k = Some (cmd, tx)" for k cmd tx
    using image_mset_subseteq_mono [OF mset_values_remove [OF that], of snd] by simp
  with assms show ?thesis
    by (auto simp: data_handle_message_at_def dat_waiting_values Let_def
        simp del: map_map split: sum.splits option.splits if_splits)
qed

lemma data_fail_all_sends:
  assumes "data_fail_all it reason c = (sent, c')"
  shows "dat_waiting c' = []" and "mset (map fst sent) = mset (dat_waiting c)"
  using assms by (auto simp: data_fail_all_def dat_waiting_def case_prod_unfold comp_def multiset.map_comp)

lemma dat_conserve:
  assumes "dat_step w alive it c op = (sent, c')"
  shows "mset (map fst sent) + mset (dat_waiting c') \<subseteq># mset (dat_waiting c) + mset (dat_opened op)"
proof (cases op)
  case (Dat_Begin payload tx)
  have "image_mset snd (mset (map snd (hm_insert k (cmd, tx) (dat_pending c))))
      \<subseteq># add_mset tx (image_mset snd (mset (map snd (dat_pending c))))" for k cmd
    using image_mset_subseteq_mono [OF mset_values_insert, of snd k "(cmd, tx)" "dat_pending c"] by simp
  with Dat_Begin assms show ?thesis
    by (auto simp: data_begin_def dat_waiting_values Let_def simp del: map_map)
next
  case (Dat_Handle raw clock)
  with assms data_handle_conserve show ?thesis by simp
next
  case (Dat_Cancel rid)
  with assms show ?thesis
    using image_mset_subseteq_mono [OF mset_values_remove_le, of snd rid "dat_pending c"]
    by (auto simp: data_cancel_def dat_waiting_values simp del: map_map)
next
  case (Dat_TakeArrival rid)
  with assms show ?thesis by (auto simp: take_arrival_def dat_waiting_def)
next
  case (Dat_FailAll reason)
  with assms data_fail_all_sends show ?thesis by fastforce
qed

interpretation dat: correlator dat_waiting "dat_step w alive it" dat_opened dat_closing for w alive it
proof unfold_locales
  show "mset (map fst sent) + mset (dat_waiting c') \<subseteq># mset (dat_waiting c) + mset (dat_opened op)"
    if "dat_step w alive it c op = (sent, c')" for c op sent c'
    using that by (rule dat_conserve)
  show "dat_waiting c' = [] \<and> mset (map fst sent) = mset (dat_waiting c)"
    if "dat_closing op" and "dat_step w alive it c op = (sent, c')" for op c sent c'
    using that data_fail_all_sends by (cases op) auto
qed

section \<open>Properties\<close>

lemma dat_id_inject [simp]: "dat_id m = dat_id n \<longleftrightarrow> m = n"
  by (simp add: dat_id_def word_unat_eq_iff)

lemma ctl_id_inject [simp]: "ctl_id m = ctl_id n \<longleftrightarrow> m = n"
  by (simp add: ctl_id_def word_unat_eq_iff)

text \<open>The operations that can settle request \<open>rid\<close>: a reply to it, its cancellation, a rejection of all.\<close>

fun dat_touches :: "wire \<Rightarrow> string \<Rightarrow> 'tx dat_op \<Rightarrow> bool" where
  "dat_touches w rid (Dat_Begin _ _) = False"
| "dat_touches w rid (Dat_Handle raw _) =
     (case dec_data w raw of Inl _ \<Rightarrow> False | Inr m \<Rightarrow> sv_request_id m = rid)"
| "dat_touches w rid (Dat_Cancel r) = (r = rid)"
| "dat_touches w rid (Dat_TakeArrival _) = False"
| "dat_touches w rid (Dat_FailAll _) = True"

lemma data_handle_pending:
  "dat_pending (snd (snd (data_handle_message_at w alive raw clock c))) =
     (case dec_data w raw of Inl _ \<Rightarrow> dat_pending c
      | Inr m \<Rightarrow> if sv_request_id m \<noteq> [] \<and> hm_get (dat_pending c) (sv_request_id m) \<noteq> None
                then hm_remove (sv_request_id m) (dat_pending c) else dat_pending c)"
  by (auto simp: data_handle_message_at_def Let_def split: sum.splits option.splits)

lemma data_handle_counter [simp]:
  "dat_counter (snd (snd (data_handle_message_at w alive raw clock c))) = dat_counter c"
  by (auto simp: data_handle_message_at_def Let_def split: sum.splits option.splits)

lemma dat_step_kept:
  assumes "\<not> dat_touches w rid op" and "hm_get (dat_pending c) rid = Some v"
    and "rid \<noteq> dat_id (dat_counter c + 1)"
  shows "hm_get (dat_pending (snd (dat_step w alive it c op))) rid = Some v"
  using assms
  by (cases op) (auto simp: data_begin_def data_cancel_def take_arrival_def data_handle_pending Let_def
      split: sum.splits)

lemma dat_step_counter:
  "dat_counter (snd (dat_step w alive it c op)) \<in> {dat_counter c, dat_counter c + 1}"
  by (cases op) (auto simp: data_begin_def data_cancel_def take_arrival_def data_fail_all_def Let_def)

lemma dat_run_kept:
  assumes "list_all (\<lambda>op. \<not> dat_touches w (dat_id n) op) ops"
    and "hm_get (dat_pending c) (dat_id n) = Some v"
    and "dat_counter c = n + of_nat j" and "j + length ops < 2 ^ 64 - 1"
  shows "hm_get (dat_pending (snd (run_ops (dat_step w alive it) c ops))) (dat_id n) = Some v"
  using assms
proof (induction ops arbitrary: c j)
  case (Cons op ops)
  have word: "(of_nat k :: u64) \<noteq> 0" if "0 < k" "k < 2 ^ 64" for k
    using that by (simp add: of_nat_eq_0_iff word_of_nat_eq_0_iff nat_dvd_not_less)
  have "of_nat (Suc j) \<noteq> (0 :: u64)" using Cons.prems(4) by (intro word) auto
  then have fresh: "dat_id n \<noteq> dat_id (dat_counter c + 1)"
    using Cons.prems(3) by (simp add: algebra_simps)
  obtain s1 c1 where s1: "dat_step w alive it c op = (s1, c1)" by fastforce
  have "hm_get (dat_pending c1) (dat_id n) = Some v"
    using dat_step_kept [OF _ Cons.prems(2) fresh, of w op alive it] Cons.prems(1) s1 by simp
  moreover have "dat_counter c1 = n + of_nat j \<or> dat_counter c1 = n + of_nat (Suc j)"
    using dat_step_counter [of w alive it c op] s1 Cons.prems(3) by auto
  ultimately have "hm_get (dat_pending (snd (run_ops (dat_step w alive it) c1 ops))) (dat_id n) = Some v"
    using Cons.IH [of c1 j] Cons.IH [of c1 "Suc j"] Cons.prems(1,4) by auto
  then show ?case using s1 by (simp add: case_prod_unfold)
qed simp



text \<open>
  a data request is answered at most once, on the same terms, whether its reply is a message, an
  error or a step's result.
\<close>

theorem data_at_most_once:
  assumes "run_ops (dat_step w alive it) DataCorrelator_new ops = (sent, c)"
    and "distinct (concat (map dat_opened ops))"
  shows "distinct (map fst sent) \<and> set (map fst sent) \<inter> set (dat_waiting c) = {}"
  using dat.at_most_once [OF assms(1)] assms(2)
  by (simp add: dat_waiting_def DataCorrelator_new_def)

theorem data_at_most_once_witness:
  "distinct (map fst (fst (run_ops (dat_step sample_wire (\<lambda>_. True) in_order) DataCorrelator_new
     [Dat_Begin (DC_Error \<lparr> we_code = [], we_message = [] \<rparr>) (1::nat), Dat_Cancel ''data_1'', Dat_Begin (DC_Error \<lparr> we_code = [], we_message = [] \<rparr>) 2, Dat_FailAll ''bye''])))"
proof -
  have "distinct (concat (map dat_opened
      [Dat_Begin (DC_Error \<lparr> we_code = [], we_message = [] \<rparr>) (1::nat), Dat_Cancel ''data_1'', Dat_Begin (DC_Error \<lparr> we_code = [], we_message = [] \<rparr>) 2, Dat_FailAll ''bye'']))"
    by simp
  then show ?thesis using data_at_most_once [OF prod.collapse [symmetric]] by blast
qed

text \<open>
  C31: a reply reaches the request it answers. From the moment a data request is registered, whatever
  other requests, replies and cancellations come in between, the reply that carries its id is sent to
  its channel and to no other, is marked as correlated (with a step's result moved to the awaiting
  call and nothing left to publish), and the same reply a second time is sent to nobody.
\<close>

theorem data_reply_delivered:
  assumes "data_begin w tx payload c = (p, c1)"
    and "list_all (\<lambda>op. \<not> dat_touches w (pd_request_id p) op) ops"
    and "length ops < 2 ^ 64 - 1"
    and "run_ops (dat_step w alive it) c1 ops = (sent, c2)"
    and "dec_data w raw = Inr \<lparr> sv_request_id = pd_request_id p, sv_payload = reply \<rparr>"
    and "data_handle_message_at w alive raw clock c2 = (handled, delivered, c3)"
  shows "delivered = [(tx, Inr reply)]
    \<and> handled = Some \<lparr> hm_payload = if is_step_result reply then None else reply, correlated = True \<rparr>
    \<and> fst (snd (data_handle_message_at w alive raw clock' c3)) = []"
proof -
  let ?n = "dat_counter c + 1"
  have p: "pd_request_id p = dat_id ?n" and c1: "dat_counter c1 = ?n"
    and g: "hm_get (dat_pending c1) (dat_id ?n) = Some (command_label payload, tx)"
    using assms(1) by (auto simp: data_begin_def Let_def)
  have kept: "hm_get (dat_pending c2) (dat_id ?n) = Some (command_label payload, tx)"
    using dat_run_kept [OF assms(2) [unfolded p] g, of 0 alive it] assms(3,4) c1 by simp
  have "dat_id ?n \<noteq> []" by (simp add: dat_id_def)
  then have h: "delivered = [(tx, Inr reply)]
      \<and> handled = Some \<lparr> hm_payload = if is_step_result reply then None else reply, correlated = True \<rparr>"
    using assms(5,6) kept p by (auto simp: data_handle_message_at_def Let_def split: if_splits)
  have "hm_get (dat_pending c3) (dat_id ?n) = None"
    using data_handle_pending [of w alive raw clock c2] assms(5,6) kept p \<open>dat_id ?n \<noteq> []\<close> by simp
  then have "fst (snd (data_handle_message_at w alive raw clock' c3)) = []"
    using assms(5) p by (auto simp: data_handle_message_at_def Let_def)
  with h show ?thesis by blast
qed

theorem data_reply_delivered_witness:
  "fst (snd (data_handle_message_at
      (sample_wire\<lparr>dec_data := \<lambda>_. Inr \<lparr> sv_request_id = ''data_1'', sv_payload = None \<rparr>\<rparr>)
      (\<lambda>_. True) [] None
      (snd (data_begin sample_wire (7::nat) (DC_Error \<lparr> we_code = [], we_message = [] \<rparr>) DataCorrelator_new))))
   = [(7, Inr None)]"
proof -
  let ?w = "sample_wire\<lparr>dec_data := \<lambda>_. Inr \<lparr> sv_request_id = ''data_1'', sv_payload = None \<rparr>\<rparr>"
  let ?b = "data_begin ?w (7::nat) (DC_Error \<lparr> we_code = [], we_message = [] \<rparr>) DataCorrelator_new"
  have "digit_char 1 = CHR ''1''" by code_simp
  then have id1: "pd_request_id (fst ?b) = ''data_1''"
    by (simp add: data_begin_def DataCorrelator_new_def dat_id_def Let_def show_nat_digit)
  have same: "snd ?b = snd (data_begin sample_wire (7::nat) (DC_Error \<lparr> we_code = [], we_message = [] \<rparr>) DataCorrelator_new)"
    by (simp add: data_begin_def Let_def)
  have "fst (snd (data_handle_message_at ?w (\<lambda>_. True) [] None (snd ?b))) = [(7, Inr None)]"
  proof -
    let ?h = "data_handle_message_at ?w (\<lambda>_. True) [] None (snd ?b)"
    have d: "dec_data ?w [] = Inr \<lparr> sv_request_id = pd_request_id (fst ?b), sv_payload = None \<rparr>"
      using id1 by simp
    have h: "?h = (fst ?h, fst (snd ?h), snd (snd ?h))" by simp
    have r: "run_ops (dat_step ?w (\<lambda>_. True) in_order) (snd ?b) [] = ([], snd ?b)" by simp
    have b: "?b = (fst ?b, snd ?b)" by simp
    have k: "list_all (\<lambda>op. \<not> dat_touches ?w (pd_request_id (fst ?b)) op) ([] :: nat dat_op list)"
      and l: "length ([] :: nat dat_op list) < 2 ^ 64 - 1" by simp_all
    show ?thesis by (rule data_reply_delivered [OF b k l r d h, THEN conjunct1])
  qed
  then show ?thesis by (simp add: same)
qed

end
