(* ===== verification/Step_Frames.thy ===== *)
theory Step_Frames
  imports Wire
begin

text \<open>
  Frames of stepped generation: building the request of a step and the frames it carries
  (\<^verbatim>\<open>step/mod.rs\<close>), and decoding the result that answers it (\<^verbatim>\<open>step/decode.rs\<close>).
\<close>

section \<open>Building a step\<close>

definition VIDEO_DTYPE :: string where "VIDEO_DTYPE = ''uint8''"
definition AUDIO_DTYPE :: string where "AUDIO_DTYPE = ''int16''"

record StepCommand =
  sc_command :: string
  sc_data :: json

definition step_command :: "StepCommand \<Rightarrow> (CoreError, Command) result" where
  "step_command sc =
     bind_result
       (case sc_data sc of
          JNull \<Rightarrow> Inr None
        | data \<Rightarrow> bind_result (ok_or (Decode (''data of step command '' @ [CHR 0x27] @ sc_command sc
                    @ [CHR 0x27] @ '' must be a JSON object'')) (value_to_struct data)) (\<lambda>d. Inr (Some d)))
       (\<lambda>data. Inr \<lparr> cmd_type = sc_command sc, cmd_data = data, cmd_uploads = [] \<rparr>)"

definition build_request_step ::
    "json \<Rightarrow> StepCommand list \<Rightarrow> TrackFrames list \<Rightarrow> (CoreError, RequestStep) result" where
  "build_request_step state cmds media_input =
     bind_result
       (case state of
          JNull \<Rightarrow> Inr None
        | state \<Rightarrow> bind_result (ok_or (Decode ''step state must be a JSON object'') (value_to_struct state))
                     (\<lambda>s. Inr (Some s)))
       (\<lambda>state. bind_result (collect_results (map step_command cmds))
       (\<lambda>cmds. Inr \<lparr> rs_state = state, rs_commands = cmds, rs_media_input = media_input \<rparr>))"

datatype PixelLayout = Bgra | Rgba | Rgb

fun bytes_per_pixel :: "PixelLayout \<Rightarrow> nat" where
  "bytes_per_pixel Rgb = 3"
| "bytes_per_pixel Bgra = 4"
| "bytes_per_pixel Rgba = 4"

text \<open>\<^verbatim>\<open>chunks_exact(4)\<close> mapped and flattened: a remainder of fewer than four bytes is left out.\<close>

fun flat_chunks4 :: "('a \<Rightarrow> 'a \<Rightarrow> 'a \<Rightarrow> 'a \<Rightarrow> 'a list) \<Rightarrow> 'a list \<Rightarrow> 'a list" where
  "flat_chunks4 f (a # b # c # d # rest) = f a b c d @ flat_chunks4 f rest"
| "flat_chunks4 f _ = []"

fun to_rgb :: "PixelLayout \<Rightarrow> bytes \<Rightarrow> bytes" where
  "to_rgb Rgb pixels = pixels"
| "to_rgb Rgba pixels = flat_chunks4 (\<lambda>a b c d. [a, b, c]) pixels"
| "to_rgb Bgra pixels = flat_chunks4 (\<lambda>a b c d. [c, b, a]) pixels"

definition nonempty_metadata :: "bytes option \<Rightarrow> bytes option" where
  "nonempty_metadata m = (case m of Some [] \<Rightarrow> None | _ \<Rightarrow> m)"

definition raw_video_frame ::
    "wire \<Rightarrow> bytes \<Rightarrow> u32 \<Rightarrow> u32 \<Rightarrow> PixelLayout \<Rightarrow> bytes option \<Rightarrow> int option \<Rightarrow> Frame option" where
  "raw_video_frame w pixels width height layout metadata capture_time_us =
     (case checked_mul (unat width) (unat height) of
        None \<Rightarrow> None
      | Some n \<Rightarrow>
          (case checked_mul n (bytes_per_pixel layout) of
             None \<Rightarrow> None
           | Some sz \<Rightarrow>
               if length pixels \<noteq> sz then None
               else Some \<lparr> fr_encoding = encoding_raw w, fr_dtype = VIDEO_DTYPE,
                      fr_shape = [height, width, 3], fr_data = to_rgb layout pixels,
                      fr_metadata = nonempty_metadata metadata, fr_capture_time_us = capture_time_us \<rparr>))"

definition encoded_video_frame ::
    "wire \<Rightarrow> int \<Rightarrow> bytes \<Rightarrow> u32 \<Rightarrow> u32 \<Rightarrow> bytes option \<Rightarrow> int option \<Rightarrow> Frame option" where
  "encoded_video_frame w encoding data width height metadata capture_time_us =
     (if encoding = encoding_unspecified w \<or> encoding = encoding_raw w \<or> data = [] \<or> width = 0 \<or> height = 0
      then None
      else Some \<lparr> fr_encoding = encoding, fr_dtype = VIDEO_DTYPE, fr_shape = [height, width, 3],
             fr_data = data, fr_metadata = nonempty_metadata metadata,
             fr_capture_time_us = capture_time_us \<rparr>)"

text \<open>A signed 16-bit sample is its bit pattern.\<close>

definition to_le_bytes :: "u16 \<Rightarrow> bytes" where
  "to_le_bytes s = [ucast s, ucast (drop_bit 8 s)]"

text \<open>\<^verbatim>\<open>step_by(n)\<close> for \<open>n > 0\<close>; the one call has \<open>n\<close> checked.\<close>

function step_by :: "nat \<Rightarrow> 'a list \<Rightarrow> 'a list" where
  "step_by n xs = (if n = 0 \<or> xs = [] then [] else hd xs # step_by n (drop n xs))"
  by pat_completeness auto
termination
  by (relation "measure (\<lambda>(n, xs). length xs)") auto

declare step_by.simps [simp del]

definition planar :: "nat \<Rightarrow> u16 list \<Rightarrow> bytes" where
  "planar channels interleaved =
     concat (map (\<lambda>channel. concat (map to_le_bytes (step_by channels (drop channel interleaved)))) [0..<channels])"

definition raw_audio_frame :: "wire \<Rightarrow> u16 list \<Rightarrow> u32 \<Rightarrow> Frame option" where
  "raw_audio_frame w interleaved num_channels =
     (let channels = unat num_channels
      in if channels = 0 \<or> length interleaved mod channels \<noteq> 0 then None
         else let samples = length interleaved div channels
              in if samples < 2 ^ 32
                 then Some \<lparr> fr_encoding = encoding_raw w, fr_dtype = AUDIO_DTYPE,
                        fr_shape = [num_channels, of_nat samples], fr_data = planar channels interleaved,
                        fr_metadata = None, fr_capture_time_us = None \<rparr>
                 else None)"

section \<open>Decoding a result\<close>

record StepFile =
  sf_name :: string
  sf_content_type :: string
  sf_size :: u64

record DecodedFrame =
  df_encoding :: int
  df_dtype :: string
  df_shape :: "u32 list"
  df_data :: bytes
  df_metadata :: "bytes option"
  df_capture_time_us :: "int option"

record TrackOutput =
  to_track :: string
  to_kind :: TrackKind
  to_frames :: "DecodedFrame list"
  to_rate :: f64

record StepOutput =
  so_step :: u64
  so_tracks :: "TrackOutput list"
  so_elapsed :: f64
  so_files :: "StepFile list"
  so_error :: "string option"

definition StepFile_from :: "StepFileRef \<Rightarrow> StepFile" where
  "StepFile_from f = \<lparr> sf_name = sfr_name f, sf_content_type = sfr_content_type f, sf_size = sfr_size f \<rparr>"

definition dtype_size :: "string \<Rightarrow> nat option" where
  "dtype_size dtype =
     (if dtype \<in> {''uint8'', ''int8'', ''bool''} then Some 1
      else if dtype \<in> {''uint16'', ''int16'', ''float16''} then Some 2
      else if dtype \<in> {''uint32'', ''int32'', ''float32''} then Some 4
      else if dtype \<in> {''uint64'', ''int64'', ''float64''} then Some 8
      else None)"

fun try_fold_mul :: "nat \<Rightarrow> u32 list \<Rightarrow> nat option" where
  "try_fold_mul n [] = Some n"
| "try_fold_mul n (d # ds) = (case checked_mul n (unat d) of None \<Rightarrow> None | Some m \<Rightarrow> try_fold_mul m ds)"

text \<open>The \<^verbatim>\<open>{:?}\<close> of a list of numbers.\<close>

fun join_comma :: "string list \<Rightarrow> string" where
  "join_comma [] = []"
| "join_comma [s] = s"
| "join_comma (s # ss) = s @ '', '' @ join_comma ss"

definition show_shape :: "u32 list \<Rightarrow> string" where
  "show_shape ds = ''['' @ join_comma (map (show_nat \<circ> unat) ds) @ '']''"

definition raw_decode :: "wire \<Rightarrow> Frame \<Rightarrow> (CoreError, DecodedFrame) result" where
  "raw_decode w frame =
     (let decoded = Inr \<lparr> df_encoding = encoding_raw w, df_dtype = fr_dtype frame, df_shape = fr_shape frame,
            df_data = fr_data frame, df_metadata = fr_metadata frame,
            df_capture_time_us = fr_capture_time_us frame \<rparr>
      in case dtype_size (fr_dtype frame) of
           None \<Rightarrow> decoded
         | Some sz \<Rightarrow>
             let expected = try_fold_mul sz (fr_shape frame)
             in if expected \<noteq> Some (length (fr_data frame))
                then Inl (Decode (''raw '' @ fr_dtype frame @ '' frame of shape '' @ show_shape (fr_shape frame)
                       @ '' holds '' @ show_nat (length (fr_data frame)) @ '' bytes, expected ''
                       @ (case expected of None \<Rightarrow> ''an overflowing size'' | Some n \<Rightarrow> show_nat n)))
                else decoded)"

type_synonym FrameDecoder = "Frame \<Rightarrow> (CoreError, DecodedFrame) result"
type_synonym FrameDecoders = "(int, FrameDecoder) hmap"

definition register :: "int \<Rightarrow> FrameDecoder \<Rightarrow> FrameDecoders \<Rightarrow> FrameDecoders" where
  "register encoding decoder ds = hm_insert encoding decoder ds"

definition FrameDecoders_default :: "wire \<Rightarrow> FrameDecoders" where
  "FrameDecoders_default w = register (encoding_raw w) (raw_decode w) []"

definition decode_frame :: "FrameDecoders \<Rightarrow> string \<Rightarrow> Frame \<Rightarrow> (CoreError, DecodedFrame) result" where
  "decode_frame ds track frame =
     (case hm_get ds (fr_encoding frame) of
        Some decoder \<Rightarrow> decoder frame
      | None \<Rightarrow> Inl (UnsupportedFrameEncoding track (fr_encoding frame)))"

definition step_failure :: "wire \<Rightarrow> StepResult \<Rightarrow> CoreError option" where
  "step_failure w result =
     (let message = (\<lambda>default. case res_error result of Some e \<Rightarrow> e | None \<Rightarrow> default)
      in case failure_try_from w (res_failure_code result) of
           Some SFC_Unspecified \<Rightarrow> None
         | Some SFC_Failed \<Rightarrow> None
         | Some SFC_Refused \<Rightarrow> Some (StepRefused (message ''the runtime refused the step'') (res_entry result))
         | Some SFC_NotReady \<Rightarrow> Some (StepNotReady (message ''the session cannot run a step yet''))
         | Some SFC_ResultTooLarge \<Rightarrow>
             Some (StepResultTooLarge (message (''the step'' @ [CHR 0x27] @ ''s result does not fit in one message'')))
         | Some SFC_CommandFailed \<Rightarrow>
             Some (StepCommandFailed (message (''one of the step'' @ [CHR 0x27] @ ''s calls failed''))
               (res_code result) (res_entry result))
         | Some SFC_SessionEnded \<Rightarrow>
             Some (StepSessionEnded (message (''the session ended before the step'' @ [CHR 0x27] @ ''s result was sent'')))
         | None \<Rightarrow> Some (StepFailed [] (''step failed with unknown failure code ''
             @ show_int (res_failure_code result) @ '': '' @ message ''no reason given'')))"

definition decode_track :: "wire \<Rightarrow> FrameDecoders \<Rightarrow> TrackFrames \<Rightarrow> (CoreError, TrackOutput) result" where
  "decode_track w ds track =
     bind_result
       (if tf_kind track = kind_video w then Inr Video
        else if tf_kind track = kind_audio w then Inr Audio
        else Inl (Decode (''step result track '' @ [CHR 0x27] @ tf_track track @ [CHR 0x27]
               @ '' has unknown kind '' @ show_int (tf_kind track))))
       (\<lambda>kind. bind_result (collect_results (map (decode_frame ds (tf_track track)) (tf_frames track)))
       (\<lambda>frames. Inr \<lparr> to_track = tf_track track, to_kind = kind, to_frames = frames, to_rate = tf_rate track \<rparr>))"

definition decode_result :: "wire \<Rightarrow> FrameDecoders \<Rightarrow> StepResult \<Rightarrow> (CoreError, StepOutput) result" where
  "decode_result w ds result =
     (case step_failure w result of
        Some failure \<Rightarrow> Inl failure
      | None \<Rightarrow>
          bind_result (collect_results (map (decode_track w ds) (res_tracks result)))
            (\<lambda>outs. Inr \<lparr> so_step = res_step result, so_tracks = outs, so_elapsed = res_elapsed_seconds result,
               so_files = map StepFile_from (res_files result), so_error = res_error result \<rparr>))"

section \<open>Video frames\<close>

lemma length_4_Suc:
  assumes "length xs = 4 * Suc n"
  obtains a b c d ys where "xs = a # b # c # d # ys" and "length ys = 4 * n"
proof -
  have "length xs = Suc (Suc (Suc (Suc (4 * n))))" using assms by simp
  then show ?thesis using that by (auto simp: length_Suc_conv)
qed

lemma flat_chunks4_length:
  assumes "\<And>a b c d. length (f a b c d) = 3"
  shows "length xs = 4 * n \<Longrightarrow> length (flat_chunks4 f xs) = 3 * n"
proof (induction n arbitrary: xs)
  case (Suc n)
  from Suc.prems obtain a b c d ys where "xs = a # b # c # d # ys" "length ys = 4 * n" by (rule length_4_Suc)
  with Suc.IH show ?case by (simp add: assms)
qed simp

lemma flat_chunks4_nth:
  assumes f: "\<And>a b c d. length (f a b c d) = 3"
  shows "length xs = 4 * n \<Longrightarrow> i < n \<Longrightarrow> take 3 (drop (3 * i) (flat_chunks4 f xs)) =
     f (xs ! (4 * i)) (xs ! (4 * i + 1)) (xs ! (4 * i + 2)) (xs ! (4 * i + 3))"
proof (induction n arbitrary: xs i)
  case (Suc n)
  from Suc.prems(1) obtain a b c d ys where xs: "xs = a # b # c # d # ys" and ys: "length ys = 4 * n"
    by (rule length_4_Suc)
  show ?case
  proof (cases i)
    case 0
    with xs f show ?thesis by (simp add: numeral_2_eq_2 numeral_3_eq_3)
  next
    case (Suc j)
    with Suc.prems have "j < n" by simp
    from Suc.IH [OF ys this] show ?thesis
      using xs Suc f by (simp add: numeral_2_eq_2 numeral_3_eq_3)
  qed
qed simp

text \<open>The colour of pixel \<open>i\<close> of a buffer in a given layout.\<close>

fun pixel_rgb :: "PixelLayout \<Rightarrow> bytes \<Rightarrow> nat \<Rightarrow> bytes" where
  "pixel_rgb Rgb p i = [p ! (3 * i), p ! (3 * i + 1), p ! (3 * i + 2)]"
| "pixel_rgb Rgba p i = [p ! (4 * i), p ! (4 * i + 1), p ! (4 * i + 2)]"
| "pixel_rgb Bgra p i = [p ! (4 * i + 2), p ! (4 * i + 1), p ! (4 * i)]"

lemma to_rgb_length: "length p = n * bytes_per_pixel l \<Longrightarrow> length (to_rgb l p) = 3 * n"
  by (cases l) (auto simp: flat_chunks4_length mult.commute)

lemma take3_drop: "j + 2 < length xs \<Longrightarrow> take 3 (drop j xs) = [xs ! j, xs ! (j + 1), xs ! (j + 2)]"
  by (intro nth_equalityI) (auto simp: nth_Cons' less_Suc_eq numeral_3_eq_3)

lemma to_rgb_pixel:
  "length p = n * bytes_per_pixel l \<Longrightarrow> i < n \<Longrightarrow> take 3 (drop (3 * i) (to_rgb l p)) = pixel_rgb l p i"
  using flat_chunks4_nth [of "\<lambda>a b c d. [a, b, c]" p n i] flat_chunks4_nth [of "\<lambda>a b c d. [c, b, a]" p n i]
  by (cases l) (auto simp: take3_drop mult.commute)

section \<open>Audio frames\<close>

lemma step_by_lt: "0 < n \<Longrightarrow> i < length (step_by n xs) \<longleftrightarrow> i * n < length xs"
proof (induction n xs arbitrary: i rule: step_by.induct)
  case (1 n xs)
  show ?case
  proof (cases "xs = []")
    case False
    then have "length (step_by n xs) = Suc (length (step_by n (drop n xs)))"
      using "1.prems" by (subst step_by.simps) simp
    moreover have "j < length (step_by n (drop n xs)) \<longleftrightarrow> j * n + n < length xs" for j
      using "1.IH" [of j] "1.prems" False by auto
    ultimately show ?thesis using False by (cases i) (auto simp: add.commute)
  qed (simp add: step_by.simps)
qed

lemma step_by_nth: "0 < n \<Longrightarrow> i * n < length xs \<Longrightarrow> step_by n xs ! i = xs ! (i * n)"
proof (induction n xs arbitrary: i rule: step_by.induct)
  case (1 n xs)
  then have xs: "xs \<noteq> []" by auto
  then have unfolded: "step_by n xs = hd xs # step_by n (drop n xs)"
    using "1.prems" by (subst step_by.simps) simp
  show ?case
  proof (cases i)
    case (Suc j)
    then have "step_by n (drop n xs) ! j = drop n xs ! (j * n)"
      using "1.IH" [of j] "1.prems" xs by auto
    then show ?thesis using Suc unfolded "1.prems" by simp
  qed (simp add: unfolded xs hd_conv_nth)
qed

lemma step_by_length:
  assumes "0 < n" and "c < n" and "length xs = s * n"
  shows "length (step_by n (drop c xs)) = s"
proof -
  have "i < length (step_by n (drop c xs)) \<longleftrightarrow> i < s" for i
  proof -
    have "i * n + c < s * n \<longleftrightarrow> i < s"
    proof
      assume "i * n + c < s * n"
      then have "i * n < s * n" by linarith
      then show "i < s" using assms(1) by simp
    next
      assume "i < s"
      then have "Suc i * n \<le> s * n" using mult_le_mono1 Suc_leI by blast
      then show "i * n + c < s * n" using assms(2) by simp
    qed
    then show ?thesis using step_by_lt [OF assms(1), of i "drop c xs"] assms(3) by (simp add: less_diff_conv)
  qed
  then show ?thesis by (metis linorder_neq_iff)
qed

lemma concat_uniform_length:
  "(\<And>x. x \<in> set xs \<Longrightarrow> length (f x) = k) \<Longrightarrow> length (concat (map f xs)) = k * length xs"
  by (induction xs) auto

lemma concat_uniform_block:
  "(\<And>x. x \<in> set xs \<Longrightarrow> length (f x) = k) \<Longrightarrow> i < length xs \<Longrightarrow>
     take k (drop (k * i) (concat (map f xs))) = f (xs ! i)"
proof (induction xs arbitrary: i)
  case (Cons x xs)
  then show ?case by (cases i) auto
qed simp

lemma to_le_bytes_length [simp]: "length (to_le_bytes s) = 2"
  by (simp add: to_le_bytes_def)

lemma planar_length:
  assumes "0 < ch" and "length xs = s * ch"
  shows "length (planar ch xs) = 2 * (ch * s)"
proof -
  have "length (concat (map to_le_bytes (step_by ch (drop c xs)))) = 2 * s" if "c < ch" for c
    using concat_uniform_length [of _ to_le_bytes 2] step_by_length [OF assms(1) that assms(2)] by simp
  then show ?thesis
    using concat_uniform_length [of "[0..<ch]" "\<lambda>c. concat (map to_le_bytes (step_by ch (drop c xs)))" "2 * s"]
    by (simp add: planar_def ac_simps)
qed

lemma planar_sample:
  assumes ch: "0 < ch" and len: "length xs = s * ch" and c: "c < ch" and i: "i < s"
  shows "take 2 (drop (2 * (c * s + i)) (planar ch xs)) = to_le_bytes (xs ! (i * ch + c))"
proof -
  let ?block = "\<lambda>c. concat (map to_le_bytes (step_by ch (drop c xs)))"
  have lens: "length (?block d) = 2 * s" if "d < ch" for d
    using concat_uniform_length [of _ to_le_bytes 2] step_by_length [OF ch that len] by simp
  have block: "take (2 * s) (drop (2 * s * c) (planar ch xs)) = ?block c"
    unfolding planar_def using concat_uniform_block [of "[0..<ch]" ?block "2 * s" c] lens c by simp
  have "Suc i * ch \<le> s * ch" using i mult_le_mono1 Suc_leI by blast
  then have lt: "i * ch < length (drop c xs)" using c len by simp
  have "take 2 (drop (2 * (c * s + i)) (planar ch xs)) = take 2 (drop (2 * i) (?block c))"
    unfolding block [symmetric] using i by (simp add: drop_take add_mult_distrib2 ac_simps min_def)
  also have "\<dots> = to_le_bytes (step_by ch (drop c xs) ! i)"
    using concat_uniform_block [of "step_by ch (drop c xs)" to_le_bytes 2 i] step_by_length [OF ch c len] i by simp
  also have "step_by ch (drop c xs) ! i = xs ! (i * ch + c)"
    using step_by_nth [OF ch lt] lt by (simp add: add.commute)
  finally show ?thesis .
qed

section \<open>Properties\<close>

lemma unat_u32_lt: "unat (x :: u32) < 2 ^ 32"
  using unsigned_less [of x, where 'a = nat] by simp

lemma unat_u32_usize: "unat (x :: u32) \<le> usize_max"
  using unat_u32_lt [of x] by (simp add: usize_max_def)

lemma unat_u32_mul_usize: "unat (x :: u32) * unat (y :: u32) \<le> usize_max"
proof -
  have "unat x * unat y \<le> (2 ^ 32 - 1) * (2 ^ 32 - 1)"
    using unat_u32_lt [of x] unat_u32_lt [of y] by (intro mult_le_mono) auto
  also have "\<dots> \<le> usize_max" by (simp add: usize_max_def)
  finally show ?thesis .
qed

lemma raw_video_frame_iff:
  "raw_video_frame w px wd ht l m t = Some f \<longleftrightarrow>
     unat wd * unat ht * bytes_per_pixel l \<le> usize_max
     \<and> length px = unat wd * unat ht * bytes_per_pixel l
     \<and> f = \<lparr> fr_encoding = encoding_raw w, fr_dtype = VIDEO_DTYPE, fr_shape = [ht, wd, 3],
            fr_data = to_rgb l px, fr_metadata = nonempty_metadata m, fr_capture_time_us = t \<rparr>"
  using unat_u32_mul_usize [of wd ht]
  by (auto simp: raw_video_frame_def checked_mul_def split: option.splits if_splits)

lemma try_fold_mul_shape3:
  assumes "a * b * 3 \<le> usize_max" and "unat x = a" and "unat y = b"
  shows "try_fold_mul 1 [x, y, 3] = Some (a * b * 3)"
  using assms unat_u32_usize [of x] unat_u32_mul_usize [of x y] by (auto simp: checked_mul_def)

text \<open>
  a raw video frame is made exactly from a buffer that holds \<open>width * height\<close> pixels of its
  layout. The frame's bytes are, for each pixel in row order, its red, green and blue bytes, whatever
  layout it was pushed in, and the default decoders read the frame back unchanged.
\<close>

theorem raw_video_frame_pixels:
  assumes "raw_video_frame w px wd ht l m t = Some f"
  shows "length px = unat wd * unat ht * bytes_per_pixel l
    \<and> length (fr_data f) = 3 * (unat wd * unat ht)
    \<and> (\<forall>i < unat wd * unat ht. take 3 (drop (3 * i) (fr_data f)) = pixel_rgb l px i)
    \<and> decode_frame (FrameDecoders_default w) track f =
        Inr \<lparr> df_encoding = encoding_raw w, df_dtype = ''uint8'', df_shape = [ht, wd, 3],
              df_data = fr_data f, df_metadata = nonempty_metadata m, df_capture_time_us = t \<rparr>"
proof -
  let ?n = "unat wd * unat ht"
  have f: "f = \<lparr> fr_encoding = encoding_raw w, fr_dtype = VIDEO_DTYPE, fr_shape = [ht, wd, 3],
            fr_data = to_rgb l px, fr_metadata = nonempty_metadata m, fr_capture_time_us = t \<rparr>"
    and len: "length px = ?n * bytes_per_pixel l" and le: "?n * bytes_per_pixel l \<le> usize_max"
    using assms unfolding raw_video_frame_iff by auto
  have rgb: "length (to_rgb l px) = 3 * ?n" by (rule to_rgb_length [OF len])
  have "?n * 3 \<le> ?n * bytes_per_pixel l" by (cases l) simp_all
  then have "?n * 3 \<le> usize_max" using le by (rule order_trans)
  then have "unat ht * unat wd * 3 \<le> usize_max" by (simp add: mult.commute)
  then have "try_fold_mul 1 [ht, wd, 3] = Some (length (to_rgb l px))"
    using try_fold_mul_shape3 [of "unat ht" "unat wd" ht wd] rgb by (simp add: ac_simps)
  then have "decode_frame (FrameDecoders_default w) track f =
        Inr \<lparr> df_encoding = encoding_raw w, df_dtype = ''uint8'', df_shape = [ht, wd, 3],
              df_data = fr_data f, df_metadata = nonempty_metadata m, df_capture_time_us = t \<rparr>"
    unfolding f decode_frame_def FrameDecoders_default_def register_def
    by (simp add: raw_decode_def VIDEO_DTYPE_def dtype_size_def del: try_fold_mul.simps)
  then show ?thesis using len rgb to_rgb_pixel [OF len] f by simp
qed

theorem raw_video_frame_pixels_witness:
  "\<exists>f. raw_video_frame sample_wire [1, 2, 3, 255, 4, 5, 6, 255] 2 1 Bgra None None = Some f
     \<and> take 3 (drop 3 (fr_data f)) = [6, 5, 4]"
proof -
  obtain f where f: "raw_video_frame sample_wire [1, 2, 3, 255, 4, 5, 6, 255] 2 1 Bgra None None = Some f"
    by (simp add: raw_video_frame_def checked_mul_def usize_max_def)
  have "\<forall>i < unat (2 :: u32) * unat (1 :: u32). take 3 (drop (3 * i) (fr_data f)) = pixel_rgb Bgra [1, 2, 3, 255, 4, 5, 6, 255] i"
    using raw_video_frame_pixels [OF f, of "[]"] by blast
  then have "take 3 (drop (3 * 1) (fr_data f)) = pixel_rgb Bgra [1, 2, 3, 255, 4, 5, 6, 255] 1"
    by (rule allE [of _ 1]) simp
  moreover have "pixel_rgb Bgra [1, 2, 3, 255, 4, 5, 6, 255] 1 = [6, 5, 4]" by simp
  ultimately show ?thesis using f by (simp only: mult_1_right) blast
qed

text \<open>
  A raw audio frame is made exactly from samples that divide into a positive number of channels
  (fewer than \<open>2 ^ 63\<close> of them, which no allocation reaches).
  Sample \<open>i\<close> of channel \<open>c\<close>, interleaved when pushed, is the \<open>i\<close>-th of the \<open>c\<close>-th plane, little-endian,
  and the default decoders read the frame back unchanged.
\<close>

theorem raw_audio_frame_samples:
  assumes "raw_audio_frame w xs num = Some f" and "length xs < 2 ^ 63"
  defines "ch \<equiv> unat num" and "s \<equiv> length xs div unat num"
  shows "0 < ch \<and> length xs = s * ch \<and> fr_shape f = [num, of_nat s] \<and> unat (of_nat s :: u32) = s
    \<and> (\<forall>c < ch. \<forall>i < s. take 2 (drop (2 * (c * s + i)) (fr_data f)) = to_le_bytes (xs ! (i * ch + c)))
    \<and> decode_frame (FrameDecoders_default w) track f =
        Inr \<lparr> df_encoding = encoding_raw w, df_dtype = ''int16'', df_shape = fr_shape f,
              df_data = fr_data f, df_metadata = None, df_capture_time_us = None \<rparr>"
proof -
  have ch: "0 < ch" and len: "length xs = s * ch" and small: "s < 2 ^ 32"
    and f: "f = \<lparr> fr_encoding = encoding_raw w, fr_dtype = AUDIO_DTYPE, fr_shape = [num, of_nat s],
                 fr_data = planar ch xs, fr_metadata = None, fr_capture_time_us = None \<rparr>"
    using assms(1) unfolding ch_def s_def by (auto simp: raw_audio_frame_def Let_def split: if_splits)
  have s: "unat (of_nat s :: u32) = s" using small by (simp add: unsigned_of_nat take_bit_nat_eq_self)
  have dlen: "length (planar ch xs) = 2 * (ch * s)" by (rule planar_length [OF ch len])
  have "2 * ch * s \<le> usize_max" using assms(2) len by (simp add: usize_max_def ac_simps)
  moreover have "2 * ch \<le> usize_max" using unat_u32_lt [of num] by (simp add: ch_def usize_max_def)
  ultimately have "try_fold_mul 2 [num, of_nat s] = Some (length (planar ch xs))"
    using dlen s by (simp add: checked_mul_def ch_def ac_simps)
  then have "decode_frame (FrameDecoders_default w) track f =
        Inr \<lparr> df_encoding = encoding_raw w, df_dtype = ''int16'', df_shape = fr_shape f,
              df_data = fr_data f, df_metadata = None, df_capture_time_us = None \<rparr>"
    unfolding f decode_frame_def FrameDecoders_default_def register_def
    by (simp add: raw_decode_def AUDIO_DTYPE_def dtype_size_def del: try_fold_mul.simps)
  then show ?thesis using ch len s f planar_sample [OF ch len] by simp
qed

theorem raw_audio_frame_samples_witness:
  "\<exists>f. raw_audio_frame sample_wire [1, 2, 3, 4] 2 = Some f
     \<and> take 2 (drop (2 * (1 * 2 + 1)) (fr_data f)) = to_le_bytes 4"
proof -
  obtain f where f: "raw_audio_frame sample_wire [1, 2, 3, 4] 2 = Some f"
    by (simp add: raw_audio_frame_def)
  have "\<forall>c < unat (2 :: u32). \<forall>i < length [1, 2, 3, 4 :: u16] div unat (2 :: u32).
      take 2 (drop (2 * (c * (length [1, 2, 3, 4 :: u16] div unat (2 :: u32)) + i)) (fr_data f))
        = to_le_bytes ([1, 2, 3, 4] ! (i * unat (2 :: u32) + c))"
    using raw_audio_frame_samples [OF f, of "[]"] by simp
  then have "\<forall>c < 2. \<forall>i < 2. take 2 (drop (2 * (c * 2 + i)) (fr_data f)) = to_le_bytes ([1, 2, 3, 4] ! (i * 2 + c))"
    by simp
  then have "take 2 (drop (2 * (1 * 2 + 1)) (fr_data f)) = to_le_bytes ([1, 2, 3, 4] ! (1 * 2 + 1))"
    by (metis one_less_numeral_iff semiring_norm(76))
  moreover have "[1, 2, 3, 4 :: u16] ! (1 * 2 + 1) = 4" by simp
  ultimately show ?thesis using f by metis
qed

lemma decode_track_ok:
  "decode_track w ds t = Inr out \<Longrightarrow>
     to_track out = tf_track t \<and> to_rate out = tf_rate t
     \<and> list_all2 (\<lambda>f d. decode_frame ds (tf_track t) f = Inr d) (tf_frames t) (to_frames out)"
  by (auto simp: decode_track_def result_simps collect_results_Inr_iff list_all2_conv_all_nth
      split: sum.splits if_splits) (metis length_map nth_map)+

lemma step_failure_by_code:
  assumes "wire_ok w" and "res_failure_code r = failure_number w c"
  shows "map_option code (step_failure w r) =
    (case c of SFC_Unspecified \<Rightarrow> None | SFC_Failed \<Rightarrow> None | SFC_Refused \<Rightarrow> Some STEP_REFUSED
     | SFC_NotReady \<Rightarrow> Some STEP_NOT_READY | SFC_ResultTooLarge \<Rightarrow> Some STEP_RESULT_TOO_LARGE
     | SFC_CommandFailed \<Rightarrow> Some STEP_COMMAND_FAILED | SFC_SessionEnded \<Rightarrow> Some STEP_SESSION_ENDED)"
  using assms by (cases c) (simp_all add: step_failure_def)

text \<open>
  A step's outcome is its failure code. A result with a code for a step that did not run, ended or
  was too large is that error and no other; an unknown code is an error; and an output is only ever a
  complete one, with the result's step number, its tracks in order and, in each, every frame decoded,
  in order.
\<close>

theorem decode_result_outcome:
  assumes "wire_ok w"
  shows "(case decode_result w ds r of
      Inr out \<Rightarrow>
        res_failure_code r \<in> {failure_number w SFC_Unspecified, failure_number w SFC_Failed}
        \<and> so_step out = res_step r \<and> so_error out = res_error r
        \<and> list_all2 (\<lambda>t out. to_track out = tf_track t \<and> to_rate out = tf_rate t
             \<and> list_all2 (\<lambda>f d. decode_frame ds (tf_track t) f = Inr d) (tf_frames t) (to_frames out))
            (res_tracks r) (so_tracks out)
    | Inl e \<Rightarrow>
        (res_failure_code r = failure_number w SFC_Refused \<longrightarrow> code e = STEP_REFUSED)
        \<and> (res_failure_code r = failure_number w SFC_NotReady \<longrightarrow> code e = STEP_NOT_READY)
        \<and> (res_failure_code r = failure_number w SFC_ResultTooLarge \<longrightarrow> code e = STEP_RESULT_TOO_LARGE)
        \<and> (res_failure_code r = failure_number w SFC_CommandFailed \<longrightarrow> code e = STEP_COMMAND_FAILED)
        \<and> (res_failure_code r = failure_number w SFC_SessionEnded \<longrightarrow> code e = STEP_SESSION_ENDED))"
proof (cases "step_failure w r")
  case None
  then have known: "res_failure_code r \<in> {failure_number w SFC_Unspecified, failure_number w SFC_Failed}"
    using assms
    by (auto simp: step_failure_def Let_def failure_try_from_def find_Some_iff
        split: option.splits StepFailureCode.splits)
  show ?thesis
  proof (cases "collect_results (map (decode_track w ds) (res_tracks r))")
    case (Inr outs)
    then have "list_all2 (\<lambda>t out. decode_track w ds t = Inr out) (res_tracks r) outs"
      by (auto simp: collect_results_Inr_iff list_all2_conv_all_nth) (metis length_map nth_map)+
    then have "list_all2 (\<lambda>t out. to_track out = tf_track t \<and> to_rate out = tf_rate t
             \<and> list_all2 (\<lambda>f d. decode_frame ds (tf_track t) f = Inr d) (tf_frames t) (to_frames out))
            (res_tracks r) outs"
      by (rule list_all2_mono) (rule decode_track_ok)
    with None Inr known show ?thesis by (simp add: decode_result_def result_simps)
  next
    case (Inl e)
    with None known assms show ?thesis
      by (auto simp: decode_result_def result_simps wire_ok_def inj_eq)
  qed
next
  case (Some e)
  note by_code = step_failure_by_code [OF assms, of r]
  from Some show ?thesis
    using by_code [of SFC_Refused] by_code [of SFC_NotReady] by_code [of SFC_ResultTooLarge]
      by_code [of SFC_CommandFailed] by_code [of SFC_SessionEnded]
    by (simp add: decode_result_def)
qed

theorem decode_result_outcome_witness:
  "wire_ok sample_wire \<and> (\<exists>e. decode_result sample_wire [] \<lparr> res_step = 1, res_tracks = [], res_elapsed_seconds = Fin 0,
     res_files = [], res_error = None, res_failure_code = 2, res_code = None, res_entry = None \<rparr> = Inl e
     \<and> code e = STEP_REFUSED)"
proof (rule conjI)
  show "\<exists>e. decode_result sample_wire [] \<lparr> res_step = 1, res_tracks = [], res_elapsed_seconds = Fin 0,
     res_files = [], res_error = None, res_failure_code = 2, res_code = None, res_entry = None \<rparr> = Inl e
     \<and> code e = STEP_REFUSED"
    using decode_result_outcome [OF sample_wire_ok, where ds = "[]" and r = "\<lparr> res_step = 1, res_tracks = [],
      res_elapsed_seconds = Fin 0, res_files = [], res_error = None, res_failure_code = 2, res_code = None,
      res_entry = None \<rparr>"]
    by (auto simp: sample_wire_def split: sum.splits)
qed (rule sample_wire_ok)

end
