(* ===== verification/Step_Inputs.thy ===== *)
theory Step_Inputs
  imports Step_Frames
begin

text \<open>
  The input frames pushed between two steps (\<^verbatim>\<open>step/inputs.rs\<close>): a buffer held to one message's
  worth, which pushes out its oldest frames. An index out of range, a removal from an empty list and a
  subtraction below zero would panic; they are \<^const>\<open>None\<close> in the model, and the properties show
  that none happens. The buffer refines a first-in first-out queue of frames.
\<close>

section \<open>The buffer\<close>

record Buffered =
  bu_tracks :: "TrackFrames list"
  bu_order :: "nat list"
  bu_bytes :: nat
  bu_dropped :: nat
  cut_encoded :: "string list"

definition Buffered_default :: Buffered where
  "Buffered_default = \<lparr> bu_tracks = [], bu_order = [], bu_bytes = 0, bu_dropped = 0, cut_encoded = [] \<rparr>"

definition is_encoded :: "wire \<Rightarrow> Frame \<Rightarrow> bool" where
  "is_encoded w frame \<longleftrightarrow> \<not> (fr_encoding frame = encoding_raw w \<or> fr_encoding frame = encoding_unspecified w)"

definition REQUEST_STEP_ENVELOPE_BYTES :: nat where
  "REQUEST_STEP_ENVELOPE_BYTES = 64"

definition frame_bytes :: "wire \<Rightarrow> Frame \<Rightarrow> nat" where
  "frame_bytes w frame = (let len = frame_len w frame in 1 + length_delimiter_len w len + len)"

definition track_bytes :: "wire \<Rightarrow> TrackFrames \<Rightarrow> nat" where
  "track_bytes w frames = 1 + length_delimiter_len w (2 ^ 32 - 1) + track_frames_len w frames"

fun position :: "('a \<Rightarrow> bool) \<Rightarrow> 'a list \<Rightarrow> nat option" where
  "position p [] = None"
| "position p (x # xs) = (if p x then Some 0 else map_option Suc (position p xs))"

definition add :: "wire \<Rightarrow> string \<Rightarrow> int \<Rightarrow> Frame \<Rightarrow> Buffered \<Rightarrow> Buffered" where
  "add w track kind frame b =
     (let (index, b) = (case position (\<lambda>t. tf_track t = track) (bu_tracks b) of
          Some index \<Rightarrow> (index, b)
        | None \<Rightarrow>
            let frames = \<lparr> tf_track = track, tf_kind = kind, tf_frames = [], tf_rate = Fin 0 \<rparr>
            in (length (bu_tracks b), b\<lparr>bu_bytes := bu_bytes b + track_bytes w frames,
                                        bu_tracks := bu_tracks b @ [frames]\<rparr>))
      in b\<lparr>bu_bytes := bu_bytes b + frame_bytes w frame,
           bu_tracks := (bu_tracks b)[index := (bu_tracks b ! index)\<lparr>tf_frames := tf_frames (bu_tracks b ! index) @ [frame]\<rparr>],
           bu_order := bu_order b @ [index]\<rparr>)"

text \<open>One round of the trimming loop: the oldest frame leaves, and its track with its last frame.\<close>

definition trim_oldest :: "wire \<Rightarrow> Buffered \<Rightarrow> Buffered option" where
  "trim_oldest w b =
     (case bu_order b of
        [] \<Rightarrow> None
      | index # order \<Rightarrow>
          if length (bu_tracks b) \<le> index then None
          else (case tf_frames (bu_tracks b ! index) of
              [] \<Rightarrow> None
            | frame # frames \<Rightarrow>
                let track = (bu_tracks b ! index)\<lparr>tf_frames := frames\<rparr>;
                    name = tf_track track;
                    bytes = bu_bytes b - frame_bytes w frame;
                    cut = (if is_encoded w frame \<and> name \<notin> set (cut_encoded b)
                           then cut_encoded b @ [name] else cut_encoded b);
                    b' = b\<lparr>bu_order := order, bu_tracks := (bu_tracks b)[index := track],
                           bu_bytes := bytes, bu_dropped := bu_dropped b + 1, cut_encoded := cut\<rparr>
                in if bu_bytes b < frame_bytes w frame then None
                   else if frames \<noteq> [] then Some b'
                   else if bytes < track_bytes w track then None
                   else Some (b'\<lparr>bu_tracks := take index (bu_tracks b) @ drop (Suc index) (bu_tracks b),
                                 bu_bytes := bytes - track_bytes w track,
                                 cut_encoded := filter (\<lambda>c. c \<noteq> name) cut,
                                 bu_order := map (\<lambda>i. if i > index then i - 1 else i) order\<rparr>)))"

lemma trim_oldest_order: "trim_oldest w b = Some b' \<Longrightarrow> length (bu_order b') < length (bu_order b)"
  by (auto simp: trim_oldest_def Let_def split: list.splits if_splits)

function trim_buffer :: "wire \<Rightarrow> nat \<Rightarrow> Buffered \<Rightarrow> Buffered option" where
  "trim_buffer w max_bytes b =
     (if bu_bytes b > max_bytes \<and> length (bu_order b) > 1
      then (case trim_oldest w b of None \<Rightarrow> None | Some b' \<Rightarrow> trim_buffer w max_bytes b')
      else Some b)"
  by pat_completeness auto
termination
  by (relation "measure (\<lambda>(w, m, b). length (bu_order b))") (auto dest: trim_oldest_order)

declare trim_buffer.simps [simp del]

definition push :: "wire \<Rightarrow> string \<Rightarrow> int \<Rightarrow> Frame \<Rightarrow> nat \<Rightarrow> Buffered \<Rightarrow> Buffered option" where
  "push w track kind frame max_bytes b =
     trim_buffer w (saturating_sub max_bytes REQUEST_STEP_ENVELOPE_BYTES) (add w track kind frame b)"

definition take_inputs :: "wire \<Rightarrow> Buffered \<Rightarrow> (CoreError, TrackFrames list) result \<times> Buffered" where
  "take_inputs w b =
     (let ts = filter (\<lambda>t. tf_frames t \<noteq> []) (bu_tracks b);
          cut = (\<lambda>t. tf_track t \<in> set (cut_encoded b) \<and> list_ex (is_encoded w) (tf_frames t))
      in (case position cut ts of
            Some index \<Rightarrow>
              Inl (StepRefused
                (''the encoded frames of '' @ [CHR 0x27] @ tf_track (ts ! index) @ [CHR 0x27] @
                 '' no longer start at their keyframe: frames pushed past one message'' @ [CHR 0x27] @
                 ''s worth pushed out the oldest. Push a shorter window, or fewer frames alongside it'')
                (Some (''media_input['' @ show_nat index @ '']'')))
          | None \<Rightarrow> Inr ts,
          Buffered_default))"

definition clear_inputs :: "Buffered \<Rightarrow> Buffered" where
  "clear_inputs b = Buffered_default"

definition len_inputs :: "Buffered \<Rightarrow> nat" where
  "len_inputs b = length (bu_order b)"

section \<open>The queue it refines\<close>

text \<open>
  The abstract buffer: the frames kept, oldest first, each with its track, and the frames pushed out of
  tracks that still have frames.
\<close>

record fifo =
  kept :: "(string \<times> Frame) list"
  lost :: "(string \<times> Frame) list"

definition fifo_push :: "string \<times> Frame \<Rightarrow> fifo \<Rightarrow> fifo" where
  "fifo_push x q = q\<lparr>kept := kept q @ [x]\<rparr>"

fun fifo_drop :: "fifo \<Rightarrow> fifo" where
  "fifo_drop q = (case kept q of
     [] \<Rightarrow> q
   | (n, f) # xs \<Rightarrow> \<lparr> kept = xs,
       lost = (if n \<in> fst ` set xs then lost q @ [(n, f)] else filter (\<lambda>(m, _). m \<noteq> n) (lost q)) \<rparr>)"

definition track_cost :: "wire \<Rightarrow> TrackFrames \<Rightarrow> nat" where
  "track_cost w t = track_bytes w (t\<lparr>tf_frames := []\<rparr>)"

definition frames_of :: "(string \<times> Frame) list \<Rightarrow> string \<Rightarrow> Frame list" where
  "frames_of xs n = map snd (filter (\<lambda>x. fst x = n) xs)"

definition encoded_names :: "wire \<Rightarrow> (string \<times> Frame) list \<Rightarrow> string set" where
  "encoded_names w xs = fst ` set (filter (\<lambda>x. is_encoded w (snd x)) xs)"

definition track_names :: "Buffered \<Rightarrow> string list" where
  "track_names b = map tf_track (bu_tracks b)"

text \<open>
  The refinement relation: the tracks hold exactly the kept frames, each track its own in push order,
  \<open>bu_order\<close> spells the push order over them, \<open>bu_bytes\<close> is the encoded size of it all, and the cut
  tracks are those that lost an encoded frame.
\<close>

definition refines :: "wire \<Rightarrow> Buffered \<Rightarrow> fifo \<Rightarrow> bool" where
  "refines w b q \<longleftrightarrow>
     distinct (track_names b)
     \<and> set (track_names b) = fst ` set (kept q)
     \<and> (\<forall>i \<in> set (bu_order b). i < length (bu_tracks b))
     \<and> map (\<lambda>i. track_names b ! i) (bu_order b) = map fst (kept q)
     \<and> (\<forall>t \<in> set (bu_tracks b). tf_frames t = frames_of (kept q) (tf_track t))
     \<and> bu_bytes b = sum_list (map (track_cost w) (bu_tracks b)) + sum_list (map (frame_bytes w \<circ> snd) (kept q))
     \<and> set (cut_encoded b) = encoded_names w (lost q)
     \<and> fst ` set (lost q) \<subseteq> fst ` set (kept q)"

section \<open>Each operation refines the queue\<close>

lemma position_Some: "position p xs = Some i \<Longrightarrow> i < length xs \<and> p (xs ! i)"
  by (induction xs arbitrary: i) (auto split: if_splits)

lemma position_None: "position p xs = None \<longleftrightarrow> (\<forall>x \<in> set xs. \<not> p x)"
  by (induction xs) auto

lemma map_update_same: "i < length xs \<Longrightarrow> f y = f (xs ! i) \<Longrightarrow> map f (xs[i := y]) = map f xs"
  by (metis list_update_id map_update)

lemma set_update_memE:
  assumes "t \<in> set (xs[i := y])" and "i < length xs"
  obtains "t = y" | j where "j < length xs" "j \<noteq> i" "t = xs ! j"
  using assms by (auto simp: in_set_conv_nth nth_list_update split: if_splits)

lemma frames_of_Nil [simp]: "frames_of [] n = []"
  by (simp add: frames_of_def)

lemma frames_of_Cons [simp]: "frames_of (x # xs) n = (if fst x = n then snd x # frames_of xs n else frames_of xs n)"
  by (simp add: frames_of_def)

lemma frames_of_append [simp]: "frames_of (xs @ ys) n = frames_of xs n @ frames_of ys n"
  by (simp add: frames_of_def)

lemma frames_of_empty_iff: "frames_of xs n = [] \<longleftrightarrow> n \<notin> fst ` set xs"
  by (induction xs) auto

lemma encoded_names_Nil [simp]: "encoded_names w [] = {}"
  by (simp add: encoded_names_def)

lemma encoded_names_snoc [simp]:
  "encoded_names w (xs @ [x]) =
     (if is_encoded w (snd x) then insert (fst x) (encoded_names w xs) else encoded_names w xs)"
  by (simp add: encoded_names_def)

lemma encoded_names_filter [simp]:
  "encoded_names w (filter (\<lambda>(m, _). m \<noteq> n) xs) = encoded_names w xs - {n}"
  by (auto simp: encoded_names_def image_iff)

lemma refines_default: "refines w Buffered_default \<lparr> kept = [], lost = [] \<rparr>"
  by (simp add: refines_def Buffered_default_def track_names_def)

lemma refinesD:
  assumes "refines w b q"
  shows "distinct (track_names b)" and "set (track_names b) = fst ` set (kept q)"
    and "\<And>i. i \<in> set (bu_order b) \<Longrightarrow> i < length (bu_tracks b)"
    and "map (\<lambda>i. track_names b ! i) (bu_order b) = map fst (kept q)"
    and "\<And>t. t \<in> set (bu_tracks b) \<Longrightarrow> tf_frames t = frames_of (kept q) (tf_track t)"
    and "bu_bytes b = sum_list (map (track_cost w) (bu_tracks b)) + sum_list (map (frame_bytes w \<circ> snd) (kept q))"
    and "set (cut_encoded b) = encoded_names w (lost q)"
    and "fst ` set (lost q) \<subseteq> fst ` set (kept q)"
  using assms by (simp_all add: refines_def)

lemma track_names_nth: "i < length (bu_tracks b) \<Longrightarrow> track_names b ! i = tf_track (bu_tracks b ! i)"
  by (simp add: track_names_def)

text \<open>Adding to a known track and adding a new one.\<close>

lemma add_known:
  assumes r: "refines w b q" and pos: "position (\<lambda>t. tf_track t = tr) (bu_tracks b) = Some i"
  shows "refines w (add w tr k f b) (fifo_push (tr, f) q)"
proof -
  let ?t = "bu_tracks b ! i"
  let ?u = "?t\<lparr>tf_frames := tf_frames ?t @ [f]\<rparr>"
  let ?ts = "(bu_tracks b)[i := ?u]"
  have i: "i < length (bu_tracks b)" and name: "tf_track ?t = tr" using position_Some [OF pos] by auto
  have names: "map tf_track ?ts = track_names b"
    using map_update_same [OF i, of tf_track ?u] by (simp add: track_names_def)
  have costs: "map (track_cost w) ?ts = map (track_cost w) (bu_tracks b)"
    using map_update_same [OF i, of "track_cost w" ?u] by (simp add: track_cost_def)
  have frames: "tf_frames t = frames_of (kept q @ [(tr, f)]) (tf_track t)" if "t \<in> set ?ts" for t
    using that i
  proof (cases rule: set_update_memE)
    case 1
    then show ?thesis using refinesD(5) [OF r, of ?t] i name by simp
  next
    case (2 j)
    then have "tf_track t \<noteq> tr"
      using refinesD(1) [OF r] i name by (auto simp: track_names_def distinct_conv_nth)
    then show ?thesis using refinesD(5) [OF r, of t] 2 by simp
  qed
  have mem: "tr \<in> fst ` set (kept q)"
    using refinesD(2) [OF r] i name by (metis nth_mem length_map track_names_def nth_map)
  have add_eq: "add w tr k f b = b\<lparr>bu_bytes := bu_bytes b + frame_bytes w f, bu_tracks := ?ts,
      bu_order := bu_order b @ [i]\<rparr>"
    by (simp add: add_def pos)
  show ?thesis
    unfolding refines_def add_eq
    using refinesD [OF r] names costs frames mem i name
    by (auto simp: fifo_push_def track_names_def)
qed

lemma add_new:
  assumes r: "refines w b q" and pos: "position (\<lambda>t. tf_track t = tr) (bu_tracks b) = None"
  shows "refines w (add w tr k f b) (fifo_push (tr, f) q)"
proof -
  let ?new = "\<lparr> tf_track = tr, tf_kind = k, tf_frames = [f], tf_rate = Fin 0 \<rparr>"
  have fresh: "tr \<notin> set (track_names b)" using pos by (auto simp: position_None track_names_def)
  then have empty: "frames_of (kept q) tr = []"
    using refinesD(2) [OF r] by (simp add: frames_of_empty_iff)
  have frames: "tf_frames t = frames_of (kept q @ [(tr, f)]) (tf_track t)" if "t \<in> set (bu_tracks b)" for t
  proof -
    have "tr \<noteq> tf_track t" using that fresh by (auto simp: track_names_def)
    then show ?thesis using refinesD(5) [OF r that] by simp
  qed
  have order: "map (\<lambda>i. (track_names b @ [tr]) ! i) (bu_order b) = map (\<lambda>i. track_names b ! i) (bu_order b)"
    using refinesD(3) [OF r] by (simp add: nth_append track_names_def)
  have add_eq: "add w tr k f b = b\<lparr>bu_bytes := bu_bytes b + track_cost w ?new + frame_bytes w f,
      bu_tracks := bu_tracks b @ [?new], bu_order := bu_order b @ [length (bu_tracks b)]\<rparr>"
    by (simp add: add_def pos track_cost_def Let_def)
  have names: "track_names (b\<lparr>bu_bytes := x, bu_tracks := bu_tracks b @ [?new], bu_order := y\<rparr>) = track_names b @ [tr]" for x y
    by (simp add: track_names_def)
  have last: "(track_names b @ [tr]) ! length (bu_tracks b) = tr"
    by (simp add: nth_append track_names_def)
  show ?thesis
    unfolding refines_def add_eq names
    using refinesD [OF r] frames order empty fresh last
    by (auto simp: fifo_push_def less_SucI)
qed

lemma add_refines: "refines w b q \<Longrightarrow> refines w (add w tr k f b) (fifo_push (tr, f) q)"
  using add_known add_new by (cases "position (\<lambda>t. tf_track t = tr) (bu_tracks b)") auto

text \<open>The oldest frame, its track, and the room the two take.\<close>

lemma refines_oldest:
  assumes r: "refines w b q" and q: "kept q = (n, f) # xs"
  obtains i order where "bu_order b = i # order" and "i < length (bu_tracks b)"
    and "tf_track (bu_tracks b ! i) = n" and "tf_frames (bu_tracks b ! i) = f # frames_of xs n"
    and "map (\<lambda>i. track_names b ! i) order = map fst xs"
    and "frame_bytes w f + track_cost w (bu_tracks b ! i) \<le> bu_bytes b"
proof -
  obtain i order where o: "bu_order b = i # order" and n: "track_names b ! i = n"
    and rest: "map (\<lambda>i. track_names b ! i) order = map fst xs"
    using refinesD(4) [OF r] q by (cases "bu_order b") auto
  have i: "i < length (bu_tracks b)" using refinesD(3) [OF r] o by simp
  have t: "tf_track (bu_tracks b ! i) = n" using n i by (simp add: track_names_nth)
  have fr: "tf_frames (bu_tracks b ! i) = f # frames_of xs n"
    using refinesD(5) [OF r, of "bu_tracks b ! i"] i t q by simp
  have "track_cost w (bu_tracks b ! i) \<le> sum_list (map (track_cost w) (bu_tracks b))"
    using elem_le_sum_list [of i "map (track_cost w) (bu_tracks b)"] i by simp
  then have "frame_bytes w f + track_cost w (bu_tracks b ! i) \<le> bu_bytes b"
    using refinesD(6) [OF r] q by simp
  with that o i t fr rest show ?thesis by blast
qed

lemma trim_oldest_keeps_track:
  assumes r: "refines w b q" and q: "kept q = (n, f) # xs" and more: "frames_of xs n \<noteq> []"
  shows "\<exists>b'. trim_oldest w b = Some b' \<and> refines w b' (fifo_drop q) \<and> bu_dropped b' = Suc (bu_dropped b)"
proof -
  obtain i order where o: "bu_order b = i # order" and i: "i < length (bu_tracks b)"
    and t: "tf_track (bu_tracks b ! i) = n" and fr: "tf_frames (bu_tracks b ! i) = f # frames_of xs n"
    and rest: "map (\<lambda>i. track_names b ! i) order = map fst xs"
    and room: "frame_bytes w f + track_cost w (bu_tracks b ! i) \<le> bu_bytes b"
    by (rule refines_oldest [OF r q])
  let ?u = "(bu_tracks b ! i)\<lparr>tf_frames := frames_of xs n\<rparr>"
  let ?ts = "(bu_tracks b)[i := ?u]"
  let ?cut = "if is_encoded w f \<and> n \<notin> set (cut_encoded b) then cut_encoded b @ [n] else cut_encoded b"
  let ?b = "b\<lparr>bu_order := order, bu_tracks := ?ts, bu_bytes := bu_bytes b - frame_bytes w f,
              bu_dropped := bu_dropped b + 1, cut_encoded := ?cut\<rparr>"
  have step: "trim_oldest w b = Some ?b"
    using o i t fr more room by (simp add: trim_oldest_def Let_def)
  have names: "track_names ?b = track_names b"
    using map_update_same [OF i, of tf_track ?u] by (simp add: track_names_def)
  have costs: "map (track_cost w) ?ts = map (track_cost w) (bu_tracks b)"
    using map_update_same [OF i, of "track_cost w" ?u] by (simp add: track_cost_def)
  have frames: "tf_frames t' = frames_of xs (tf_track t')" if "t' \<in> set ?ts" for t'
    using that i
  proof (cases rule: set_update_memE)
    case 1
    then show ?thesis using t by simp
  next
    case (2 j)
    then have "tf_track t' \<noteq> n"
      using refinesD(1) [OF r] i t by (auto simp: track_names_def distinct_conv_nth)
    then show ?thesis using refinesD(5) [OF r, of t'] 2 q by simp
  qed
  have mem: "n \<in> fst ` set xs" using more by (simp add: frames_of_empty_iff)
  have drop: "fifo_drop q = \<lparr> kept = xs, lost = lost q @ [(n, f)] \<rparr>" using q mem by simp
  have cut: "set ?cut = encoded_names w (lost q @ [(n, f)])"
    using refinesD(7) [OF r] by auto
  have set: "fst ` set (kept q) = fst ` set xs" using q mem by auto
  have lost: "fst ` set (lost q @ [(n, f)]) \<subseteq> fst ` set xs" using refinesD(8) [OF r] set mem by auto
  have idx: "\<forall>j \<in> set order. j < length ?ts" using refinesD(3) [OF r] o by simp
  have bytes: "bu_bytes b - frame_bytes w f
      = sum_list (map (track_cost w) (bu_tracks b)) + sum_list (map (frame_bytes w \<circ> snd) xs)"
    using refinesD(6) [OF r] q by simp
  have "refines w ?b (fifo_drop q)"
    unfolding refines_def drop names
    using refinesD(1,2) [OF r] set costs frames rest cut lost idx bytes by simp
  with step show ?thesis by auto
qed

lemma nth_remove_shift:
  assumes "i < length xs" and "j < length xs" and "j \<noteq> i"
  shows "(take i xs @ drop (Suc i) xs) ! (if i < j then j - 1 else j) = xs ! j"
  using assms by (auto simp: nth_append min_def)

lemma distinct_middle:
  "xs = a @ n # c \<Longrightarrow> distinct xs \<Longrightarrow> distinct (a @ c) \<and> n \<notin> set (a @ c) \<and> set xs = insert n (set (a @ c))"
  by auto

lemma trim_oldest_drops_track:
  assumes r: "refines w b q" and q: "kept q = (n, f) # xs" and none: "frames_of xs n = []"
  shows "\<exists>b'. trim_oldest w b = Some b' \<and> refines w b' (fifo_drop q) \<and> bu_dropped b' = Suc (bu_dropped b)"
proof -
  obtain i order where o: "bu_order b = i # order" and i: "i < length (bu_tracks b)"
    and t: "tf_track (bu_tracks b ! i) = n" and fr: "tf_frames (bu_tracks b ! i) = f # frames_of xs n"
    and rest: "map (\<lambda>i. track_names b ! i) order = map fst xs"
    and room: "frame_bytes w f + track_cost w (bu_tracks b ! i) \<le> bu_bytes b"
    by (rule refines_oldest [OF r q])
  let ?ts = "take i (bu_tracks b) @ drop (Suc i) (bu_tracks b)"
  let ?cut = "filter (\<lambda>c. c \<noteq> n) (if is_encoded w f \<and> n \<notin> set (cut_encoded b) then cut_encoded b @ [n] else cut_encoded b)"
  let ?shift = "\<lambda>j. if j > i then j - 1 else j"
  let ?b = "b\<lparr>bu_order := map ?shift order, bu_tracks := ?ts,
              bu_bytes := bu_bytes b - frame_bytes w f - track_cost w (bu_tracks b ! i),
              bu_dropped := bu_dropped b + 1, cut_encoded := ?cut\<rparr>"
  have step: "trim_oldest w b = Some ?b"
    using o i t fr none room by (simp add: trim_oldest_def Let_def track_cost_def)
  have gone: "n \<notin> fst ` set xs" using none by (simp add: frames_of_empty_iff)
  have drop: "fifo_drop q = \<lparr> kept = xs, lost = filter (\<lambda>(m, _). m \<noteq> n) (lost q) \<rparr>" using q gone by simp
  have names: "track_names ?b = take i (track_names b) @ drop (Suc i) (track_names b)"
    by (simp add: track_names_def take_map drop_map)
  have split: "track_names b = take i (track_names b) @ n # drop (Suc i) (track_names b)"
    using i t by (metis id_take_nth_drop length_map track_names_def track_names_nth)
  have parts: "distinct (track_names ?b)" "n \<notin> set (track_names ?b)"
      "set (track_names b) = insert n (set (track_names ?b))"
    unfolding names using distinct_middle [OF split refinesD(1) [OF r]] by auto
  from parts have set: "set (track_names ?b) = fst ` set xs"
    using refinesD(2) [OF r] q gone by auto
  have other: "j < length (bu_tracks b) \<and> j \<noteq> i" if "j \<in> set order" for j
  proof
    show "j < length (bu_tracks b)" using that refinesD(3) [OF r] o by simp
    have "track_names b ! j \<in> fst ` set xs" using that rest by (metis (no_types, lifting) image_eqI list.set_map)
    then show "j \<noteq> i" using gone i t by (metis track_names_nth)
  qed
  have order: "map (\<lambda>j. track_names ?b ! j) (map ?shift order) = map fst xs"
    unfolding rest [symmetric] names
    using other nth_remove_shift [of i "track_names b"] i by (auto simp: track_names_def)
  have idx: "\<forall>j \<in> set (map ?shift order). j < length ?ts" using other i by fastforce
  have whole: "bu_tracks b = take i (bu_tracks b) @ (bu_tracks b ! i) # drop (Suc i) (bu_tracks b)"
    using i by (rule id_take_nth_drop)
  have "set ?ts \<subseteq> set (bu_tracks b)" by (metis set_append set_drop_subset set_take_subset Un_least)
  then have frames: "tf_frames t' = frames_of xs (tf_track t')" if "t' \<in> set ?ts" for t'
  proof -
    have "tf_track t' \<in> set (track_names ?b)" using that by (auto simp: track_names_def)
    then show ?thesis using parts(2) refinesD(5) [OF r, of t'] that \<open>set ?ts \<subseteq> set (bu_tracks b)\<close> q
      by (metis (no_types, lifting) frames_of_Cons fst_conv subsetD)
  qed
  have "sum_list (map (track_cost w) (bu_tracks b)) = sum_list (map (track_cost w) ?ts) + track_cost w (bu_tracks b ! i)"
    by (subst whole) simp
  then have bytes: "bu_bytes b - frame_bytes w f - track_cost w (bu_tracks b ! i)
      = sum_list (map (track_cost w) ?ts) + sum_list (map (frame_bytes w \<circ> snd) xs)"
    using refinesD(6) [OF r] q by simp
  have cut: "set ?cut = encoded_names w (filter (\<lambda>(m, _). m \<noteq> n) (lost q))"
    using refinesD(7) [OF r] by auto
  have lost: "fst ` set (filter (\<lambda>(m, _). m \<noteq> n) (lost q)) \<subseteq> fst ` set xs"
    using refinesD(8) [OF r] q by auto
  have "refines w ?b (fifo_drop q)"
    unfolding refines_def drop
    using parts(1) set idx order frames bytes cut lost by (auto simp del: map_map map_append)
  with step show ?thesis by auto
qed

lemma trim_oldest_refines:
  assumes "refines w b q" and "kept q \<noteq> []"
  shows "\<exists>b'. trim_oldest w b = Some b' \<and> refines w b' (fifo_drop q) \<and> bu_dropped b' = Suc (bu_dropped b)"
proof -
  obtain n f xs where "kept q = (n, f) # xs" using assms(2) by (metis list.exhaust surj_pair)
  then show ?thesis using trim_oldest_keeps_track trim_oldest_drops_track assms(1) by blast
qed

lemma kept_fifo_drop [simp]: "kept (fifo_drop q) = tl (kept q)"
  by (auto split: list.splits)

lemma kept_fifo_drops: "kept ((fifo_drop ^^ n) q) = drop n (kept q)"
  by (induction n) (simp_all add: drop_Suc tl_drop del: fifo_drop.simps)

lemma refines_length: "refines w b q \<Longrightarrow> length (bu_order b) = length (kept q)"
  using refinesD(4) by (metis length_map)

text \<open>Trimming never panics, drops from the front only, and stops within the budget or at one frame.\<close>

lemma trim_refines:
  "refines w b q \<Longrightarrow> \<exists>b' n. trim_buffer w m b = Some b' \<and> refines w b' ((fifo_drop ^^ n) q)
     \<and> bu_dropped b' = bu_dropped b + n \<and> (n = 0 \<or> n < length (kept q))
     \<and> (bu_bytes b' \<le> m \<or> length (kept q) - n \<le> 1)"
proof (induction w m b arbitrary: q rule: trim_buffer.induct)
  case (1 w m b)
  show ?case
  proof (cases "bu_bytes b > m \<and> length (bu_order b) > 1")
    case False
    then have "trim_buffer w m b = Some b" by (subst trim_buffer.simps) auto
    then show ?thesis using "1.prems" False refines_length [OF "1.prems"] by (intro exI [of _ b] exI [of _ 0]) auto
  next
    case True
    then have "kept q \<noteq> []" using refines_length [OF "1.prems"] by auto
    then obtain b1 where b1: "trim_oldest w b = Some b1" and r1: "refines w b1 (fifo_drop q)"
      and d1: "bu_dropped b1 = Suc (bu_dropped b)"
      using trim_oldest_refines [OF "1.prems"] by blast
    obtain b' n where "trim_buffer w m b1 = Some b'" "refines w b' ((fifo_drop ^^ n) (fifo_drop q))"
      and "bu_dropped b' = bu_dropped b1 + n" "n = 0 \<or> n < length (kept (fifo_drop q))"
      and "bu_bytes b' \<le> m \<or> length (kept (fifo_drop q)) - n \<le> 1"
      using "1.IH" [OF True b1 r1] by blast
    moreover have "trim_buffer w m b = trim_buffer w m b1" using True b1 by (subst trim_buffer.simps) simp
    ultimately show ?thesis
      using d1 True refines_length [OF "1.prems"]
      by (intro exI [of _ b'] exI [of _ "Suc n"]) (auto simp: funpow_swap1 simp del: fifo_drop.simps)
  qed
qed

section \<open>A bounded queue\<close>

fun push_all :: "('a \<Rightarrow> 'b \<Rightarrow> 'b option) \<Rightarrow> 'a list \<Rightarrow> 'b \<Rightarrow> 'b option" where
  "push_all f [] b = Some b"
| "push_all f (x # xs) b = (case f x b of None \<Rightarrow> None | Some b' \<Rightarrow> push_all f xs b')"

text \<open>
  What a bounded queue promises: a push never fails, keeps a suffix of what was there and the new
  element, and leaves the queue within its bound unless the new element alone exceeds it.
\<close>

locale bounded_fifo =
  fixes rel :: "'b \<Rightarrow> 'x list \<Rightarrow> bool"
    and put :: "'a \<Rightarrow> 'b \<Rightarrow> 'b option"
    and item :: "'a \<Rightarrow> 'x"
    and fits :: "'a \<Rightarrow> 'b \<Rightarrow> bool"
  assumes put_ok: "rel b q \<Longrightarrow>
    \<exists>b' n. put a b = Some b' \<and> n \<le> length q \<and> rel b' (drop n (q @ [item a])) \<and> (fits a b' \<or> n = length q)"
begin

lemma puts_ok:
  "rel b q \<Longrightarrow> \<exists>b' n. push_all put as b = Some b' \<and> n \<le> length (q @ map item as)
     \<and> rel b' (drop n (q @ map item as))
     \<and> (as \<noteq> [] \<longrightarrow> n < length (q @ map item as) \<and> (fits (last as) b' \<or> Suc n = length (q @ map item as)))"
proof (induction as arbitrary: b q)
  case Nil
  then show ?case by (intro exI [of _ b] exI [of _ 0]) simp
next
  case (Cons a as)
  obtain b1 n1 where b1: "put a b = Some b1" "n1 \<le> length q" "rel b1 (drop n1 (q @ [item a]))"
    and f1: "fits a b1 \<or> n1 = length q"
    using put_ok [OF Cons.prems] by blast
  obtain b' n where b': "push_all put as b1 = Some b'"
    "n \<le> length (drop n1 (q @ [item a]) @ map item as)"
    "rel b' (drop n (drop n1 (q @ [item a]) @ map item as))"
    and l: "as \<noteq> [] \<longrightarrow> n < length (drop n1 (q @ [item a]) @ map item as)
       \<and> (fits (last as) b' \<or> Suc n = length (drop n1 (q @ [item a]) @ map item as))"
    using Cons.IH [OF b1(3)] by blast
  have eq: "drop n1 (q @ [item a]) @ map item as = drop n1 (q @ map item (a # as))"
    using b1(2) by simp
  have "rel b' (drop (n + n1) (q @ map item (a # as)))" using b'(3) unfolding eq by (simp only: drop_drop)
  moreover have "as = [] \<Longrightarrow> n = 0 \<and> b' = b1 \<or> n > 0" using b'(1) by auto
  ultimately show ?case
  proof (cases as)
    case Nil
    then show ?thesis using b1 f1 b'(1) by (intro exI [of _ b1] exI [of _ n1]) auto
  next
    case (Cons a' as')
    then show ?thesis
      using b1(1,2) b'(1,2) l \<open>rel b' (drop (n + n1) (q @ map item (a # as)))\<close>
      by (intro exI [of _ b'] exI [of _ "n + n1"]) (auto simp: eq)
  qed
qed

end

text \<open>A push with all its arguments: track, kind, frame and the channel's message limit.\<close>

type_synonym pushed = "string \<times> int \<times> Frame \<times> nat"

fun push_one :: "wire \<Rightarrow> pushed \<Rightarrow> Buffered \<Rightarrow> Buffered option" where
  "push_one w (tr, k, f, m) b = push w tr k f m b"

fun pushed_item :: "pushed \<Rightarrow> string \<times> Frame" where
  "pushed_item (tr, k, f, m) = (tr, f)"

fun pushed_fits :: "pushed \<Rightarrow> Buffered \<Rightarrow> bool" where
  "pushed_fits (tr, k, f, m) b \<longleftrightarrow> bu_bytes b + REQUEST_STEP_ENVELOPE_BYTES \<le> max m REQUEST_STEP_ENVELOPE_BYTES"

definition buffers :: "wire \<Rightarrow> Buffered \<Rightarrow> (string \<times> Frame) list \<Rightarrow> bool" where
  "buffers w b xs \<longleftrightarrow> (\<exists>l. refines w b \<lparr> kept = xs, lost = l \<rparr>)"

lemma refines_buffers: "refines w b q \<Longrightarrow> buffers w b (kept q)"
  unfolding buffers_def by (rule exI [of _ "lost q"]) (cases q, simp)

lemma push_refines:
  assumes "refines w b q"
  shows "\<exists>b' n. push w tr k f m b = Some b' \<and> n \<le> length (kept q)
    \<and> refines w b' ((fifo_drop ^^ n) (fifo_push (tr, f) q))
    \<and> (bu_bytes b' \<le> saturating_sub m REQUEST_STEP_ENVELOPE_BYTES \<or> n = length (kept q))"
proof -
  have "refines w (add w tr k f b) (fifo_push (tr, f) q)" by (rule add_refines [OF assms])
  then obtain b' n where "push w tr k f m b = Some b'" "refines w b' ((fifo_drop ^^ n) (fifo_push (tr, f) q))"
    and "n = 0 \<or> n < length (kept (fifo_push (tr, f) q))"
    and "bu_bytes b' \<le> saturating_sub m REQUEST_STEP_ENVELOPE_BYTES \<or> length (kept (fifo_push (tr, f) q)) - n \<le> 1"
    unfolding push_def using trim_refines by blast
  then show ?thesis by (intro exI [of _ b'] exI [of _ n]) (auto simp: fifo_push_def)
qed

interpretation inputs: bounded_fifo "buffers w" "push_one w" pushed_item pushed_fits for w
proof unfold_locales
  fix b q and a :: pushed assume "buffers w b q"
  then obtain l where r: "refines w b \<lparr> kept = q, lost = l \<rparr>" by (auto simp: buffers_def)
  obtain tr k f m where a: "a = (tr, k, f, m)" by (metis surj_pair)
  obtain b' n where b': "push w tr k f m b = Some b'" "n \<le> length q"
    and r': "refines w b' ((fifo_drop ^^ n) (fifo_push (tr, f) \<lparr> kept = q, lost = l \<rparr>))"
    and fits: "bu_bytes b' \<le> saturating_sub m REQUEST_STEP_ENVELOPE_BYTES \<or> n = length q"
    using push_refines [OF r, of tr k f m] by auto
  have "buffers w b' (drop n (q @ [pushed_item a]))"
    using refines_buffers [OF r'] a by (simp add: kept_fifo_drops fifo_push_def)
  moreover have "pushed_fits a b' \<or> n = length q"
    using fits a by (auto simp: saturating_sub_def split: if_splits)
  ultimately show "\<exists>b' n. push_one w a b = Some b' \<and> n \<le> length q
      \<and> buffers w b' (drop n (q @ [pushed_item a])) \<and> (pushed_fits a b' \<or> n = length q)"
    using b' a by auto
qed

section \<open>Properties\<close>

lemma list_ex_frames_of: "list_ex (is_encoded w) (frames_of xs n) \<longleftrightarrow> n \<in> encoded_names w xs"
  by (induction xs) (auto simp: encoded_names_def)

lemma buffers_default: "buffers w Buffered_default []"
  using refines_buffers [OF refines_default] by simp

lemma take_tracks:
  assumes "buffers w b xs" and "take_inputs w b = (Inr ts, b')"
  shows "distinct (map tf_track ts)" and "set (map tf_track ts) = fst ` set xs"
    and "\<And>t. t \<in> set ts \<Longrightarrow> tf_frames t = frames_of xs (tf_track t)" and "b' = Buffered_default"
proof -
  obtain l where r: "refines w b \<lparr> kept = xs, lost = l \<rparr>" using assms(1) by (auto simp: buffers_def)
  have ne: "tf_frames t \<noteq> []" if "t \<in> set (bu_tracks b)" for t
    using refinesD(2,5) [OF r] that by (auto simp: track_names_def frames_of_empty_iff)
  have "filter (\<lambda>t. tf_frames t \<noteq> []) (bu_tracks b) = bu_tracks b"
    using ne by (simp add: filter_id_conv)
  then have ts: "ts = bu_tracks b" and "b' = Buffered_default"
    using assms(2) by (auto simp: take_inputs_def Let_def split: option.splits)
  then show "distinct (map tf_track ts)" "set (map tf_track ts) = fst ` set xs" "b' = Buffered_default"
    "\<And>t. t \<in> set ts \<Longrightarrow> tf_frames t = frames_of xs (tf_track t)"
    using refinesD(1,2,5) [OF r] by (auto simp: track_names_def)
qed

text \<open>
  C35: the buffer of a step's input frames is a window on the frames pushed. Whatever is pushed, no push
  panics, the newest frame is kept, what is kept is a suffix of what was pushed, and its encoded size
  leaves room for the message's envelope unless the newest frame alone does not fit. A step that takes
  the buffer gets each track once, with exactly the kept frames of that track in push order, and leaves
  it empty.
\<close>

theorem step_inputs_window:
  assumes "ps \<noteq> []"
  shows "\<exists>b n. push_all (push_one w) ps Buffered_default = Some b \<and> n < length ps
    \<and> len_inputs b = length ps - n
    \<and> (pushed_fits (last ps) b \<or> Suc n = length ps)
    \<and> (case take_inputs w b of
         (Inr ts, b') \<Rightarrow> b' = Buffered_default \<and> distinct (map tf_track ts)
           \<and> set (map tf_track ts) = fst ` set (drop n (map pushed_item ps))
           \<and> (\<forall>t \<in> set ts. tf_frames t = frames_of (drop n (map pushed_item ps)) (tf_track t))
       | (Inl e, b') \<Rightarrow> b' = Buffered_default \<and> code e = STEP_REFUSED)"
proof -
  obtain b n where b: "push_all (push_one w) ps Buffered_default = Some b" "n < length ps"
    and rel: "buffers w b (drop n (map pushed_item ps))"
    and fits: "pushed_fits (last ps) b \<or> Suc n = length ps"
    using inputs.puts_ok [OF buffers_default, of w ps] assms by auto
  obtain l where "refines w b \<lparr> kept = drop n (map pushed_item ps), lost = l \<rparr>"
    using rel by (auto simp: buffers_def)
  then have len: "len_inputs b = length ps - n" using refines_length by (fastforce simp: len_inputs_def)
  have "case take_inputs w b of
         (Inr ts, b') \<Rightarrow> b' = Buffered_default \<and> distinct (map tf_track ts)
           \<and> set (map tf_track ts) = fst ` set (drop n (map pushed_item ps))
           \<and> (\<forall>t \<in> set ts. tf_frames t = frames_of (drop n (map pushed_item ps)) (tf_track t))
       | (Inl e, b') \<Rightarrow> b' = Buffered_default \<and> code e = STEP_REFUSED"
  proof (cases "fst (take_inputs w b)")
    case (Inl e)
    then show ?thesis by (auto simp: take_inputs_def Let_def split: option.splits)
  next
    case (Inr ts)
    then obtain b' where eq: "take_inputs w b = (Inr ts, b')" by (cases "take_inputs w b") auto
    show ?thesis unfolding eq prod.case sum.case using take_tracks [OF rel eq] by blast
  qed
  with b len fits show ?thesis by (intro exI [of _ b] exI [of _ n] conjI)
qed

theorem step_inputs_window_witness:
  "\<exists>b n. push_all (push_one sample_wire)
      [(''cam'', 1, \<lparr> fr_encoding = 1, fr_dtype = [], fr_shape = [], fr_data = [7], fr_metadata = None,
          fr_capture_time_us = None \<rparr>, 100)] Buffered_default = Some b \<and> n < (1 :: nat) \<and> len_inputs b = 1 - n"
  using step_inputs_window [of "[(''cam'', 1, \<lparr> fr_encoding = 1, fr_dtype = [], fr_shape = [], fr_data = [7],
      fr_metadata = None, fr_capture_time_us = None \<rparr>, 100)]" sample_wire]
  by (metis length_Cons list.distinct(1) list.size(3) One_nat_def)

text \<open>
  a step is refused for its encoded frames exactly when it must be. Taking the buffer fails if and
  only if some track still holds an encoded frame after an encoded frame of the same run was pushed out
  of it, so its frames no longer start at their keyframe; pushing keeps that account exact.
\<close>

theorem step_inputs_cut:
  assumes "refines w b q"
  shows "((\<exists>e. fst (take_inputs w b) = Inl e) \<longleftrightarrow> encoded_names w (kept q) \<inter> encoded_names w (lost q) \<noteq> {})
    \<and> (\<exists>b' n. push w tr k f m b = Some b' \<and> refines w b' ((fifo_drop ^^ n) (fifo_push (tr, f) q)))"
proof (rule conjI)
  have enc: "list_ex (is_encoded w) (tf_frames t) \<longleftrightarrow> tf_track t \<in> encoded_names w (kept q)"
    if "t \<in> set (bu_tracks b)" for t
    using refinesD(5) [OF assms that] by (simp add: list_ex_frames_of)
  have ne: "tf_frames t \<noteq> []" if "t \<in> set (bu_tracks b)" for t
    using refinesD(2,5) [OF assms] that by (auto simp: track_names_def frames_of_empty_iff)
  then have "filter (\<lambda>t. tf_frames t \<noteq> []) (bu_tracks b) = bu_tracks b" by (simp add: filter_id_conv)
  then have "(\<exists>e. fst (take_inputs w b) = Inl e) \<longleftrightarrow>
      (\<exists>t \<in> set (bu_tracks b). tf_track t \<in> set (cut_encoded b) \<and> list_ex (is_encoded w) (tf_frames t))"
    using position_None [of "\<lambda>t. tf_track t \<in> set (cut_encoded b) \<and> list_ex (is_encoded w) (tf_frames t)" "bu_tracks b"]
    by (auto simp: take_inputs_def Let_def split: option.splits)
  also have "\<dots> \<longleftrightarrow> (\<exists>n \<in> set (track_names b). n \<in> encoded_names w (lost q) \<and> n \<in> encoded_names w (kept q))"
    using enc refinesD(7) [OF assms] by (auto simp: track_names_def)
  also have "\<dots> \<longleftrightarrow> encoded_names w (kept q) \<inter> encoded_names w (lost q) \<noteq> {}"
    using refinesD(2) [OF assms] by (auto simp: encoded_names_def)
  finally show "(\<exists>e. fst (take_inputs w b) = Inl e) \<longleftrightarrow> encoded_names w (kept q) \<inter> encoded_names w (lost q) \<noteq> {}" .
  show "\<exists>b' n. push w tr k f m b = Some b' \<and> refines w b' ((fifo_drop ^^ n) (fifo_push (tr, f) q))"
    using push_refines [OF assms, of tr k f m] by blast
qed

theorem step_inputs_cut_witness:
  "refines sample_wire Buffered_default \<lparr> kept = [], lost = [] \<rparr>
   \<and> \<not> (\<exists>e. fst (take_inputs sample_wire Buffered_default) = Inl e)"
proof (rule conjI)
  show "refines sample_wire Buffered_default \<lparr> kept = [], lost = [] \<rparr>" by (rule refines_default)
  from step_inputs_cut [OF this] show "\<not> (\<exists>e. fst (take_inputs sample_wire Buffered_default) = Inl e)" by simp
qed

end
