(* ===== verification/Recording.thy ===== *)
theory Recording
  imports Effects Wire
begin

text \<open>
  Clips (\<^verbatim>\<open>recording.rs\<close>): resolving a clip's playlist, waiting until it is ready, and turning it
  into the ordered requests whose bodies are the file. Polling may go on for as long as the session
  lives, so it is a partial function: \<^const>\<open>None\<close> when it never returns.
\<close>

section \<open>Clips\<close>

record Clip =
  clip_session_id :: string
  clip_kind :: string
  clip_start_marker :: f64
  clip_end_marker :: f64
  clip_now_marker :: f64
  clip_predicted_ready_at_ms :: f64
  clip_playlist_url :: string

definition clip_from_ready :: "ClipReady \<Rightarrow> string \<Rightarrow> Clip" where
  "clip_from_ready ready coordinator_base_url =
     (let url = (if starts_with ''http://'' (cr_playlist_url ready) \<or> starts_with ''https://'' (cr_playlist_url ready)
                 then cr_playlist_url ready
                 else trim_end_matches CHR ''/'' coordinator_base_url @ ''/''
                        @ trim_start_matches CHR ''/'' (cr_playlist_url ready))
      in \<lparr> clip_session_id = cr_session_id ready, clip_kind = cr_kind ready,
           clip_start_marker = cr_start_marker ready, clip_end_marker = cr_end_marker ready,
           clip_now_marker = cr_now_marker ready,
           clip_predicted_ready_at_ms = f64_of_int (cr_predicted_ready_at_ms ready),
           clip_playlist_url = url \<rparr>)"

definition clip_failed_code :: "string \<Rightarrow> string" where
  "clip_failed_code reason =
     (let lower = to_ascii_lowercase reason
      in if str_contains ''recorder disabled'' lower \<or> str_contains ''encoder crashed'' lower
         then RECORDER_DISABLED else INTERNAL_ERROR)"

section \<open>The playlist\<close>

definition MIN_RETRY_DELAY :: duration where "MIN_RETRY_DELAY = from_millis 200"
definition MAX_RETRY_DELAY :: duration where "MAX_RETRY_DELAY = from_millis 2000"
definition INIT_URI_KEY :: string where "INIT_URI_KEY = ''URI='' @ [CHR 0x22]"
definition FRAGMENT_SUFFIXES :: "string list" where "FRAGMENT_SUFFIXES = [''.m4s'', ''.mp4'', ''.m4a'', ''.m4v'']"

text \<open>A segment's path, without the authority of an absolute URL and without a query.\<close>

definition path_of :: "string \<Rightarrow> string" where
  "path_of segment =
     (let path = (case split_once ''://'' segment of
          Some (_, rest) \<Rightarrow> dropWhile (\<lambda>c. c \<noteq> CHR ''/'') rest
        | None \<Rightarrow> segment)
      in split_first (\<lambda>c. c = CHR ''?'' \<or> c = CHR ''#'') path)"

text \<open>One line of the playlist: the init segment and the fragments found so far.\<close>

definition parse_line :: "string \<Rightarrow> string option \<times> string list \<Rightarrow> string option \<times> string list" where
  "parse_line raw acc =
     (case acc of (init, segments) \<Rightarrow>
        let line = trim raw
        in if line = [] then (init, segments)
           else (case strip_prefix ''#EXT-X-MAP'' line of
               Some rest \<Rightarrow>
                 (case split_once INIT_URI_KEY rest of
                    Some (_, after) \<Rightarrow>
                      (case split_once [CHR 0x22] after of
                         Some (uri, _) \<Rightarrow> (Some uri, segments)
                       | None \<Rightarrow> (init, segments))
                  | None \<Rightarrow> (init, segments))
             | None \<Rightarrow> if starts_with ''#'' line then (init, segments) else (init, segments @ [line])))"

definition is_fragment :: "string \<Rightarrow> bool" where
  "is_fragment segment \<longleftrightarrow> list_ex (\<lambda>suffix. ends_with suffix (path_of segment)) FRAGMENT_SUFFIXES"

definition parse_playlist :: "string \<Rightarrow> string \<Rightarrow> (CoreError, string list) result" where
  "parse_playlist playlist playlist_url =
     (let (init, segments) = fold parse_line (lines playlist) (None, [])
      in if segments = []
         then Inl (Decode (''the clip playlist at '' @ playlist_url @ '' names no segments''))
         else if init = None \<and> list_ex is_fragment segments
         then Inl (Decode (''the clip playlist at '' @ playlist_url
                @ '' names fragmented-MP4 segments but no #EXT-X-MAP init segment, so they cannot be ''
                @ ''assembled into a playable file''))
         else Inr (case init of Some i \<Rightarrow> i # segments | None \<Rightarrow> segments))"

text \<open>The part of a string before its last slash, and that slash's index (\<^verbatim>\<open>rfind\<close>).\<close>

fun rfind :: "char \<Rightarrow> string \<Rightarrow> nat option" where
  "rfind c [] = None"
| "rfind c (x # xs) = (case rfind c xs of Some i \<Rightarrow> Some (Suc i) | None \<Rightarrow> if x = c then Some 0 else None)"

definition is_slash :: "char \<Rightarrow> bool" where "is_slash c \<longleftrightarrow> c = CHR ''/''"

definition join_url :: "string \<Rightarrow> string \<Rightarrow> string" where
  "join_url playlist_url segment =
     (if str_contains ''://'' segment then segment
      else (case split_once ''://'' playlist_url of
          None \<Rightarrow> segment
        | Some (scheme, rest) \<Rightarrow>
            let authority = split_first is_slash rest
            in (case strip_prefix ''/'' segment of
                  Some absolute \<Rightarrow> scheme @ ''://'' @ authority @ ''/'' @ absolute
                | None \<Rightarrow>
                    let base = split_first (\<lambda>c. c = CHR ''?'' \<or> c = CHR ''#'') playlist_url;
                        directory = (case rfind CHR ''/'' base of
                            Some slash \<Rightarrow> if slash > length scheme + 2 then take slash base else base
                          | None \<Rightarrow> base)
                    in directory @ ''/'' @ segment)))"

definition origin :: "string \<Rightarrow> (string \<times> string) option" where
  "origin url = (case split_once ''://'' url of
     Some (scheme, rest) \<Rightarrow> Some (scheme, split_first is_slash rest)
   | None \<Rightarrow> None)"

definition same_origin :: "string \<Rightarrow> string \<Rightarrow> bool" where
  "same_origin a b = (case (origin a, origin b) of (Some x, Some y) \<Rightarrow> x = y | _ \<Rightarrow> True)"

definition bearer :: "string \<Rightarrow> string \<times> string" where
  "bearer jwt = (''Authorization'', ''Bearer '' @ jwt)"

definition segment_request :: "string \<Rightarrow> string option \<Rightarrow> string \<Rightarrow> HttpRequest" where
  "segment_request playlist_url jwt segment =
     (let url = join_url playlist_url segment
      in \<lparr> req_method = Get, req_url = url,
           req_headers = (case jwt of
               Some j \<Rightarrow> if same_origin url playlist_url then [bearer j] else []
             | None \<Rightarrow> []),
           req_body = None \<rparr>)"

section \<open>Waiting for it\<close>

text \<open>\<^verbatim>\<open>retry_delay\<close>; \<^const>\<open>None\<close> when \<^verbatim>\<open>Duration::from_secs_f64\<close> panics.\<close>

definition retry_delay :: "string option \<Rightarrow> duration option" where
  "retry_delay retry_after =
     (case (case retry_after of None \<Rightarrow> None | Some v \<Rightarrow> parse_f64 (trim v)) of
        Some seconds \<Rightarrow>
          if is_finite seconds \<and> f64_le (Fin 0) seconds
          then (case try_from_secs_f64 seconds of
                  Some d \<Rightarrow> Some (max MIN_RETRY_DELAY (min MAX_RETRY_DELAY d))
                | None \<Rightarrow> None)
          else Some MAX_RETRY_DELAY
      | None \<Rightarrow> Some MAX_RETRY_DELAY)"

record 's Readiness =
  rd_timeout :: "duration option"
  rd_predicted_ready_at_ms :: f64
  session_is_live :: "'s \<Rightarrow> bool"

definition wait_budget :: "'s host \<Rightarrow> 's Readiness \<Rightarrow> 's \<Rightarrow> duration option" where
  "wait_budget h readiness s =
     map_option (\<lambda>limit.
       let ahead_ms = f64_sub (rd_predicted_ready_at_ms readiness) (now_ms h s);
           ahead = (case try_from_secs_f64 (f64_div_by (f64_max ahead_ms (Fin 0)) 1000) of
               Some d \<Rightarrow> d | None \<Rightarrow> duration_max)
       in duration_saturating_add limit ahead) (rd_timeout readiness)"

definition not_ready_ended :: "string \<Rightarrow> nat \<Rightarrow> CoreError" where
  "not_ready_ended url polls = Timeout (''the clip playlist at '' @ url
     @ '' was not ready when the session ended, after '' @ show_nat polls
     @ '' polls. The chunk holding the end of the window had not closed, and media time only advances ''
     @ ''while the session generates '' @ [CHR 0xE2, CHR 0x80, CHR 0x94]
     @ '' so this clip cannot become ready. Ask for the clip earlier, or keep the session connected ''
     @ ''until the download finishes.'')"

definition not_ready_timeout :: "string \<Rightarrow> nat \<Rightarrow> CoreError" where
  "not_ready_timeout url polls = Timeout (''the clip playlist at '' @ url
     @ '' was still not ready after '' @ show_nat polls
     @ '' polls. Readiness is in media time, not wall clock: the manifest appears once the recording ''
     @ ''passes the end of the chunk holding the window. A model generating slower than real time takes ''
     @ ''proportionally longer '' @ [CHR 0xE2, CHR 0x80, CHR 0x94]
     @ '' keep the session running, or allow more time (none at all to wait as long as it lives).'')"

definition playlist_request :: "string \<Rightarrow> string option \<Rightarrow> HttpRequest" where
  "playlist_request url jwt = \<lparr> req_method = Get, req_url = url,
     req_headers = (case jwt of Some j \<Rightarrow> [bearer j] | None \<Rightarrow> []), req_body = None \<rparr>"

text \<open>
  One round: \<open>Inl\<close> the outcome, or \<open>Inr\<close> what is left of the budget and the state after the sleep.
  The poll counter is a \<^verbatim>\<open>u32\<close> in the source, whose overflow would take longer than a century.
\<close>

definition poll_playlist ::
    "'s host \<Rightarrow> string \<Rightarrow> string option \<Rightarrow> 's Readiness \<Rightarrow> duration option \<Rightarrow> nat \<Rightarrow> 's \<Rightarrow>
       ((failure, string) result + duration option) \<times> 's" where
  "poll_playlist h url jwt readiness remaining polls s =
     (case http_request h (playlist_request url jwt) s of
        (Inl f, s) \<Rightarrow> (Inl (Inl f), s)
      | (Inr response, s) \<Rightarrow>
          if resp_status response \<noteq> 202
          then (Inl (case check_status response ''fetch clip playlist'' of
                       Inl e \<Rightarrow> Inl (Fail e) | Inr _ \<Rightarrow> Inr (from_utf8_lossy (resp_body response))), s)
          else if \<not> session_is_live readiness s
          then (Inl (Inl (Fail (not_ready_ended url (Suc polls)))), s)
          else (case retry_delay (header response ''retry-after'') of
              None \<Rightarrow> (Inl (Inl Panic), s)
            | Some delay \<Rightarrow>
                (case remaining of
                   None \<Rightarrow> (Inr None, sleep h delay s)
                 | Some left \<Rightarrow>
                     if left = 0 then (Inl (Inl (Fail (not_ready_timeout url (Suc polls)))), s)
                     else (Inr (Some (left - min delay left)), sleep h (min delay left) s))))"

partial_function (option) fetch_loop ::
    "'s host \<Rightarrow> string \<Rightarrow> string option \<Rightarrow> 's Readiness \<Rightarrow> duration option \<Rightarrow> nat \<Rightarrow> 's \<Rightarrow>
       ((failure, string) result \<times> 's) option" where
  "fetch_loop h url jwt readiness remaining polls s =
     (case poll_playlist h url jwt readiness remaining polls s of
        (Inl r, s') \<Rightarrow> Some (r, s')
      | (Inr remaining', s') \<Rightarrow> fetch_loop h url jwt readiness remaining' (Suc polls) s')"

definition fetch_playlist ::
    "'s host \<Rightarrow> string \<Rightarrow> string option \<Rightarrow> 's Readiness \<Rightarrow> 's \<Rightarrow> ((failure, string) result \<times> 's) option" where
  "fetch_playlist h url jwt readiness s = fetch_loop h url jwt readiness (wait_budget h readiness s) 0 s"

definition clip_segment_requests ::
    "'s host \<Rightarrow> string \<Rightarrow> string option \<Rightarrow> 's Readiness \<Rightarrow> 's \<Rightarrow>
       ((failure, HttpRequest list) result \<times> 's) option" where
  "clip_segment_requests h url jwt readiness s =
     (case fetch_playlist h url jwt readiness s of
        None \<Rightarrow> None
      | Some (Inl f, s) \<Rightarrow> Some (Inl f, s)
      | Some (Inr playlist, s) \<Rightarrow>
          Some (case parse_playlist playlist url of
                  Inl e \<Rightarrow> (Inl (Fail e), s)
                | Inr segments \<Rightarrow> (Inr (map (segment_request url jwt) segments), s)))"

section \<open>Origins\<close>

lemma split_first_append:
  "(\<And>c. c \<in> set xs \<Longrightarrow> \<not> p c) \<Longrightarrow> split_first p (xs @ ys) = xs @ split_first p ys"
  unfolding split_first_def by (rule takeWhile_append2) simp

lemma strip_prefix_None_append:
  "length p \<le> length xs \<Longrightarrow> strip_prefix p (xs @ ys) = None \<longleftrightarrow> strip_prefix p xs = None"
proof (induction p arbitrary: xs)
  case (Cons c p)
  then show ?case by (cases xs) auto
qed simp

text \<open>What follows the first occurrence of a separator does not matter to finding it.\<close>

lemma split_once_cong:
  "split_once p s = Some (a, b) \<Longrightarrow> split_once p (a @ p @ b') = Some (a, b')"
proof (induction s arbitrary: a)
  case Nil
  then have "p = []" and "a = []"
    by (subst (asm) split_once.simps, auto split: option.splits simp: strip_prefix_iff)+
  then show ?case by (subst split_once.simps) simp
next
  case (Cons c s)
  show ?case
  proof (cases "strip_prefix p (c # s)")
    case (Some r)
    then have "a = []" using Cons.prems by (simp add: split_once.simps)
    then show ?thesis by (subst split_once.simps) simp
  next
    case None
    then obtain a' where a: "a = c # a'" and rec: "split_once p s = Some (a', b)"
      using Cons.prems by (subst (asm) split_once.simps) (auto split: option.splits)
    have "strip_prefix p ((c # a' @ p) @ b) = None"
      using None split_once_Some [OF rec] by simp
    then have "strip_prefix p ((c # a' @ p) @ b') = None"
      using strip_prefix_None_append [of p "c # a' @ p"] by simp
    then show ?thesis using Cons.IH [OF rec] a by (subst split_once.simps) simp
  qed
qed

lemma origin_cong:
  "split_once ''://'' url = Some (scheme, rest) \<Longrightarrow>
     origin (scheme @ ''://'' @ r) = Some (scheme, split_first is_slash r)"
  using split_once_cong [of "''://''" url scheme rest r] by (simp add: origin_def)

lemma rfind_Some: "rfind c xs = Some i \<Longrightarrow> i < length xs \<and> xs ! i = c"
  by (induction xs arbitrary: i) (auto split: option.splits if_splits)

definition is_query :: "char \<Rightarrow> bool" where "is_query c \<longleftrightarrow> c = CHR ''?'' \<or> c = CHR ''#''"

lemma split_first_slash_append:
  "split_first is_slash (x @ ''/'' @ y) = split_first is_slash x"
  by (induction x) (auto simp: split_first_def is_slash_def)

text \<open>
  A relative segment resolves to a URL with the playlist's scheme, and to its authority when that is
  not cut short by a query.
\<close>

lemma join_url_relative:
  assumes url: "split_once ''://'' url = Some (scheme, rest)" and seg: "\<not> str_contains ''://'' seg"
    and scheme: "\<And>c. c \<in> set scheme \<Longrightarrow> \<not> is_query c"
  shows "\<exists>r. join_url url seg = scheme @ ''://'' @ r
    \<and> ((\<forall>c \<in> set (split_first is_slash rest). \<not> is_query c) \<longrightarrow> split_first is_slash r = split_first is_slash rest)"
proof (cases "strip_prefix ''/'' seg")
  case (Some absolute)
  then show ?thesis using url seg split_first_slash_append [of "split_first is_slash rest" absolute]
    by (auto simp: join_url_def Let_def split_first_def)
next
  case None
  have u: "url = scheme @ ''://'' @ rest" by (rule split_once_Some [OF url])
  let ?q = "\<lambda>c. c = CHR ''?'' \<or> c = CHR ''#''"
  have base: "split_first ?q url = scheme @ ''://'' @ split_first ?q rest"
    unfolding u using split_first_append [of "scheme @ ''://''" ?q rest] scheme by (auto simp: is_query_def)
  let ?b = "split_first ?q rest"
  obtain d where dir: "join_url url seg = scheme @ ''://'' @ d @ ''/'' @ seg"
    and d: "d = ?b \<or> (\<exists>e. ?b = d @ ''/'' @ e)"
  proof (cases "case rfind CHR ''/'' (split_first ?q url) of Some i \<Rightarrow> i > length scheme + 2 | None \<Rightarrow> False")
    case True
    then obtain i where i: "rfind CHR ''/'' (split_first ?q url) = Some i" "length scheme + 2 < i"
      by (auto split: option.splits)
    let ?k = "i - Suc (Suc (Suc (length scheme)))"
    have "?k < length ?b \<and> ?b ! ?k = CHR ''/''"
      using rfind_Some [OF i(1)] i(2) unfolding base by (auto simp: nth_append nth_Cons' split: if_splits)
    then have cut: "?b = take ?k ?b @ ''/'' @ drop (Suc ?k) ?b" using id_take_nth_drop [of ?k ?b] by simp
    have "take i (split_first ?q url) = scheme @ ''://'' @ take ?k ?b"
      using i(2) unfolding base by (auto simp: take_Cons' numeral_3_eq_3 Suc_diff_Suc)
    then show ?thesis using that [of "take ?k ?b"] cut url seg None i by (auto simp: join_url_def Let_def)
  next
    case False
    then show ?thesis using that [of ?b] url seg None base
      by (auto simp: join_url_def Let_def split: option.splits)
  qed
  have "split_first is_slash ?b = split_first is_slash rest"
    if "\<forall>c \<in> set (split_first is_slash rest). \<not> is_query c"
    using that unfolding split_first_def is_query_def by (induction rest) auto
  moreover have "split_first is_slash (d @ ''/'' @ seg) = split_first is_slash ?b"
    using d split_first_slash_append by metis
  ultimately show ?thesis using dir by auto
qed

section \<open>The playlist as a whole\<close>

text \<open>What a line names, without the loop's state.\<close>

definition line_init :: "string \<Rightarrow> string option" where
  "line_init raw = (case strip_prefix ''#EXT-X-MAP'' (trim raw) of
     None \<Rightarrow> None
   | Some rest \<Rightarrow> (case split_once INIT_URI_KEY rest of
       None \<Rightarrow> None
     | Some (_, after) \<Rightarrow> map_option fst (split_once [CHR 0x22] after)))"

definition is_segment_line :: "string \<Rightarrow> bool" where
  "is_segment_line raw \<longleftrightarrow> trim raw \<noteq> [] \<and> \<not> starts_with ''#'' (trim raw)"

definition playlist_init :: "string \<Rightarrow> string option" where
  "playlist_init p = (case rev (filter (\<lambda>l. line_init l \<noteq> None) (lines p)) of [] \<Rightarrow> None | l # _ \<Rightarrow> line_init l)"

definition playlist_segments :: "string \<Rightarrow> string list" where
  "playlist_segments p = map trim (filter is_segment_line (lines p))"

lemma map_line_is_comment: "strip_prefix ''#EXT-X-MAP'' l = Some r \<Longrightarrow> starts_with ''#'' l"
  by (auto simp: strip_prefix_iff starts_with_iff)

lemma parse_line_eq:
  "parse_line l (init, segs) =
     ((case line_init l of Some i \<Rightarrow> Some i | None \<Rightarrow> init), segs @ (if is_segment_line l then [trim l] else []))"
  by (auto simp: parse_line_def line_init_def is_segment_line_def Let_def map_line_is_comment
      split: option.splits)

lemma parse_lines_eq:
  "fold parse_line ls (init, segs) =
     ((case rev (filter (\<lambda>l. line_init l \<noteq> None) ls) of [] \<Rightarrow> init | l # _ \<Rightarrow> line_init l),
      segs @ map trim (filter is_segment_line ls))"
proof (induction ls arbitrary: init segs)
  case (Cons l ls)
  show ?case unfolding fold.simps comp_apply parse_line_eq Cons.IH
    by (auto split: list.splits option.splits simp: append_eq_Cons_conv)
qed simp

section \<open>Properties\<close>

lemma retry_delay_bounds:
  "retry_delay v = Some d \<Longrightarrow> MIN_RETRY_DELAY \<le> d \<and> d \<le> MAX_RETRY_DELAY"
  by (auto simp: retry_delay_def MIN_RETRY_DELAY_def MAX_RETRY_DELAY_def from_millis_def
      split: option.splits if_splits)

lemma retry_delay_1e20: "retry_delay (Some ''1e20'') = None"
proof -
  have t: "trim ''1e20'' = ''1e20''" by code_simp
  have d: "digit_value CHR ''1'' = Some 1" "digit_value CHR ''2'' = Some 2" "digit_value CHR ''0'' = Some 0"
    "digit_value CHR ''e'' = None" by code_simp+
  have "parse_decimal ''1e20'' = Some (10 powi 20)"
    by (simp add: parse_decimal_def parse_exponent_def d ascii_lower_def parse_sign_def)
  moreover have "round64 (10 ^ 20) = Fin (10 ^ 20)" using round64_representable [of "5 ^ 20" 20] by simp
  ultimately have "parse_f64 ''1e20'' = Some (Fin (10 ^ 20))"
    by (simp add: parse_f64_def parse_sign_def to_ascii_lowercase_def ascii_lower_def power_int_def)
  moreover have "rne (10 ^ 20 * 10 ^ 9) = 10 ^ 29" using rne_of_int [of "10 ^ 29"] by simp
  ultimately show ?thesis
    by (simp add: retry_delay_def t f64_le_def duration_max_def)
qed



text \<open>
  C37: a clip download with a timeout always returns. Whatever the server answers, however often and
  however long it says 202, a wait with a timeout ends in a playlist, an error or a panic: every delay
  between polls is at least 200 ms and at most 2 s, and comes off the budget.
\<close>

theorem clip_wait_ends:
  assumes "rd_timeout readiness = Some limit"
  shows "\<exists>r. clip_segment_requests h url jwt readiness s = Some r"
proof -
  have loop: "\<exists>r. fetch_loop h url jwt readiness (Some left) polls s = Some r" for left polls s
  proof (induction left arbitrary: polls s rule: less_induct)
    case (less left)
    show ?case
    proof (cases "poll_playlist h url jwt readiness (Some left) polls s")
      case (Pair outcome s')
      show ?thesis
      proof (cases outcome)
        case (Inl r)
        then show ?thesis using Pair by (subst fetch_loop.simps) simp
      next
        case (Inr remaining)
        then obtain d where d: "MIN_RETRY_DELAY \<le> d" and left: "left \<noteq> 0" "remaining = Some (left - min d left)"
          using Pair by (auto simp: poll_playlist_def dest!: retry_delay_bounds
              split: prod.splits sum.splits option.splits if_splits)
        then have "left - min d left < left" by (auto simp: MIN_RETRY_DELAY_def from_millis_def)
        from less.IH [OF this] show ?thesis using Pair Inr left by (subst fetch_loop.simps) simp
      qed
    qed
  qed
  have "\<exists>r. fetch_playlist h url jwt readiness s = Some r"
    using assms loop by (simp add: fetch_playlist_def wait_budget_def Let_def)
  then show ?thesis by (auto simp: clip_segment_requests_def split: prod.splits sum.splits)
qed

definition busy_host :: "unit host" where
  "busy_host = \<lparr> http_request = (\<lambda>_. retE \<lparr> resp_status = 202, resp_headers = [], resp_body = [] \<rparr>),
     auth_jwt = (\<lambda>_. retE None), sleep = (\<lambda>_ s. s), now_ms = (\<lambda>_. Fin 0) \<rparr>"

theorem clip_wait_ends_witness:
  "\<exists>r. clip_segment_requests busy_host ''https://a/b'' None
     \<lparr> rd_timeout = Some (from_secs 5), rd_predicted_ready_at_ms = Fin 0, session_is_live = (\<lambda>_. True) \<rparr> () = Some r"
  by (rule clip_wait_ends [of _ "from_secs 5"]) simp

text \<open>
  C38: the delay after a 202 is between 200 ms and 2 s whatever the \<^verbatim>\<open>Retry-After\<close> header says,
  except that a number of seconds beyond the range of a \<^verbatim>\<open>Duration\<close> is converted before it is
  clamped, which panics; ''1e20'' is one.
\<close>

theorem retry_delay_clamped:
  "(case retry_delay hdr of
      Some d \<Rightarrow> from_millis 200 \<le> d \<and> d \<le> from_millis 2000
    | None \<Rightarrow> \<exists>v x. hdr = Some v \<and> parse_f64 (trim v) = Some (Fin x) \<and> duration_max < nat (rne (x * 10 ^ 9)))
   \<and> retry_delay (Some ''1e20'') = None"
proof (rule conjI)
  show "case retry_delay hdr of
      Some d \<Rightarrow> from_millis 200 \<le> d \<and> d \<le> from_millis 2000
    | None \<Rightarrow> \<exists>v x. hdr = Some v \<and> parse_f64 (trim v) = Some (Fin x) \<and> duration_max < nat (rne (x * 10 ^ 9))"
  proof (cases "retry_delay hdr")
    case None
    then obtain v y where v: "hdr = Some v" "parse_f64 (trim v) = Some y" "is_finite y" "f64_le (Fin 0) y"
      "try_from_secs_f64 y = None"
      by (auto simp: retry_delay_def split: option.splits if_splits)
    then obtain x where "y = Fin x" by (cases y) auto
    with v None show ?thesis by (auto simp: f64_le_def f64_eq_def Let_def split: if_splits)
  next
    case (Some d)
    then show ?thesis using retry_delay_bounds [OF Some]
      by (simp add: MIN_RETRY_DELAY_def MAX_RETRY_DELAY_def)
  qed
  show "retry_delay (Some ''1e20'') = None" by (rule retry_delay_1e20)
qed

text \<open>
  assembling a playlist keeps every segment, in order, behind its init segment. The segments are
  the trimmed lines that are neither empty nor comments, the init segment is the URI of the last
  \<^verbatim>\<open>#EXT-X-MAP\<close> line that has one, and fragments without an init segment are an error rather than
  a file no player opens.
\<close>

theorem parse_playlist_spec:
  "parse_playlist p url =
     (if playlist_segments p = []
      then Inl (Decode (''the clip playlist at '' @ url @ '' names no segments''))
      else case playlist_init p of
        Some i \<Rightarrow> Inr (i # playlist_segments p)
      | None \<Rightarrow>
          if list_ex is_fragment (playlist_segments p)
          then Inl (Decode (''the clip playlist at '' @ url
                 @ '' names fragmented-MP4 segments but no #EXT-X-MAP init segment, so they cannot be ''
                 @ ''assembled into a playable file''))
          else Inr (playlist_segments p))"
proof -
  have "fold parse_line (lines p) (None, []) = (playlist_init p, playlist_segments p)"
    unfolding parse_lines_eq by (simp add: playlist_init_def playlist_segments_def)
  then show ?thesis by (simp add: parse_playlist_def split: option.split)
qed

end
