(* ===== verification/Events.thy ===== *)
theory Events
  imports Errors
begin

text \<open>
  The client's status (\<^verbatim>\<open>state.rs\<close>), the events of the core and the dispatcher that fans them out
  (\<^verbatim>\<open>events.rs\<close>). A subscriber is named by a value of type \<^typ>\<open>'rx\<close>; \<open>alive\<close> tells whether its
  receiver still exists, which decides whether sending to it succeeds.
\<close>

datatype ReactorStatus = Disconnected_s | Connecting_s | Waiting_s | Ready_s

fun ReactorStatus_as_str :: "ReactorStatus \<Rightarrow> string" where
  "ReactorStatus_as_str Disconnected_s = ''disconnected''"
| "ReactorStatus_as_str Connecting_s = ''connecting''"
| "ReactorStatus_as_str Waiting_s = ''waiting''"
| "ReactorStatus_as_str Ready_s = ''ready''"

datatype ReactorEvent =
    StatusChanged ReactorStatus
  | SessionIdChanged "string option"
  | Message json
  | RuntimeMessage json
  | TrackReceived string "string option"
  | ErrorEvent ReactorError
  | CapabilitiesReceived Capabilities

type_synonym 'rx Dispatcher = "'rx list"

definition subscribe :: "'rx \<Rightarrow> 'rx Dispatcher \<Rightarrow> 'rx Dispatcher" where
  "subscribe rx d = d @ [rx]"

text \<open>What each sender is sent, and the senders that are left.\<close>

definition dispatch :: "('rx \<Rightarrow> bool) \<Rightarrow> ReactorEvent \<Rightarrow> 'rx Dispatcher \<Rightarrow> ('rx \<times> ReactorEvent) list \<times> 'rx Dispatcher" where
  "dispatch alive event d = (map (\<lambda>rx. (rx, event)) (filter alive d), filter alive d)"

datatype 'rx disp_op = Subscribe 'rx | Dispatch "'rx \<Rightarrow> bool" ReactorEvent

fun disp_step :: "'rx Dispatcher \<Rightarrow> 'rx disp_op \<Rightarrow> ('rx \<times> ReactorEvent) list \<times> 'rx Dispatcher" where
  "disp_step d (Subscribe rx) = ([], subscribe rx d)"
| "disp_step d (Dispatch alive event) = dispatch alive event d"

fun events_of :: "'rx disp_op list \<Rightarrow> ReactorEvent list" where
  "events_of [] = []"
| "events_of (Subscribe _ # ops) = events_of ops"
| "events_of (Dispatch _ e # ops) = e # events_of ops"

text \<open>The receiver of a subscriber that stays alive through a run.\<close>

definition stays :: "'rx \<Rightarrow> 'rx disp_op \<Rightarrow> bool" where
  "stays rx op = (case op of Subscribe rx' \<Rightarrow> rx' \<noteq> rx | Dispatch alive _ \<Rightarrow> alive rx)"

definition received :: "'rx \<Rightarrow> ('rx \<times> ReactorEvent) list \<Rightarrow> ReactorEvent list" where
  "received rx sent = map snd (filter (\<lambda>x. fst x = rx) sent)"

lemma received_dispatch:
  "distinct d \<Longrightarrow> rx \<in> set d \<Longrightarrow> alive rx \<Longrightarrow> received rx (fst (dispatch alive e d)) = [e]"
  unfolding received_def dispatch_def by (induction d) (auto simp: filter_empty_conv comp_def)

lemma received_run:
  assumes "rx \<in> set d" and "list_all (stays rx) ops" and "distinct (d @ [r. Subscribe r \<leftarrow> ops])"
  shows "received rx (fst (run_ops disp_step d ops)) = events_of ops"
  using assms
proof (induction ops arbitrary: d)
  case (Cons op ops)
  show ?case
  proof (cases op)
    case (Subscribe r)
    have "received rx (fst (run_ops disp_step (subscribe r d) ops)) = events_of ops"
      using Cons Subscribe by (intro Cons.IH) (auto simp: subscribe_def)
    then show ?thesis using Subscribe by (simp add: case_prod_unfold)
  next
    case (Dispatch alive e)
    then have rx: "alive rx" using Cons.prems(2) by (simp add: stays_def)
    have "received rx (fst (run_ops disp_step (filter alive d) ops)) = events_of ops"
      using Cons Dispatch rx by (intro Cons.IH) auto
    moreover have "received rx (fst (dispatch alive e d)) = [e]"
      using Cons.prems rx by (intro received_dispatch) auto
    moreover have "snd (dispatch alive e d) = filter alive d" by (simp add: dispatch_def)
    ultimately show ?thesis using Dispatch by (simp add: case_prod_unfold received_def)
  qed
qed (simp add: received_def)

text \<open>
  every event reaches every live subscriber once. A subscriber whose receiver stays alive gets each
  event dispatched after it subscribed, once and in order, whoever else subscribes or goes away.
\<close>

theorem subscriber_sees_every_event:
  assumes "rx \<notin> set d" and "distinct (d @ [r. Subscribe r \<leftarrow> ops])" and "list_all (stays rx) ops"
  shows "received rx (fst (run_ops disp_step (subscribe rx d) ops)) = events_of ops"
proof -
  have "Subscribe rx \<notin> set ops" using assms(3) by (auto simp: list_all_iff stays_def)
  then have "rx \<notin> set [r. Subscribe r \<leftarrow> ops]" by (auto split: disp_op.splits)
  then show ?thesis using assms by (intro received_run) (auto simp: subscribe_def)
qed

theorem subscriber_sees_every_event_witness:
  "received (1::nat) (fst (run_ops disp_step (subscribe 1 [])
     [Dispatch (\<lambda>_. True) (StatusChanged Connecting_s), Subscribe 2, Dispatch (\<lambda>r. r = 1) (SessionIdChanged None)]))
   = [StatusChanged Connecting_s, SessionIdChanged None]"
  by (subst subscriber_sees_every_event) (simp_all add: stays_def)

end
