(* ===== verification/Stage_Times.thy ===== *)
theory Stage_Times
  imports Wire
begin

text \<open>
  The time frames and messages spend in each stage: the totals the SDK keeps per connection
  (\<^verbatim>\<open>stage_times.rs\<close>, \<^verbatim>\<open>message_stages.rs\<close>) and the reporter that turns the engine's running
  totals into windows (\<open>MessageStageReporter\<close>). Both totals belong to one connection's window, a
  contract stated once in the locale \<open>windowed\<close>.
\<close>

section \<open>Frame stages\<close>

definition SUBMIT :: string where "SUBMIT = ''submit''"
definition DELIVERY :: string where "DELIVERY = ''delivery''"

definition STAGES :: "string list" where
  "STAGES = [SUBMIT, ''encode_wait'', ''encode'', ''packetize'', ''pacer'', ''jitter_buffer'', ''decode'',
     DELIVERY, ''output_pacing'', ''output_queue'']"

type_synonym stage_totals = "(string, f64 \<times> u64) hmap"
type_synonym Totals = "(string, stage_totals) hmap"

record StageTimes =
  st_totals :: Totals
  st_generation :: u64

definition StageTimes_new :: StageTimes where
  "StageTimes_new = \<lparr> st_totals = [], st_generation = 0 \<rparr>"

definition valid_ms :: "f64 \<Rightarrow> bool" where
  "valid_ms ms \<longleftrightarrow> is_finite ms \<and> \<not> f64_lt ms (Fin 0)"

definition add_entry :: "string \<Rightarrow> f64 \<Rightarrow> u64 \<Rightarrow> stage_totals \<Rightarrow> stage_totals" where
  "add_entry stage ms n m =
     (let (ms0, n0) = (case hm_get m stage of Some e \<Rightarrow> e | None \<Rightarrow> (Fin 0, 0))
      in hm_insert stage (f64_add ms0 ms, n0 + n) m)"

definition add_to :: "Totals \<Rightarrow> string \<Rightarrow> string \<Rightarrow> f64 \<Rightarrow> u64 \<Rightarrow> Totals" where
  "add_to totals track stage ms n =
     (if \<not> is_finite ms \<or> f64_lt ms (Fin 0) \<or> n = 0 then totals
      else hm_insert track
        (add_entry stage ms n (case hm_get totals track of Some m \<Rightarrow> m | None \<Rightarrow> [])) totals)"

definition st_begin_connection :: "StageTimes \<Rightarrow> StageTimes" where
  "st_begin_connection t = t\<lparr>st_totals := [], st_generation := st_generation t + 1\<rparr>"

definition st_add :: "string \<Rightarrow> string \<Rightarrow> f64 \<Rightarrow> StageTimes \<Rightarrow> StageTimes" where
  "st_add track stage ms t = t\<lparr>st_totals := add_to (st_totals t) track stage ms 1\<rparr>"

definition st_add_from :: "u64 \<Rightarrow> string \<Rightarrow> string \<Rightarrow> f64 \<Rightarrow> StageTimes \<Rightarrow> StageTimes" where
  "st_add_from gen track stage ms t =
     (if st_generation t = gen then t\<lparr>st_totals := add_to (st_totals t) track stage ms 1\<rparr> else t)"

definition frame_stage :: "string \<times> f64 \<times> u64 \<Rightarrow> FrameStage" where
  "frame_stage e = (case e of (stage, total_ms, n) \<Rightarrow>
     \<lparr> fs_name = stage, fs_total_ms = total_ms, fs_frames = n, fs_part_of = [] \<rparr>)"

definition st_take_from ::
    "(string \<times> f64 \<times> u64) iter \<Rightarrow> u64 \<Rightarrow> StageTimes \<Rightarrow> ((string, FrameStage list) hmap \<times> StageTimes) option" where
  "st_take_from it gen t =
     (if st_generation t \<noteq> gen then None
      else Some (map (\<lambda>(track, by_stage). (track, map frame_stage (iterate it by_stage))) (st_totals t),
                 t\<lparr>st_totals := []\<rparr>))"

definition give_stage :: "string \<Rightarrow> FrameStage \<Rightarrow> Totals \<Rightarrow> Totals" where
  "give_stage track stage totals =
     (if fs_name stage \<in> set STAGES
      then add_to totals track (fs_name stage) (fs_total_ms stage) (fs_frames stage) else totals)"

definition st_give_back ::
    "(string \<times> FrameStage list) iter \<Rightarrow> u64 \<Rightarrow> (string, FrameStage list) hmap \<Rightarrow> StageTimes \<Rightarrow> StageTimes" where
  "st_give_back it gen stages t =
     (if st_generation t \<noteq> gen then t
      else t\<lparr>st_totals := fold (\<lambda>(track, track_stages) totals. fold (give_stage track) track_stages totals)
               (iterate it stages) (st_totals t)\<rparr>)"

text \<open>The place of a name in the trip order; an unknown one comes last.\<close>

fun stage_position :: "string list \<Rightarrow> string \<Rightarrow> nat" where
  "stage_position [] n = 0"
| "stage_position (k # ks) n = (if k = n then 0 else Suc (stage_position ks n))"

definition sort_stages :: "FrameStage list \<Rightarrow> FrameStage list" where
  "sort_stages stages = sort_key (\<lambda>s. stage_position STAGES (fs_name s)) stages"

section \<open>Message stages\<close>

definition FFI_PARSE :: string where "FFI_PARSE = ''ffi_parse''"
definition SPAWN :: string where "SPAWN = ''spawn''"
definition BUILD :: string where "BUILD = ''build''"
definition ENCODE :: string where "ENCODE = ''encode''"
definition REPLY_DECODE :: string where "REPLY_DECODE = ''reply_decode''"
definition FFI_RETURN :: string where "FFI_RETURN = ''ffi_return''"
definition ENQUEUE :: string where "ENQUEUE = ''enqueue''"
definition QUEUE_WAIT :: string where "QUEUE_WAIT = ''queue_wait''"
definition FIRST_CHECK :: string where "FIRST_CHECK = ''first_check''"
definition FIRST_BUILD :: string where "FIRST_BUILD = ''first_build''"
definition FIRST_NATIVE :: string where "FIRST_NATIVE = ''first_native''"
definition SEND :: string where "SEND = ''send''"
definition REST_NATIVE :: string where "REST_NATIVE = ''rest_native''"
definition STALL :: string where "STALL = ''stall''"
definition REASSEMBLY :: string where "REASSEMBLY = ''reassembly''"
definition DISPATCH :: string where "DISPATCH = ''dispatch''"
definition HANDLER :: string where "HANDLER = ''handler''"

lemmas message_stage_names =
  FFI_PARSE_def SPAWN_def BUILD_def ENCODE_def REPLY_DECODE_def FFI_RETURN_def ENQUEUE_def QUEUE_WAIT_def
  FIRST_CHECK_def FIRST_BUILD_def FIRST_NATIVE_def SEND_def REST_NATIVE_def STALL_def REASSEMBLY_def
  DISPATCH_def HANDLER_def DELIVERY_def

record CommandEntry =
  entered_ms :: f64
  parsed_ms :: f64

definition MESSAGE_STAGES :: "string list" where
  "MESSAGE_STAGES = [FFI_PARSE, SPAWN, BUILD, ENCODE, ENQUEUE, QUEUE_WAIT, FIRST_CHECK, FIRST_BUILD,
     FIRST_NATIVE, SEND, REST_NATIVE, STALL, REASSEMBLY, DISPATCH, HANDLER, REPLY_DECODE, DELIVERY, FFI_RETURN]"

record MessageTimes =
  mt_totals :: stage_totals
  mt_generation :: u64

definition MessageTimes_new :: MessageTimes where
  "MessageTimes_new = \<lparr> mt_totals = [], mt_generation = 0 \<rparr>"

definition mt_begin_connection :: "MessageTimes \<Rightarrow> MessageTimes" where
  "mt_begin_connection t = t\<lparr>mt_totals := [], mt_generation := mt_generation t + 1\<rparr>"

definition mt_add_from :: "u64 \<Rightarrow> string \<Rightarrow> f64 \<Rightarrow> MessageTimes \<Rightarrow> MessageTimes" where
  "mt_add_from gen stage ms t =
     (if \<not> is_finite ms \<or> f64_lt ms (Fin 0) then t
      else if mt_generation t \<noteq> gen then t
      else t\<lparr>mt_totals := add_entry stage ms 1 (mt_totals t)\<rparr>)"

definition message_stage :: "string \<times> f64 \<times> u64 \<Rightarrow> MessageStage" where
  "message_stage e = (case e of (stage, total_ms, n) \<Rightarrow>
     \<lparr> ms_name = stage, ms_total_ms = total_ms, ms_messages = n, ms_part_of = [] \<rparr>)"

definition mt_take_from ::
    "(string \<times> f64 \<times> u64) iter \<Rightarrow> u64 \<Rightarrow> MessageTimes \<Rightarrow> (MessageStage list \<times> MessageTimes) option" where
  "mt_take_from it gen t =
     (if mt_generation t \<noteq> gen then None
      else Some (map message_stage (iterate it (mt_totals t)), t\<lparr>mt_totals := []\<rparr>))"

definition give_message_stage :: "MessageStage \<Rightarrow> stage_totals \<Rightarrow> stage_totals" where
  "give_message_stage stage totals =
     (if ms_name stage \<in> set MESSAGE_STAGES
      then add_entry (ms_name stage) (ms_total_ms stage) (ms_messages stage) totals else totals)"

definition mt_give_back :: "u64 \<Rightarrow> MessageStage list \<Rightarrow> MessageTimes \<Rightarrow> MessageTimes" where
  "mt_give_back gen stages t =
     (if mt_generation t \<noteq> gen then t
      else t\<lparr>mt_totals := fold give_message_stage stages (mt_totals t)\<rparr>)"

definition sort_message_stages :: "MessageStage list \<Rightarrow> MessageStage list" where
  "sort_message_stages stages = sort_key (\<lambda>s. stage_position MESSAGE_STAGES (ms_name s)) stages"

section \<open>The engine's message stages\<close>

definition PARTS :: "(string \<times> string) list" where
  "PARTS = [(FIRST_CHECK, QUEUE_WAIT), (FIRST_BUILD, QUEUE_WAIT), (FIRST_NATIVE, QUEUE_WAIT), (REST_NATIVE, SEND)]"

record ChunkingTotals =
  messages_sent :: u64
  queue_wait_s :: f64
  send_s :: f64
  stall_s :: f64
  messages_received :: u64
  reassembly_s :: f64
  enqueue_s :: f64
  first_check_s :: f64
  first_build_s :: f64
  first_native_s :: f64
  native_send_s :: f64

record Held =
  held_native_send_s :: f64
  held_stall_s :: f64

definition Held_default :: Held where
  "Held_default = \<lparr> held_native_send_s = Fin 0, held_stall_s = Fin 0 \<rparr>"

record MessageStageReporter =
  msr_last :: "ChunkingTotals option"
  msr_held :: Held
  msr_pending :: "(ChunkingTotals option \<times> Held) option"

definition MessageStageReporter_new :: MessageStageReporter where
  "MessageStageReporter_new = \<lparr> msr_last = None, msr_held = Held_default, msr_pending = None \<rparr>"

definition window_stage :: "string \<Rightarrow> f64 \<Rightarrow> u64 \<Rightarrow> MessageStage list" where
  "window_stage name seconds messages =
     (let total_ms = f64_mul seconds (Fin 1000)
      in if is_finite total_ms \<and> f64_le (Fin 0) total_ms
         then [\<lparr> ms_name = name, ms_total_ms = total_ms, ms_messages = messages,
                 ms_part_of = (case map_of PARTS name of Some stage \<Rightarrow> stage | None \<Rightarrow> []) \<rparr>]
         else [])"

definition sent_stages ::
    "ChunkingTotals \<Rightarrow> ChunkingTotals \<Rightarrow> f64 \<Rightarrow> f64 \<Rightarrow> u64 \<Rightarrow> MessageStage list" where
  "sent_stages now before native stall sent =
     (let first_native = f64_sub (first_native_s now) (first_native_s before)
      in window_stage ENQUEUE (f64_sub (enqueue_s now) (enqueue_s before)) sent
       @ window_stage QUEUE_WAIT (f64_sub (queue_wait_s now) (queue_wait_s before)) sent
       @ window_stage FIRST_CHECK (f64_sub (first_check_s now) (first_check_s before)) sent
       @ window_stage FIRST_BUILD (f64_sub (first_build_s now) (first_build_s before)) sent
       @ window_stage FIRST_NATIVE first_native sent
       @ window_stage SEND (f64_sub (send_s now) (send_s before)) sent
       @ window_stage REST_NATIVE (f64_sub native first_native) sent
       @ window_stage STALL stall sent)"

definition engine_stages ::
    "ChunkingTotals option \<Rightarrow> MessageStageReporter \<Rightarrow> MessageStage list \<times> MessageStageReporter" where
  "engine_stages chunking r =
     (let (sending, held) = (case (chunking, msr_last r) of
            (Some now, Some before) \<Rightarrow>
              if messages_sent now < messages_sent before then ([], Held_default)
              else
                let sent = messages_sent now - messages_sent before;
                    native = f64_add (f64_sub (native_send_s now) (native_send_s before)) (held_native_send_s (msr_held r));
                    stall = f64_add (f64_sub (stall_s now) (stall_s before)) (held_stall_s (msr_held r))
                in if sent = 0 then ([], \<lparr> held_native_send_s = native, held_stall_s = stall \<rparr>)
                   else (sent_stages now before native stall sent, Held_default)
          | _ \<Rightarrow> ([], Held_default));
          receiving = (case (chunking, msr_last r) of
            (Some now, Some before) \<Rightarrow>
              if messages_received now > messages_received before
              then window_stage REASSEMBLY (f64_sub (reassembly_s now) (reassembly_s before))
                     (messages_received now - messages_received before)
              else []
          | _ \<Rightarrow> [])
      in (sending @ receiving, r\<lparr>msr_pending := Some (chunking, held)\<rparr>))"

definition msr_commit :: "MessageStageReporter \<Rightarrow> MessageStageReporter" where
  "msr_commit r = (case msr_pending r of
     Some (chunking, held) \<Rightarrow> r\<lparr>msr_last := chunking, msr_held := held, msr_pending := None\<rparr>
   | None \<Rightarrow> r)"

section \<open>The contract of a connection's window\<close>

text \<open>
  Totals that belong to one connection: what another connection timed changes nothing, and what was
  taken for a batch that did not go out is put back as it was.
\<close>

locale windowed =
  fixes gen :: "'t \<Rightarrow> u64"
    and begin_conn :: "'t \<Rightarrow> 't"
    and add1 :: "u64 \<Rightarrow> 'k \<Rightarrow> f64 \<Rightarrow> 't \<Rightarrow> 't"
    and tk :: "u64 \<Rightarrow> 't \<Rightarrow> ('w \<times> 't) option"
    and give :: "u64 \<Rightarrow> 'w \<Rightarrow> 't \<Rightarrow> 't"
    and reading :: "'t \<Rightarrow> 'k \<Rightarrow> (f64 \<times> u64) option"
    and good :: "'t \<Rightarrow> bool"
  assumes begin_gen: "gen (begin_conn t) = gen t + 1"
    and begin_empty: "reading (begin_conn t) k = None"
    and stale_add: "gen t \<noteq> g \<Longrightarrow> add1 g k ms t = t"
    and stale_take: "gen t \<noteq> g \<Longrightarrow> tk g t = None"
    and stale_give: "gen t \<noteq> g \<Longrightarrow> give g ws t = t"
    and restore: "good t \<Longrightarrow> tk g t = Some (ws, t') \<Longrightarrow>
      reading t' = (\<lambda>_. None) \<and> gen t' = gen t \<and> reading (give g ws t') = reading t"
begin

definition stale_step :: "'t \<Rightarrow> u64 \<times> ('k \<times> f64 + 'w) \<Rightarrow> 't" where
  "stale_step t op = (case snd op of Inl (k, ms) \<Rightarrow> add1 (fst op) k ms t | Inr ws \<Rightarrow> give (fst op) ws t)"

lemma stale_run:
  assumes "\<And>op. op \<in> set ops \<Longrightarrow> fst op \<noteq> gen t"
  shows "foldl stale_step t ops = t"
  using assms
proof (induction ops)
  case (Cons op ops)
  then have "fst op \<noteq> gen t" by simp
  then have "stale_step t op = t"
    using stale_add [of t "fst op"] stale_give [of t "fst op"] by (auto simp: stale_step_def split: sum.splits)
  then show ?case using Cons by simp
qed simp

lemma window_starts_empty: "reading (foldl stale_step (begin_conn t) ops) k = None"
  if "\<And>op. op \<in> set ops \<Longrightarrow> fst op \<noteq> gen t + 1"
  using stale_run [of ops "begin_conn t"] that begin_gen begin_empty by simp

end

section \<open>The totals meet the contract\<close>

definition st_reading :: "StageTimes \<Rightarrow> string \<times> string \<Rightarrow> (f64 \<times> u64) option" where
  "st_reading t k = (case hm_get (st_totals t) (fst k) of None \<Rightarrow> None | Some m \<Rightarrow> hm_get m (snd k))"

definition mt_reading :: "MessageTimes \<Rightarrow> string \<Rightarrow> (f64 \<times> u64) option" where
  "mt_reading t k = hm_get (mt_totals t) k"

definition entries_good :: "string list \<Rightarrow> stage_totals \<Rightarrow> bool" where
  "entries_good names m \<longleftrightarrow> hm_ok m
     \<and> (\<forall>(s, ms, n) \<in> set m. s \<in> set names \<and> valid_ms ms \<and> f64_ok ms \<and> n \<noteq> 0)"

definition st_good :: "StageTimes \<Rightarrow> bool" where
  "st_good t \<longleftrightarrow> hm_ok (st_totals t) \<and> (\<forall>(track, m) \<in> set (st_totals t). entries_good STAGES m)"

definition mt_good :: "MessageTimes \<Rightarrow> bool" where
  "mt_good t \<longleftrightarrow> entries_good MESSAGE_STAGES (mt_totals t)"

lemma distinct_keys_iterate: "hm_ok m \<Longrightarrow> distinct (map fst (iterate it m))"
  unfolding hm_ok_def by (metis mset_eq_imp_distinct_iff mset_iterate mset_map)

lemma map_of_iterate: "hm_ok m \<Longrightarrow> map_of (iterate it m) = map_of m"
  using distinct_keys_iterate [of m it] by (simp add: map_of_inject_set hm_ok_def)

lemma hm_get_map_of: "hm_get m = map_of m"
  by (rule ext) (simp add: hm_get_def)

lemma add_entry_new:
  "hm_get m s = None \<Longrightarrow> f64_ok ms \<Longrightarrow> add_entry s ms n m = hm_insert s (ms, n) m"
  by (simp add: add_entry_def f64_add_0_left)

lemma give_message_fold:
  assumes "\<forall>(s, ms, n) \<in> set es. s \<in> set MESSAGE_STAGES \<and> f64_ok ms" and "distinct (map fst es)"
    and "\<And>s. s \<in> fst ` set es \<Longrightarrow> hm_get T s = None"
  shows "hm_get (fold give_message_stage (map message_stage es) T) = hm_get T ++ map_of es"
  using assms
proof (induction es arbitrary: T)
  case (Cons e es)
  obtain s ms n where e: "e = (s, ms, n)" by (metis surj_pair)
  have step: "give_message_stage (message_stage e) T = hm_insert s (ms, n) T"
    using Cons.prems(1,3) e by (simp add: give_message_stage_def message_stage_def add_entry_new)
  have "hm_get (fold give_message_stage (map message_stage es) (hm_insert s (ms, n) T))
      = hm_get (hm_insert s (ms, n) T) ++ map_of es"
    using Cons.prems e by (intro Cons.IH) auto
  also have "\<dots> = hm_get T ++ map_of (e # es)"
    using Cons.prems(2) e by (simp add: map_add_upd_left dom_map_of_conv_image_fst)
  finally show ?case by (simp only: list.map fold.simps comp_apply step)
qed simp

lemma give_stage_new:
  assumes "s \<in> set STAGES" and "valid_ms ms" and "f64_ok ms" and "n \<noteq> 0"
    and "hm_get (case hm_get T tr of Some m \<Rightarrow> m | None \<Rightarrow> []) s = None"
  shows "give_stage tr (frame_stage (s, ms, n)) T =
     hm_insert tr (hm_insert s (ms, n) (case hm_get T tr of Some m \<Rightarrow> m | None \<Rightarrow> [])) T"
  using assms by (simp add: give_stage_def frame_stage_def add_to_def valid_ms_def add_entry_new)

definition track_map :: "Totals \<Rightarrow> string \<Rightarrow> string \<Rightarrow> (f64 \<times> u64) option" where
  "track_map T tr = hm_get (case hm_get T tr of Some m \<Rightarrow> m | None \<Rightarrow> [])"

lemma give_track_fold:
  assumes "\<forall>(s, ms, n) \<in> set es. s \<in> set STAGES \<and> valid_ms ms \<and> f64_ok ms \<and> n \<noteq> 0" and "distinct (map fst es)"
    and "\<And>s. s \<in> fst ` set es \<Longrightarrow> track_map T tr s = None"
  shows "track_map (fold (give_stage tr) (map frame_stage es) T) =
     (track_map T)(tr := track_map T tr ++ map_of es)"
  using assms
proof (induction es arbitrary: T)
  case (Cons e es)
  obtain s ms n where e: "e = (s, ms, n)" by (metis surj_pair)
  let ?T = "hm_insert tr (hm_insert s (ms, n) (case hm_get T tr of Some m \<Rightarrow> m | None \<Rightarrow> [])) T"
  have step: "give_stage tr (frame_stage e) T = ?T"
    using Cons.prems(1,3) e by (simp add: give_stage_new track_map_def)
  have T: "track_map ?T = (track_map T)(tr := (track_map T tr)(s \<mapsto> (ms, n)))"
    by (auto simp: fun_eq_iff track_map_def)
  have "track_map (fold (give_stage tr) (map frame_stage es) ?T) =
      (track_map ?T)(tr := track_map ?T tr ++ map_of es)"
    using Cons.prems e T by (intro Cons.IH) auto
  also have "\<dots> = (track_map T)(tr := track_map T tr ++ map_of (e # es))"
    using Cons.prems(2) e T by (simp add: map_add_upd_left dom_map_of_conv_image_fst)
  finally show ?case by (simp only: list.map fold.simps comp_apply step)
qed simp

lemma give_tracks_fold:
  assumes "\<forall>(tr, es) \<in> set ts. distinct (map fst es)
      \<and> (\<forall>(s, ms, n) \<in> set es. s \<in> set STAGES \<and> valid_ms ms \<and> f64_ok ms \<and> n \<noteq> 0)"
    and "distinct (map fst ts)" and "\<And>tr. tr \<in> fst ` set ts \<Longrightarrow> track_map T tr = Map.empty"
  shows "track_map (fold (\<lambda>(tr, ss) T. fold (give_stage tr) ss T) (map (\<lambda>(tr, es). (tr, map frame_stage es)) ts) T) tr =
     (case map_of ts tr of Some es \<Rightarrow> map_of es | None \<Rightarrow> track_map T tr)"
  using assms
proof (induction ts arbitrary: T)
  case (Cons t ts)
  obtain n es where t: "t = (n, es)" by (metis surj_pair)
  have one: "track_map (fold (give_stage n) (map frame_stage es) T) = (track_map T)(n := map_of es)"
    using give_track_fold [of es T n] Cons.prems(1,3) t by simp
  have "track_map (fold (\<lambda>(tr, ss) T. fold (give_stage tr) ss T) (map (\<lambda>(tr, es). (tr, map frame_stage es)) ts)
        (fold (give_stage n) (map frame_stage es) T)) tr
      = (case map_of ts tr of Some es \<Rightarrow> map_of es
         | None \<Rightarrow> track_map (fold (give_stage n) (map frame_stage es) T) tr)"
    using Cons.prems t one by (intro Cons.IH) auto
  then show ?case using t one Cons.prems(2)
    by (auto simp: map_of_eq_None_iff rev_image_eqI split: option.splits dest: map_of_SomeD)
qed simp


lemma st_reading_track_map: "st_reading t (tr, s) = track_map (st_totals t) tr s"
  by (simp add: st_reading_def track_map_def split: option.splits)

lemma mt_restore:
  assumes "mt_good t" and "mt_take_from it g t = Some (ws, t')"
  shows "mt_reading t' = (\<lambda>_. None) \<and> mt_generation t' = mt_generation t
    \<and> mt_reading (mt_give_back g ws t') = mt_reading t"
proof -
  have ok: "hm_ok (mt_totals t)" and es: "\<forall>(s, ms, n) \<in> set (mt_totals t). s \<in> set MESSAGE_STAGES \<and> f64_ok ms"
    using assms(1) by (auto simp: mt_good_def entries_good_def)
  have g: "mt_generation t = g" and ws: "ws = map message_stage (iterate it (mt_totals t))"
    and t': "t' = t\<lparr>mt_totals := []\<rparr>"
    using assms(2) by (auto simp: mt_take_from_def split: if_splits)
  have "hm_get (fold give_message_stage ws []) = hm_get [] ++ map_of (iterate it (mt_totals t))"
    unfolding ws using es distinct_keys_iterate [OF ok] by (intro give_message_fold) auto
  then have "hm_get (fold give_message_stage ws []) = hm_get (mt_totals t)"
    using map_of_iterate [OF ok] by (simp add: hm_get_map_of)
  then show ?thesis using t' g by (auto simp: mt_reading_def mt_give_back_def fun_eq_iff)
qed

lemma mset_eq_mapE: "mset ys = mset (map f xs) \<Longrightarrow> \<exists>zs. ys = map f zs \<and> mset zs = mset xs"
proof (induction ys arbitrary: xs)
  case (Cons y ys)
  have "y \<in> set (map f xs)" using Cons.prems by (metis list.set_intros(1) set_mset_mset)
  then obtain x where x: "x \<in> set xs" "f x = y" by auto
  then have "mset xs = add_mset x (mset (remove1 x xs))" by simp
  then have "mset (map f xs) = add_mset y (mset (map f (remove1 x xs)))" using x by (metis image_mset_add_mset mset_map)
  then have "mset ys = mset (map f (remove1 x xs))" using Cons.prems by simp
  then obtain zs where "ys = map f zs" "mset zs = mset (remove1 x xs)" using Cons.IH by blast
  then show ?case using x by (intro exI [of _ "x # zs"]) simp
qed simp

lemma st_restore:
  assumes "st_good t" and "st_take_from it g t = Some (ws, t')"
  shows "st_reading t' = (\<lambda>_. None) \<and> st_generation t' = st_generation t
    \<and> st_reading (st_give_back it' g ws t') = st_reading t"
proof -
  let ?es = "map (\<lambda>(track, m). (track, iterate it m)) (st_totals t)"
  let ?give = "\<lambda>(tr, ss) T. fold (give_stage tr) ss T"
  have ok: "hm_ok (st_totals t)" and good: "\<And>tr m. (tr, m) \<in> set (st_totals t) \<Longrightarrow> entries_good STAGES m"
    using assms(1) by (auto simp: st_good_def)
  have g: "st_generation t = g" and t': "t' = t\<lparr>st_totals := []\<rparr>"
    and ws: "ws = map (\<lambda>(tr, es). (tr, map frame_stage es)) ?es"
    using assms(2) by (auto simp: st_take_from_def comp_def case_prod_unfold split: if_splits)
  obtain ts where it: "iterate it' ws = map (\<lambda>(tr, es). (tr, map frame_stage es)) ts" and ts: "mset ts = mset ?es"
    using mset_eq_mapE [of "iterate it' ws" "\<lambda>(tr, es). (tr, map frame_stage es)" ?es] ws by auto
  have keys: "distinct (map fst ts)"
  proof -
    have "mset (map fst ts) = mset (map fst (st_totals t))"
      using ts by (simp add: image_mset.compositionality comp_def case_prod_unfold)
    then show ?thesis using ok mset_eq_imp_distinct_iff unfolding hm_ok_def by blast
  qed
  have mem: "set ts = set ?es" using ts mset_eq_setD by blast
  have each: "distinct (map fst es) \<and> (\<forall>(s, ms, n) \<in> set es. s \<in> set STAGES \<and> valid_ms ms \<and> f64_ok ms \<and> n \<noteq> 0)"
    if in_ts: "(tr, es) \<in> set ts" for tr es
  proof -
    obtain m where "(tr, m) \<in> set (st_totals t)" "es = iterate it m" using in_ts unfolding mem by auto
    with good [OF this(1)] distinct_keys_iterate [of m it] show ?thesis by (simp add: entries_good_def)
  qed
  then have all: "\<forall>(tr, es) \<in> set ts. distinct (map fst es)
      \<and> (\<forall>(s, ms, n) \<in> set es. s \<in> set STAGES \<and> valid_ms ms \<and> f64_ok ms \<and> n \<noteq> 0)"
    by (intro ballI) (simp split: prod.split, blast)
  have look: "map_of ts tr = map_option (iterate it) (map_of (st_totals t) tr)" for tr
  proof -
    have "map_of ts = map_of ?es"
      using keys mem ok by (subst map_of_inject_set) (auto simp: hm_ok_def comp_def case_prod_unfold)
    then show ?thesis by (simp add: map_of_map)
  qed
  have "track_map (fold ?give (iterate it' ws) []) tr = track_map (st_totals t) tr" for tr
  proof -
    have "track_map (fold ?give (iterate it' ws) []) tr
        = (case map_of ts tr of Some es \<Rightarrow> map_of es | None \<Rightarrow> track_map [] tr)"
      unfolding it using all keys by (rule give_tracks_fold) (simp add: track_map_def hm_get_map_of)
    also have "\<dots> = track_map (st_totals t) tr"
    proof (cases "map_of (st_totals t) tr")
      case (Some m)
      then have "hm_ok m" using good [OF map_of_SomeD [OF Some]] by (simp add: entries_good_def)
      then show ?thesis using look [of tr] Some by (simp add: track_map_def hm_get_map_of map_of_iterate)
    qed (simp add: look track_map_def hm_get_map_of)
    finally show ?thesis .
  qed
  then show ?thesis using t' g by (auto simp: st_give_back_def st_reading_track_map fun_eq_iff)
      (simp add: track_map_def)
qed

interpretation st: windowed st_generation st_begin_connection "\<lambda>g k ms. st_add_from g (fst k) (snd k) ms"
    "st_take_from it" "st_give_back it'" st_reading st_good for it it'
  by unfold_locales
    (auto simp: st_begin_connection_def st_reading_def st_add_from_def st_take_from_def st_give_back_def
      dest: st_restore [of _ it _ _ _ it'] split: if_splits)

interpretation mt: windowed mt_generation mt_begin_connection mt_add_from "mt_take_from it" mt_give_back
    mt_reading mt_good for it
  by unfold_locales
    (auto simp: mt_begin_connection_def mt_reading_def mt_add_from_def mt_take_from_def mt_give_back_def
      dest: mt_restore [of _ it] split: if_splits)

section \<open>Properties\<close>

text \<open>
  a batch that did not go out loses nothing. The frame stages and the message stages taken for it,
  in whatever order the maps list them, are back exactly as they were once given back, in the same
  connection.
\<close>

theorem stages_given_back:
  assumes "st_good t" and "st_take_from it (st_generation t) t = Some (ws, t1)"
    and "mt_good m" and "mt_take_from it'' (mt_generation m) m = Some (ms, m1)"
  shows "st_reading (st_give_back it' (st_generation t) ws t1) = st_reading t
    \<and> mt_reading (mt_give_back (mt_generation m) ms m1) = mt_reading m"
  using st.restore [OF assms(1,2)] mt.restore [OF assms(3,4)] by blast

theorem stages_given_back_witness:
  "mt_reading (mt_give_back 1 [message_stage (BUILD, Fin 2, 1)] \<lparr> mt_totals = [], mt_generation = 1 \<rparr>)
     = mt_reading \<lparr> mt_totals = [(BUILD, Fin 2, 1)], mt_generation = 1 \<rparr>"
proof -
  let ?t = "\<lparr> st_totals = [], st_generation = 1 \<rparr>"
  let ?m = "\<lparr> mt_totals = [(BUILD, Fin 2, 1)], mt_generation = 1 \<rparr>"
  have two: "f64_ok (Fin 2)" using f64_ok_round64 [of 2] by simp
  have good: "st_good ?t" "mt_good ?m"
    using two by (auto simp: st_good_def mt_good_def entries_good_def hm_ok_def MESSAGE_STAGES_def valid_ms_def)
  have taken: "st_take_from in_order (st_generation ?t) ?t = Some ([], ?t)"
    "mt_take_from in_order (mt_generation ?m) ?m
       = Some ([message_stage (BUILD, Fin 2, 1)], \<lparr> mt_totals = [], mt_generation = 1 \<rparr>)"
    by (simp_all add: st_take_from_def mt_take_from_def)
  from stages_given_back [OF good(1) taken(1) good(2) taken(2)] show ?thesis by simp
qed

lemma window_stage_ok:
  "s \<in> set (window_stage name seconds n) \<Longrightarrow> ms_name s = name \<and> ms_messages s = n
     \<and> is_finite (ms_total_ms s) \<and> f64_le (Fin 0) (ms_total_ms s)
     \<and> ms_part_of s = (case map_of PARTS name of Some stage \<Rightarrow> stage | None \<Rightarrow> [])"
  by (auto simp: window_stage_def Let_def split: if_splits)

lemma sent_stages_ok:
  "s \<in> set (sent_stages now before native stall n) \<Longrightarrow> ms_name s \<in> set MESSAGE_STAGES \<and> ms_messages s = n
     \<and> is_finite (ms_total_ms s) \<and> f64_le (Fin 0) (ms_total_ms s)
     \<and> ms_part_of s = (case map_of PARTS (ms_name s) of Some stage \<Rightarrow> stage | None \<Rightarrow> [])"
  unfolding sent_stages_def Let_def set_append Un_iff
  by (elim disjE) (drule window_stage_ok; simp add: MESSAGE_STAGES_def)+

text \<open>
  A report of the engine's message stages is well formed and repeatable. Every stage it names is a
  known one, with a finite time that is not negative, at least one message, and the stage it is part of
  when it is a part; and a report that is not committed leaves the next one as if it had not been made.
\<close>

theorem engine_stages_report:
  "(\<forall>s \<in> set (fst (engine_stages chunking r)). ms_name s \<in> set MESSAGE_STAGES \<and> ms_messages s \<noteq> 0
      \<and> is_finite (ms_total_ms s) \<and> f64_le (Fin 0) (ms_total_ms s)
      \<and> ms_part_of s = (case map_of PARTS (ms_name s) of Some stage \<Rightarrow> stage | None \<Rightarrow> []))
   \<and> engine_stages chunking' (snd (engine_stages chunking r)) = engine_stages chunking' r"
proof (rule conjI, rule ballI)
  fix s assume s: "s \<in> set (fst (engine_stages chunking r))"
  have received: "x > y \<Longrightarrow> x - y \<noteq> 0" for x y :: u64 by simp
  have "REASSEMBLY \<in> set MESSAGE_STAGES" by (simp add: MESSAGE_STAGES_def)
  then show "ms_name s \<in> set MESSAGE_STAGES \<and> ms_messages s \<noteq> 0
      \<and> is_finite (ms_total_ms s) \<and> f64_le (Fin 0) (ms_total_ms s)
      \<and> ms_part_of s = (case map_of PARTS (ms_name s) of Some stage \<Rightarrow> stage | None \<Rightarrow> [])"
    using s received
    by (auto simp: engine_stages_def Let_def split: option.splits if_splits
        dest!: sent_stages_ok window_stage_ok)
next
  show "engine_stages chunking' (snd (engine_stages chunking r)) = engine_stages chunking' r"
    by (simp add: engine_stages_def Let_def case_prod_unfold split: option.split)
qed

definition sample_totals :: "u64 \<Rightarrow> ChunkingTotals" where
  "sample_totals n = \<lparr> messages_sent = n, queue_wait_s = Fin 0, send_s = Fin 0, stall_s = Fin 0,
     messages_received = 0, reassembly_s = Fin 0, enqueue_s = Fin 0, first_check_s = Fin 0,
     first_build_s = Fin 0, first_native_s = Fin 0, native_send_s = Fin 0 \<rparr>"

theorem engine_stages_report_witness:
  "engine_stages None (snd (engine_stages (Some (sample_totals 2))
      (MessageStageReporter_new\<lparr>msr_last := Some (sample_totals 1)\<rparr>)))
   = engine_stages None (MessageStageReporter_new\<lparr>msr_last := Some (sample_totals 1)\<rparr>)
   \<and> list_all (\<lambda>s. ms_messages s \<noteq> 0) (fst (engine_stages (Some (sample_totals 2))
      (MessageStageReporter_new\<lparr>msr_last := Some (sample_totals 1)\<rparr>)))"
  using engine_stages_report [of "Some (sample_totals 2)" "MessageStageReporter_new\<lparr>msr_last := Some (sample_totals 1)\<rparr>" None]
  unfolding list_all_iff by blast

end
