(* ===== verification/Peer.thy ===== *)
theory Peer
  imports Effects Stage_Times
begin

text \<open>
  The WebRTC engine's interface (\<^verbatim>\<open>peer.rs\<close>) and the timers of \<^verbatim>\<open>runtime.rs\<close>. The engine is the
  host's: \<open>transport\<close> holds the methods of the trait \<^verbatim>\<open>PeerTransport\<close>, an argument of every
  definition that calls one. An awaited method maps the whole state, since other tasks run while its
  caller is suspended; a method that returns at once acts on the host's own state, of type \<^typ>\<open>'w\<close>.
\<close>

section \<open>Events\<close>

datatype PeerConnectionState = PC_New | PC_Connecting | PC_Connected | PC_Disconnected | PC_Failed | PC_Closed

fun show_PeerConnectionState :: "PeerConnectionState \<Rightarrow> string" where
  "show_PeerConnectionState PC_New = ''New''"
| "show_PeerConnectionState PC_Connecting = ''Connecting''"
| "show_PeerConnectionState PC_Connected = ''Connected''"
| "show_PeerConnectionState PC_Disconnected = ''Disconnected''"
| "show_PeerConnectionState PC_Failed = ''Failed''"
| "show_PeerConnectionState PC_Closed = ''Closed''"

datatype PeerEvent =
    ConnectionStateChanged PeerConnectionState
  | DataChannelOpen
  | ControlChannelOpen
  | DataChannelMessage bytes
  | ControlChannelMessage bytes
  | PE_TrackReceived (te_name: "string option") (te_mid: "string option")
  | PE_IceCandidate IceCandidate
  | IceGatheringComplete

section \<open>Statistics\<close>

type_synonym i32 = int
type_synonym i64 = int

datatype StreamKind = SK_Unknown | SK_Audio | SK_Video

datatype IceCandidateType = CT_Unknown | CT_Host | CT_Srflx | CT_Prflx | CT_Relay

fun IceCandidateType_as_str :: "IceCandidateType \<Rightarrow> string option" where
  "IceCandidateType_as_str CT_Unknown = None"
| "IceCandidateType_as_str CT_Host = Some ''host''"
| "IceCandidateType_as_str CT_Srflx = Some ''srflx''"
| "IceCandidateType_as_str CT_Prflx = Some ''prflx''"
| "IceCandidateType_as_str CT_Relay = Some ''relay''"

datatype RelayProtocol = RP_NotRelayed | RP_Udp | RP_Tcp | RP_Tls

fun RelayProtocol_as_str :: "RelayProtocol \<Rightarrow> string option" where
  "RelayProtocol_as_str RP_NotRelayed = None"
| "RelayProtocol_as_str RP_Udp = Some ''udp''"
| "RelayProtocol_as_str RP_Tcp = Some ''tcp''"
| "RelayProtocol_as_str RP_Tls = Some ''tls''"

record TimingFrame =
  rtp_timestamp :: u32
  encode_wait_ms :: f64
  packetize_ms :: f64
  pacer_ms :: f64

record InboundRtpStats =
  in_ssrc :: u32
  in_kind :: StreamKind
  in_mid :: "string option"
  in_codec_mime_type :: "string option"
  in_packets_received :: u32
  in_bytes_received :: u64
  in_jitter_s :: f64
  in_packets_lost :: i32
  in_nack_count :: u32
  in_pli_count :: u32
  in_fir_count :: u32
  in_total_decode_time_s :: f64
  in_frames_per_second :: f64
  in_frames_decoded :: u32
  in_frames_dropped :: u32
  in_frame_width :: u32
  in_frame_height :: u32
  in_jitter_buffer_delay_s :: f64
  in_jitter_buffer_emitted_count :: u64
  in_timing_frame :: "TimingFrame option"
  in_decoder_implementation :: "string option"
  in_power_efficient_decoder :: "bool option"
  in_total_samples_received :: u64
  in_concealed_samples :: u64

record OutboundRtpStats =
  out_ssrc :: u32
  out_kind :: StreamKind
  out_mid :: "string option"
  out_codec_mime_type :: "string option"
  out_packets_sent :: u64
  out_bytes_sent :: u64
  out_target_bitrate_bps :: f64
  out_round_trip_time_s :: f64
  out_total_round_trip_time_s :: f64
  out_fraction_lost :: f64
  out_packets_lost :: i32
  out_jitter_s :: f64
  out_retransmitted_packets_sent :: u64
  out_nack_count :: u32
  out_pli_count :: u32
  out_fir_count :: u32
  out_frames_per_second :: f64
  out_frames_sent :: u32
  out_frame_width :: u32
  out_frame_height :: u32
  out_frames_encoded :: u32
  out_total_encode_time_s :: f64
  out_encoder_implementation :: "string option"
  out_power_efficient_encoder :: "bool option"

datatype CandidatePairState = CP_Waiting | CP_InProgress | CP_Failed | CP_Succeeded | CP_Cancelled

fun CandidatePairState_as_str :: "CandidatePairState \<Rightarrow> string" where
  "CandidatePairState_as_str CP_Waiting = ''waiting''"
| "CandidatePairState_as_str CP_InProgress = ''in-progress''"
| "CandidatePairState_as_str CP_Failed = ''failed''"
| "CandidatePairState_as_str CP_Succeeded = ''succeeded''"
| "CandidatePairState_as_str CP_Cancelled = ''cancelled''"

record CandidatePairStats =
  cp_current_round_trip_time_s :: f64
  cp_total_round_trip_time_s :: f64
  cp_priority :: u64
  cp_state :: CandidatePairState
  cp_nominated :: bool
  cp_writable :: bool
  cp_available_outgoing_bitrate_bps :: f64
  cp_available_incoming_bitrate_bps :: f64
  cp_bytes_sent :: u64
  cp_bytes_received :: u64
  cp_packets_sent :: u64
  cp_packets_received :: u64
  cp_local_candidate_type :: IceCandidateType
  cp_local_relay_protocol :: RelayProtocol

record TransportStats =
  inbound :: "InboundRtpStats list"
  outbound :: "OutboundRtpStats list"
  candidate_pairs :: "CandidatePairStats list"
  data_chunking :: "ChunkingTotals option"

section \<open>The engine and the timers\<close>

record PreparedOffer =
  po_sdp_offer :: string
  po_track_mapping :: "TrackMappingEntry list"

record PlatformInfo =
  pi_os :: string
  pi_os_version :: string
  pi_arch :: string
  pi_device_model :: string

text \<open>
  \<open>race_sleep d\<close> is what becomes of the state while a task waits for a channel's receiver or for a
  sleep of \<open>d\<close>, whichever comes first. The monotonic clock moves on between two readings.
\<close>

record ('s, 'w) transport =
  peer_prepare :: "IceServer list \<Rightarrow> TrackCapability list \<Rightarrow> ('s, PreparedOffer) io"
  peer_set_remote_description :: "string \<Rightarrow> ('s, unit) io"
  peer_set_track_direction :: "string \<Rightarrow> bool \<Rightarrow> ('s, unit) io"
  peer_set_bitrate :: "i32 option \<Rightarrow> i32 option \<Rightarrow> i32 option \<Rightarrow> ('s, unit) io"
  peer_set_track_bitrate :: "string \<Rightarrow> i32 option \<Rightarrow> i32 option \<Rightarrow> ('s, unit) io"
  peer_get_stats :: "('s, TransportStats) io"
  peer_close :: "('s, unit) io"
  race_sleep :: "duration \<Rightarrow> 's \<Rightarrow> 's"
  peer_send_data :: "bytes \<Rightarrow> bool \<Rightarrow> 'w \<Rightarrow> (CoreError, unit) result \<times> 'w"
  peer_send_control :: "bytes \<Rightarrow> 'w \<Rightarrow> (CoreError, unit) result \<times> 'w"
  peer_max_message_bytes :: "'w \<Rightarrow> nat"
  peer_data_channel_chunked :: "'w \<Rightarrow> bool"
  peer_push_video_frame :: "string \<Rightarrow> bytes \<Rightarrow> u32 \<Rightarrow> u32 \<Rightarrow> 'w \<Rightarrow> 'w"
  peer_push_video_frame_with_metadata :: "string \<Rightarrow> bytes \<Rightarrow> u32 \<Rightarrow> u32 \<Rightarrow> bytes \<Rightarrow> 'w \<Rightarrow> 'w"
  peer_push_video_frame_with_metadata_at :: "string \<Rightarrow> bytes \<Rightarrow> u32 \<Rightarrow> u32 \<Rightarrow> bytes \<Rightarrow> i64 \<Rightarrow> 'w \<Rightarrow> 'w"
  peer_push_audio_frame :: "string \<Rightarrow> u16 list \<Rightarrow> u32 \<Rightarrow> u32 \<Rightarrow> 'w \<Rightarrow> 'w"
  monotonic_ms :: "'w \<Rightarrow> f64 \<times> 'w"
  platform_info :: PlatformInfo

definition timeout_error :: "duration \<Rightarrow> string \<Rightarrow> CoreError" where
  "timeout_error d what = Timeout (what @ '' did not complete within '' @ show_duration d)"

text \<open>
  A oneshot channel as its receiver sees it, and \<^verbatim>\<open>timeout\<close> around it: the receiver is asked first,
  before the task suspends. \<^const>\<open>None\<close> is the cancelled channel.
\<close>

datatype 'a rx = Rx_Sent 'a | Rx_Dropped | Rx_Pending

fun rx_value :: "'a rx \<Rightarrow> 'a option" where
  "rx_value (Rx_Sent x) = Some x"
| "rx_value _ = None"

definition timeout_rx :: "('s, 'w) transport \<Rightarrow> duration \<Rightarrow> string \<Rightarrow> ('s \<Rightarrow> 'a rx) \<Rightarrow> ('s, 'a option) io" where
  "timeout_rx tr d what rx = (\<lambda>s.
     if rx s \<noteq> Rx_Pending then (Inr (rx_value (rx s)), s)
     else let s' = race_sleep tr d s
          in if rx s' \<noteq> Rx_Pending then (Inr (rx_value (rx s')), s')
             else (Inl (Fail (timeout_error d what)), s'))"

lemma wp_timeout_rx:
  "wp (timeout_rx tr d what rx) Q E s =
     (if rx s \<noteq> Rx_Pending then Q (rx_value (rx s)) s
      else let s' = race_sleep tr d s
           in if rx s' \<noteq> Rx_Pending then Q (rx_value (rx s')) s' else E (Fail (timeout_error d what)) s')"
  by (simp add: wp_def timeout_rx_def Let_def)

lemma preserves_timeout_rx [inv_intros]:
  "(\<And>s. P s \<Longrightarrow> P (race_sleep tr d s)) \<Longrightarrow> preserves (timeout_rx tr d what rx) P"
  by (simp add: preserves_def timeout_rx_def Let_def)

end
