(* ===== verification/Stats.thy ===== *)
theory Stats
  imports Peer
begin

text \<open>
  Connection statistics (\<^verbatim>\<open>stats.rs\<close>): one derived snapshot per call of \<open>sample\<close>, with rates against
  the previous sample, which is the only state the sampler keeps.
\<close>

section \<open>Arithmetic\<close>

text \<open>
  Division of two floats. No divisor of the modelled code is a zero: a loss ratio divides by a positive
  count, a rate by a positive time.
\<close>

fun f64_div :: "f64 \<Rightarrow> f64 \<Rightarrow> f64" where
  "f64_div (Fin x) (Fin y) = (if y = 0 then (if x = 0 then NaN else signed_inf (0 < x)) else round64 (x / y))"
| "f64_div NaN _ = NaN"
| "f64_div _ NaN = NaN"
| "f64_div (Fin x) _ = Fin 0"
| "f64_div Inf (Fin y) = signed_inf (0 \<le> y)"
| "f64_div NegInf (Fin y) = signed_inf (y < 0)"
| "f64_div _ _ = NaN"

text \<open>A cast to a signed 64-bit integer truncates, saturates, and maps NaN to zero.\<close>

fun f64_as_i64 :: "f64 \<Rightarrow> int" where
  "f64_as_i64 (Fin x) = max (- (2 ^ 63)) (min (2 ^ 63 - 1) (if 0 \<le> x then \<lfloor>x\<rfloor> else \<lceil>x\<rceil>))"
| "f64_as_i64 Inf = 2 ^ 63 - 1"
| "f64_as_i64 NegInf = - (2 ^ 63)"
| "f64_as_i64 NaN = 0"

definition f64_of_u32 :: "u32 \<Rightarrow> f64" where
  "f64_of_u32 n = f64_of_nat (unat n)"

definition f64_of_u64 :: "u64 \<Rightarrow> f64" where
  "f64_of_u64 n = f64_of_nat (unat n)"

text \<open>A reading the engine reports as zero until it has measured one.\<close>

definition measured :: "f64 \<Rightarrow> f64 option" where
  "measured x = (if is_finite x \<and> f64_lt (Fin 0) x then Some x else None)"

section \<open>Snapshots\<close>

definition MIN_RATE_WINDOW_MS :: f64 where
  "MIN_RATE_WINDOW_MS = Fin 200"

record InboundStats =
  ib_ssrc :: u32
  ib_kind :: "string option"
  ib_packets_received :: u32
  ib_packets_lost :: i32
  ib_bytes_received :: u64
  ib_jitter_s :: f64
  ib_nack_count :: u32
  ib_total_decode_time_s :: f64
  ib_frames_per_second :: f64
  ib_frames_decoded :: u32
  ib_frames_dropped :: u32
  ib_frame_width :: u32
  ib_frame_height :: u32

record OutboundStats =
  ob_ssrc :: u32
  ob_kind :: "string option"
  ob_packets_sent :: u64
  ob_retransmitted_packets_sent :: u64
  ob_bytes_sent :: u64
  ob_target_bitrate_bps :: f64
  ob_round_trip_time_s :: f64
  ob_total_round_trip_time_s :: f64
  ob_fraction_lost :: f64
  ob_packets_lost :: i32
  ob_frames_per_second :: f64
  ob_frames_sent :: u32
  ob_frame_width :: u32
  ob_frame_height :: u32

record CandidatePair =
  cd_current_round_trip_time_s :: f64
  cd_total_round_trip_time_s :: f64
  cd_priority :: u64
  cd_state :: string
  cd_nominated :: bool
  cd_writable :: bool
  cd_available_outgoing_bitrate_bps :: f64
  cd_available_incoming_bitrate_bps :: f64
  cd_bytes_sent :: u64
  cd_bytes_received :: u64
  cd_packets_sent :: u64
  cd_packets_received :: u64
  cd_local_candidate_type :: "string option"
  cd_local_relay_protocol :: "string option"

record ConnectionStats =
  cs_rtt_ms :: "f64 option"
  cs_jitter_s :: "f64 option"
  cs_packet_loss_ratio :: "f64 option"
  cs_incoming_bitrate_bps :: "f64 option"
  cs_outgoing_bitrate_bps :: "f64 option"
  cs_available_incoming_bitrate_bps :: "f64 option"
  cs_available_outgoing_bitrate_bps :: "f64 option"
  cs_target_bitrate_bps :: "f64 option"
  cs_frames_per_second :: "f64 option"
  cs_candidate_type :: "string option"
  cs_relay_protocol :: "string option"
  cs_candidate_pair_state :: "string option"
  cs_packets_received :: u64
  cs_packets_lost :: i64
  cs_packets_sent :: u64
  cs_bytes_received :: u64
  cs_bytes_sent :: u64
  cs_timestamp_ms :: f64
  cs_inbound :: "InboundStats list"
  cs_outbound :: "OutboundStats list"
  cs_candidate_pairs :: "CandidatePair list"

definition ConnectionStats_default :: ConnectionStats where
  "ConnectionStats_default = \<lparr> cs_rtt_ms = None, cs_jitter_s = None, cs_packet_loss_ratio = None,
     cs_incoming_bitrate_bps = None, cs_outgoing_bitrate_bps = None, cs_available_incoming_bitrate_bps = None,
     cs_available_outgoing_bitrate_bps = None, cs_target_bitrate_bps = None, cs_frames_per_second = None,
     cs_candidate_type = None, cs_relay_protocol = None, cs_candidate_pair_state = None,
     cs_packets_received = 0, cs_packets_lost = 0, cs_packets_sent = 0, cs_bytes_received = 0, cs_bytes_sent = 0,
     cs_timestamp_ms = Fin 0, cs_inbound = [], cs_outbound = [], cs_candidate_pairs = [] \<rparr>"

record Baseline =
  at_ms :: f64
  bl_bytes_received :: u64
  bl_bytes_sent :: u64
  pair_priority :: u64
  streams :: "u32 list"

type_synonym StatsSampler = "Baseline option"

definition StatsSampler_new :: StatsSampler where
  "StatsSampler_new = None"

definition stats_reset :: "StatsSampler \<Rightarrow> StatsSampler" where
  "stats_reset _ = None"

fun stream_kind_str :: "StreamKind \<Rightarrow> string option" where
  "stream_kind_str SK_Unknown = None"
| "stream_kind_str SK_Audio = Some ''audio''"
| "stream_kind_str SK_Video = Some ''video''"

definition loss_ratio :: "u64 \<Rightarrow> u64 \<Rightarrow> f64 option" where
  "loss_ratio received lost =
     (let accounted = received + lost
      in if 0 < accounted then Some (f64_div (f64_of_u64 lost) (f64_of_u64 accounted)) else None)"

definition rate_bps :: "u64 \<Rightarrow> u64 \<Rightarrow> f64 \<Rightarrow> f64" where
  "rate_bps previous_bytes current_bytes elapsed_ms =
     (let delta_bits = f64_mul (f64_of_nat (saturating_sub (unat current_bytes) (unat previous_bytes))) (Fin 8)
      in f64_mul (f64_div delta_bits elapsed_ms) (Fin 1000))"

definition live_pair :: "CandidatePairStats list \<Rightarrow> CandidatePairStats option" where
  "live_pair pairs = find (\<lambda>p. cp_nominated p \<and> cp_state p = CP_Succeeded) pairs"

text \<open>\<^verbatim>\<open>Iterator::max_by_key\<close>: the last of the elements with the greatest key.\<close>

fun max_by_key :: "('a \<Rightarrow> 'k :: linorder) \<Rightarrow> 'a list \<Rightarrow> 'a option" where
  "max_by_key f [] = None"
| "max_by_key f (x # xs) =
     (case max_by_key f xs of None \<Rightarrow> Some x | Some y \<Rightarrow> if f y < f x then Some x else Some y)"

section \<open>Sampling\<close>

definition inbound_stats :: "InboundRtpStats \<Rightarrow> InboundStats" where
  "inbound_stats s = \<lparr> ib_ssrc = in_ssrc s, ib_kind = stream_kind_str (in_kind s),
     ib_packets_received = in_packets_received s, ib_packets_lost = in_packets_lost s,
     ib_bytes_received = in_bytes_received s, ib_jitter_s = in_jitter_s s, ib_nack_count = in_nack_count s,
     ib_total_decode_time_s = in_total_decode_time_s s, ib_frames_per_second = in_frames_per_second s,
     ib_frames_decoded = in_frames_decoded s, ib_frames_dropped = in_frames_dropped s,
     ib_frame_width = in_frame_width s, ib_frame_height = in_frame_height s \<rparr>"

definition outbound_stats :: "OutboundRtpStats \<Rightarrow> OutboundStats" where
  "outbound_stats s = \<lparr> ob_ssrc = out_ssrc s, ob_kind = stream_kind_str (out_kind s),
     ob_packets_sent = out_packets_sent s, ob_retransmitted_packets_sent = out_retransmitted_packets_sent s,
     ob_bytes_sent = out_bytes_sent s, ob_target_bitrate_bps = out_target_bitrate_bps s,
     ob_round_trip_time_s = out_round_trip_time_s s, ob_total_round_trip_time_s = out_total_round_trip_time_s s,
     ob_fraction_lost = out_fraction_lost s, ob_packets_lost = out_packets_lost s,
     ob_frames_per_second = out_frames_per_second s, ob_frames_sent = out_frames_sent s,
     ob_frame_width = out_frame_width s, ob_frame_height = out_frame_height s \<rparr>"

definition candidate_pair :: "CandidatePairStats \<Rightarrow> CandidatePair" where
  "candidate_pair p = \<lparr> cd_current_round_trip_time_s = cp_current_round_trip_time_s p,
     cd_total_round_trip_time_s = cp_total_round_trip_time_s p, cd_priority = cp_priority p,
     cd_state = CandidatePairState_as_str (cp_state p), cd_nominated = cp_nominated p, cd_writable = cp_writable p,
     cd_available_outgoing_bitrate_bps = cp_available_outgoing_bitrate_bps p,
     cd_available_incoming_bitrate_bps = cp_available_incoming_bitrate_bps p,
     cd_bytes_sent = cp_bytes_sent p, cd_bytes_received = cp_bytes_received p,
     cd_packets_sent = cp_packets_sent p, cd_packets_received = cp_packets_received p,
     cd_local_candidate_type = IceCandidateType_as_str (cp_local_candidate_type p),
     cd_local_relay_protocol = RelayProtocol_as_str (cp_local_relay_protocol p) \<rparr>"

text \<open>The largest reading so far.\<close>

definition worst :: "f64 option \<Rightarrow> f64 \<Rightarrow> f64 option" where
  "worst w x = Some (case w of None \<Rightarrow> x | Some y \<Rightarrow> f64_max y x)"

text \<open>
  The receive loop carries the snapshot, the worst jitter and the losses floored at zero per stream; the
  send loop the snapshot, the sum of the targets, whether there was one, and the worst round-trip time.
\<close>

fun inbound_step :: "InboundRtpStats \<Rightarrow> ConnectionStats \<times> f64 option \<times> u64 \<Rightarrow> ConnectionStats \<times> f64 option \<times> u64" where
  "inbound_step s (stats, worst_jitter, lost_for_ratio) =
     (stats\<lparr>cs_packets_received := cs_packets_received stats + ucast (in_packets_received s),
            cs_packets_lost := cs_packets_lost stats + in_packets_lost s,
            cs_bytes_received := cs_bytes_received stats + in_bytes_received s,
            cs_inbound := cs_inbound stats @ [inbound_stats s]\<rparr>,
      (if is_finite (in_jitter_s s) then worst worst_jitter (in_jitter_s s) else worst_jitter),
      lost_for_ratio + word_of_int (max 0 (in_packets_lost s)))"

fun outbound_step :: "OutboundRtpStats \<Rightarrow> ConnectionStats \<times> f64 \<times> bool \<times> f64 option \<Rightarrow> ConnectionStats \<times> f64 \<times> bool \<times> f64 option" where
  "outbound_step s (stats, target_bps, any_target, rtt_s) =
     (let aimed = measured (out_target_bitrate_bps s) \<noteq> None
      in (stats\<lparr>cs_packets_sent := cs_packets_sent stats + out_packets_sent s,
               cs_bytes_sent := cs_bytes_sent stats + out_bytes_sent s,
               cs_outbound := cs_outbound stats @ [outbound_stats s]\<rparr>,
          (if aimed then f64_add target_bps (out_target_bitrate_bps s) else target_bps),
          any_target \<or> aimed,
          (if measured (out_round_trip_time_s s) \<noteq> None then worst rtt_s (out_round_trip_time_s s) else rtt_s)))"

definition receive_side :: "InboundRtpStats list \<Rightarrow> ConnectionStats \<Rightarrow> ConnectionStats" where
  "receive_side ins stats =
     (let (stats, worst_jitter, lost_for_ratio) = fold inbound_step ins (stats, None, 0);
          video_in = find (\<lambda>s. in_kind s = SK_Video) ins
      in stats\<lparr>cs_jitter_s := (case video_in of
                  Some s \<Rightarrow> if is_finite (in_jitter_s s) then Some (in_jitter_s s) else worst_jitter
                | None \<Rightarrow> worst_jitter),
               cs_frames_per_second := Option.bind video_in (\<lambda>s. measured (in_frames_per_second s)),
               cs_packet_loss_ratio := (case video_in of
                  Some s \<Rightarrow> loss_ratio (ucast (in_packets_received s)) (word_of_int (max (in_packets_lost s) 0))
                | None \<Rightarrow> loss_ratio (cs_packets_received stats) lost_for_ratio)\<rparr>)"

definition send_side :: "OutboundRtpStats list \<Rightarrow> ConnectionStats \<Rightarrow> ConnectionStats \<times> f64 option" where
  "send_side outs stats =
     (let (stats, target_bps, any_target, rtt_s) = fold outbound_step outs (stats, Fin 0, False, None)
      in (if any_target then stats\<lparr>cs_target_bitrate_bps := Some target_bps\<rparr> else stats, rtt_s))"

definition path_side :: "CandidatePairStats list \<Rightarrow> f64 option \<Rightarrow> ConnectionStats \<Rightarrow> ConnectionStats" where
  "path_side pairs outbound_rtt_s stats =
     (let live = live_pair pairs;
          farthest = (case live of Some p \<Rightarrow> Some p | None \<Rightarrow> max_by_key cp_priority pairs)
      in stats\<lparr>cs_candidate_pairs := cs_candidate_pairs stats @ map candidate_pair pairs,
               cs_candidate_type := Option.bind live (\<lambda>p. IceCandidateType_as_str (cp_local_candidate_type p)),
               cs_relay_protocol := Option.bind live (\<lambda>p. RelayProtocol_as_str (cp_local_relay_protocol p)),
               cs_available_incoming_bitrate_bps := Option.bind live (\<lambda>p. measured (cp_available_incoming_bitrate_bps p)),
               cs_available_outgoing_bitrate_bps := Option.bind live (\<lambda>p. measured (cp_available_outgoing_bitrate_bps p)),
               cs_candidate_pair_state := map_option (\<lambda>p. CandidatePairState_as_str (cp_state p)) farthest,
               cs_rtt_ms := (case Option.bind live (\<lambda>p. measured (cp_current_round_trip_time_s p)) of
                  Some s \<Rightarrow> Some (f64_mul s (Fin 1000))
                | None \<Rightarrow> map_option (\<lambda>s. f64_mul s (Fin 1000)) outbound_rtt_s)\<rparr>)"

definition current_baseline :: "TransportStats \<Rightarrow> f64 \<Rightarrow> CandidatePairStats \<Rightarrow> Baseline" where
  "current_baseline raw now pair = \<lparr> at_ms = now, bl_bytes_received = cp_bytes_received pair,
     bl_bytes_sent = cp_bytes_sent pair, pair_priority = cp_priority pair,
     streams = map in_ssrc (inbound raw) @ map out_ssrc (outbound raw) \<rparr>"

definition rates :: "Baseline \<Rightarrow> ConnectionStats \<Rightarrow> StatsSampler \<Rightarrow> ConnectionStats \<times> StatsSampler" where
  "rates current stats previous =
     (case previous of
        None \<Rightarrow> (stats, Some current)
      | Some prev \<Rightarrow>
          if pair_priority prev = pair_priority current \<and> streams prev = streams current
          then
            let elapsed_ms = f64_sub (at_ms current) (at_ms prev)
            in if f64_le MIN_RATE_WINDOW_MS elapsed_ms
               then (stats\<lparr>cs_incoming_bitrate_bps := Some (rate_bps (bl_bytes_received prev) (bl_bytes_received current) elapsed_ms),
                           cs_outgoing_bitrate_bps := Some (rate_bps (bl_bytes_sent prev) (bl_bytes_sent current) elapsed_ms)\<rparr>,
                     Some current)
               else (stats, previous)
          else (stats, Some current))"

definition sample :: "TransportStats \<Rightarrow> f64 \<Rightarrow> StatsSampler \<Rightarrow> ConnectionStats \<times> StatsSampler" where
  "sample raw now previous =
     (let stats = receive_side (inbound raw) (ConnectionStats_default\<lparr>cs_timestamp_ms := now\<rparr>);
          (stats, outbound_rtt_s) = send_side (outbound raw) stats;
          stats = path_side (candidate_pairs raw) outbound_rtt_s stats
      in case live_pair (candidate_pairs raw) of
           None \<Rightarrow> (stats, previous)
         | Some pair \<Rightarrow> rates (current_baseline raw now pair) stats previous)"

section \<open>Bounds of the derived readings\<close>

lemma f64_le_Fin [simp]: "f64_le (Fin x) (Fin y) \<longleftrightarrow> x \<le> y"
  by (auto simp: f64_le_def f64_eq_def)

lemma round64_power2: "k \<le> 1023 \<Longrightarrow> round64 (2 ^ k) = Fin (2 ^ k)"
proof -
  assume "k \<le> 1023"
  then have "(2 :: rat) ^ k < 2 ^ 1024" by (intro power_strict_increasing) auto
  then show ?thesis using round64_representable [of 1 "int k"] by (simp add: power_int_of_nat del: power_numeral)
qed

lemma round64_between:
  assumes "0 \<le> x" and "x \<le> 2 ^ k" and "k \<le> 1023"
  obtains y where "round64 x = Fin y" and "0 \<le> y" and "y \<le> 2 ^ k"
proof -
  have "f64_le (round64 x) (Fin (2 ^ k))"
    using round64_mono [OF assms(2)] round64_power2 [OF assms(3)] by (simp del: power_numeral)
  then show thesis
    using round64_nonneg [OF assms(1)] that by (auto simp: f64_le_def f64_eq_def simp del: power_numeral)
qed

lemma rate_bps_bounds:
  assumes "f64_le MIN_RATE_WINDOW_MS elapsed"
  shows "is_finite (rate_bps prev cur elapsed) \<and> f64_le (Fin 0) (rate_bps prev cur elapsed)"
proof -
  let ?n = "saturating_sub (unat cur) (unat prev)"
  have "?n \<le> unat cur" by (simp add: saturating_sub_def)
  also have "unat cur \<le> 2 ^ 64" using unsigned_less [of cur, where ?'a = nat] by simp
  finally have "(of_nat ?n :: rat) \<le> of_nat (2 ^ 64)" by (simp only: of_nat_le_iff)
  then obtain d where d: "f64_of_nat ?n = Fin d" "0 \<le> d" "d \<le> 2 ^ 64"
    unfolding f64_of_nat_def by (rule_tac round64_between [of "of_nat ?n" 64]) (simp_all del: power_numeral)
  then obtain b where b: "f64_mul (f64_of_nat ?n) (Fin 8) = Fin b" "0 \<le> b" "b \<le> 2 ^ 67"
    by (rule_tac round64_between [of "d * 8" 67]) simp_all
  have "\<exists>q. f64_div (Fin b) elapsed = Fin q \<and> 0 \<le> q \<and> q \<le> 2 ^ 67"
  proof (cases elapsed)
    case (Fin y)
    with assms have y: "200 \<le> y" by (auto simp: MIN_RATE_WINDOW_MS_def f64_le_def f64_eq_def)
    have "b \<le> b * y" using mult_left_mono [of 1 y b] b(2) y by simp
    then have "b / y \<le> b" using y by (simp add: divide_le_eq)
    then have "b / y \<le> 2 ^ 67" using b(3) by linarith
    moreover have "0 \<le> b / y" using b(2) y by simp
    ultimately obtain q where "round64 (b / y) = Fin q" "0 \<le> q" "q \<le> 2 ^ 67"
      by (rule_tac round64_between [of "b / y" 67]) simp_all
    then show ?thesis using Fin y by auto
  qed (use assms in \<open>auto simp: MIN_RATE_WINDOW_MS_def f64_le_def f64_eq_def\<close>)
  then obtain q where q: "f64_div (Fin b) elapsed = Fin q" "0 \<le> q" "q \<le> 2 ^ 67" by blast
  then obtain z where "round64 (q * 1000) = Fin z" "0 \<le> z"
    by (rule_tac round64_between [of "q * 1000" 77]) simp_all
  then show ?thesis using b q by (simp add: rate_bps_def Let_def)
qed

lemma loss_ratio_bounds:
  assumes "loss_ratio received lost = Some x" and "unat received + unat lost < 2 ^ 64"
  shows "f64_le (Fin 0) x \<and> f64_le x (Fin 1)"
proof -
  have sum: "unat (received + lost) = unat received + unat lost"
    using assms(2) by (simp add: unat_word_ariths)
  define a l where "a = (of_nat (unat (received + lost)) :: rat)" and "l = (of_nat (unat lost) :: rat)"
  have pos: "0 < received + lost" and x: "x = f64_div (round64 l) (round64 a)"
    using assms(1) by (auto simp: loss_ratio_def f64_of_u64_def f64_of_nat_def a_def l_def Let_def split: if_splits)
  have "unat (received + lost) \<le> 2 ^ 64" using sum assms(2) by simp
  then have "a \<le> of_nat (2 ^ 64)" unfolding a_def by (simp only: of_nat_le_iff)
  then have a: "a \<le> 2 ^ 64" by simp
  have "1 \<le> unat (received + lost)" using pos by (simp add: word_less_nat_alt Suc_le_eq)
  then have "of_nat 1 \<le> a" unfolding a_def by (simp only: of_nat_le_iff)
  then have a1: "1 \<le> a" by simp
  have l: "0 \<le> l" "l \<le> a" unfolding l_def a_def by (rule of_nat_0_le_iff) (simp only: of_nat_le_iff sum le_add2)
  obtain a' where a': "round64 a = Fin a'"
    using a a1 by (rule_tac round64_between [of a 64]) simp_all
  have a1': "1 \<le> a'" using round64_mono [OF a1] a' by simp
  obtain l' where l': "round64 l = Fin l'" "0 \<le> l'"
    using a l by (rule_tac round64_between [of l 64]) simp_all
  have "l' \<le> a'" using round64_mono [OF l(2)] a' l' by simp
  then have q: "0 \<le> l' / a'" "l' / a' \<le> 1" using a1' l' by simp_all
  have "x = round64 (l' / a')" using x a' l' a1' by simp
  then show ?thesis using round64_mono [OF q(1)] round64_mono [OF q(2)] by simp
qed

lemma fold_fst_keeps:
  assumes "\<And>x acc. f (fst (g x acc)) = f (fst acc)"
  shows "f (fst (fold g xs acc)) = f (fst acc)"
  by (induction xs arbitrary: acc) (simp_all add: assms)

lemma side_rates:
  "cs_incoming_bitrate_bps (receive_side ins stats) = cs_incoming_bitrate_bps stats"
  "cs_outgoing_bitrate_bps (receive_side ins stats) = cs_outgoing_bitrate_bps stats"
  "cs_incoming_bitrate_bps (fst (send_side outs stats)) = cs_incoming_bitrate_bps stats"
  "cs_outgoing_bitrate_bps (fst (send_side outs stats)) = cs_outgoing_bitrate_bps stats"
  "cs_incoming_bitrate_bps (path_side pairs rtt stats) = cs_incoming_bitrate_bps stats"
  "cs_outgoing_bitrate_bps (path_side pairs rtt stats) = cs_outgoing_bitrate_bps stats"
  using fold_fst_keeps [of cs_incoming_bitrate_bps inbound_step ins "(stats, None, 0)"]
    fold_fst_keeps [of cs_outgoing_bitrate_bps inbound_step ins "(stats, None, 0)"]
    fold_fst_keeps [of cs_incoming_bitrate_bps outbound_step outs "(stats, Fin 0, False, None)"]
    fold_fst_keeps [of cs_outgoing_bitrate_bps outbound_step outs "(stats, Fin 0, False, None)"]
  by (auto simp: receive_side_def send_side_def path_side_def Let_def split: prod.splits)

lemma fold_inbound_counts:
  "cs_packets_received (fst (fold inbound_step ins acc))
     = cs_packets_received (fst acc) + of_nat (sum_list (map (\<lambda>s. unat (in_packets_received s)) ins))
   \<and> snd (snd (fold inbound_step ins acc))
     = snd (snd acc) + of_nat (sum_list (map (\<lambda>s. nat (max 0 (in_packets_lost s))) ins))"
proof (induction ins arbitrary: acc)
  case (Cons s ins)
  obtain stats j l where acc: "acc = (stats, j, l)" by (metis surj_pair)
  have "(word_of_int (max 0 (in_packets_lost s)) :: u64) = of_nat (nat (max 0 (in_packets_lost s)))"
    by (simp add: of_nat_nat)
  then show ?case using Cons.IH [of "inbound_step s acc"] by (simp add: acc add.assoc)
qed simp

lemma unat_of_nat_small: "n < 2 ^ 64 \<Longrightarrow> unat (of_nat n :: u64) = n"
  by (simp add: unat_of_nat)

text \<open>The packets a snapshot's loss ratio accounts for: the video stream's, or those of every stream.\<close>

definition accounted_packets :: "InboundRtpStats list \<Rightarrow> nat" where
  "accounted_packets ins =
     (case find (\<lambda>s. in_kind s = SK_Video) ins of
        Some s \<Rightarrow> unat (in_packets_received s) + nat (max 0 (in_packets_lost s))
      | None \<Rightarrow> sum_list (map (\<lambda>s. unat (in_packets_received s)) ins)
                + sum_list (map (\<lambda>s. nat (max 0 (in_packets_lost s))) ins))"

lemma receive_side_loss:
  assumes "cs_packet_loss_ratio (receive_side ins (ConnectionStats_default\<lparr>cs_timestamp_ms := now\<rparr>)) = Some x"
    and "accounted_packets ins < 2 ^ 64"
  shows "f64_le (Fin 0) x \<and> f64_le x (Fin 1)"
proof (cases "find (\<lambda>s. in_kind s = SK_Video) ins")
  case None
  note counts = fold_inbound_counts [of ins "(ConnectionStats_default\<lparr>cs_timestamp_ms := now\<rparr>, None, 0)"]
  have "loss_ratio (of_nat (sum_list (map (\<lambda>s. unat (in_packets_received s)) ins)))
      (of_nat (sum_list (map (\<lambda>s. nat (max 0 (in_packets_lost s))) ins))) = Some x"
    using assms(1) None counts by (auto simp: receive_side_def ConnectionStats_default_def Let_def split: prod.splits)
  then show ?thesis
    by (rule loss_ratio_bounds) (use assms(2) None in \<open>simp add: accounted_packets_def unat_of_nat_small\<close>)
next
  case (Some s)
  let ?l = "nat (max 0 (in_packets_lost s))"
  have w: "(word_of_int (max (in_packets_lost s) 0) :: u64) = of_nat ?l" by (simp add: of_nat_nat max.commute)
  have small: "unat (in_packets_received s) + ?l < 2 ^ 64" using assms(2) Some by (simp add: accounted_packets_def)
  then have l: "unat (of_nat ?l :: u64) = ?l" by (intro unat_of_nat_small) linarith
  have r: "unat (ucast (in_packets_received s) :: u64) = unat (in_packets_received s)"
    using unsigned_less [of "in_packets_received s", where ?'a = nat]
    by (simp add: unsigned_ucast_eq take_bit_eq_mod)
  have "loss_ratio (ucast (in_packets_received s)) (of_nat ?l) = Some x"
    using assms(1) Some unfolding w [symmetric] by (auto simp: receive_side_def Let_def split: prod.splits)
  then show ?thesis by (rule loss_ratio_bounds) (simp only: l r small)
qed

lemma later_sides_loss:
  "cs_packet_loss_ratio (fst (send_side outs stats)) = cs_packet_loss_ratio stats"
  "cs_packet_loss_ratio (path_side pairs rtt stats) = cs_packet_loss_ratio stats"
  "cs_packet_loss_ratio (fst (rates cur stats previous)) = cs_packet_loss_ratio stats"
  using fold_fst_keeps [of cs_packet_loss_ratio outbound_step outs "(stats, Fin 0, False, None)"]
  by (auto simp: send_side_def path_side_def rates_def Let_def split: prod.splits option.splits)

lemma sample_cases:
  obtains stats where "cs_incoming_bitrate_bps stats = None" and "cs_outgoing_bitrate_bps stats = None"
    and "cs_packet_loss_ratio stats
      = cs_packet_loss_ratio (receive_side (inbound raw) (ConnectionStats_default\<lparr>cs_timestamp_ms := now\<rparr>))"
    and "sample raw now previous = (case live_pair (candidate_pairs raw) of
           None \<Rightarrow> (stats, previous)
         | Some pair \<Rightarrow> rates (current_baseline raw now pair) stats previous)"
proof -
  let ?s0 = "receive_side (inbound raw) (ConnectionStats_default\<lparr>cs_timestamp_ms := now\<rparr>)"
  let ?s = "path_side (candidate_pairs raw) (snd (send_side (outbound raw) ?s0)) (fst (send_side (outbound raw) ?s0))"
  show thesis
  proof (rule that [of ?s])
    show "sample raw now previous = (case live_pair (candidate_pairs raw) of None \<Rightarrow> (?s, previous)
        | Some pair \<Rightarrow> rates (current_baseline raw now pair) ?s previous)"
      by (simp add: sample_def Let_def case_prod_unfold split: option.split)
  qed (simp_all add: side_rates later_sides_loss ConnectionStats_default_def)
qed

section \<open>What a sample reports\<close>

definition sample_transport :: "u64 \<Rightarrow> TransportStats" where
  "sample_transport received = \<lparr> inbound = [], outbound = [], candidate_pairs = [\<lparr>
     cp_current_round_trip_time_s = Fin 0, cp_total_round_trip_time_s = Fin 0, cp_priority = 7, cp_state = CP_Succeeded,
     cp_nominated = True, cp_writable = True, cp_available_outgoing_bitrate_bps = Fin 0,
     cp_available_incoming_bitrate_bps = Fin 0, cp_bytes_sent = 0, cp_bytes_received = received, cp_packets_sent = 0,
     cp_packets_received = 0, cp_local_candidate_type = CT_Host, cp_local_relay_protocol = RP_NotRelayed \<rparr>],
     data_chunking = None \<rparr>"

definition sample_baseline :: Baseline where
  "sample_baseline = \<lparr> at_ms = Fin 0, bl_bytes_received = 0, bl_bytes_sent = 0, pair_priority = 7, streams = [] \<rparr>"

text \<open>
  rates are measured between two samples of the same path, at least 200 ms apart, and the windows
  leave no gap. Both rates are reported exactly when the previous sample kept is of the same live pair
  and the same streams and the window is long enough; a sample that comes too soon leaves the previous
  one in place, so the next window covers it too; without a live pair the sampler keeps what it has.
\<close>

theorem sample_windows:
  assumes "sample raw now previous = (stats, previous')"
  shows "case live_pair (candidate_pairs raw) of
      None \<Rightarrow> previous' = previous \<and> cs_incoming_bitrate_bps stats = None \<and> cs_outgoing_bitrate_bps stats = None
    | Some pair \<Rightarrow>
        let current = current_baseline raw now pair;
            same = (\<lambda>prev. pair_priority prev = cp_priority pair \<and> streams prev = streams current);
            long = (\<lambda>prev. f64_le MIN_RATE_WINDOW_MS (f64_sub now (at_ms prev)))
        in (if \<exists>prev. previous = Some prev \<and> same prev \<and> \<not> long prev
            then previous' = previous else previous' = Some current)
         \<and> (\<forall>prev. previous = Some prev \<and> same prev \<and> long prev \<longrightarrow>
              cs_incoming_bitrate_bps stats = Some (rate_bps (bl_bytes_received prev) (cp_bytes_received pair) (f64_sub now (at_ms prev)))
              \<and> cs_outgoing_bitrate_bps stats = Some (rate_bps (bl_bytes_sent prev) (cp_bytes_sent pair) (f64_sub now (at_ms prev))))
         \<and> ((\<exists>prev. previous = Some prev \<and> same prev \<and> long prev)
            \<or> cs_incoming_bitrate_bps stats = None \<and> cs_outgoing_bitrate_bps stats = None)"
proof -
  obtain s where s: "cs_incoming_bitrate_bps s = None" "cs_outgoing_bitrate_bps s = None"
    "sample raw now previous = (case live_pair (candidate_pairs raw) of None \<Rightarrow> (s, previous)
       | Some pair \<Rightarrow> rates (current_baseline raw now pair) s previous)"
    using sample_cases [of raw now previous thesis] by metis
  show ?thesis
    using assms s
    by (cases "live_pair (candidate_pairs raw)"; cases previous)
      (auto simp: rates_def current_baseline_def Let_def split: if_splits)
qed

lemma sample_rate_8000: "rate_bps 0 1000 (f64_sub (Fin 1000) (Fin 0)) = Fin 8000"
  by (simp add: rate_bps_def f64_sub_def saturating_sub_def f64_of_nat_def Let_def)

theorem sample_windows_witness:
  "cs_incoming_bitrate_bps (fst (sample (sample_transport 1000) (Fin 1000) (Some sample_baseline))) = Some (Fin 8000)"
proof -
  let ?m = "sample (sample_transport 1000) (Fin 1000) (Some sample_baseline)"
  have "f64_le MIN_RATE_WINDOW_MS (f64_sub (Fin 1000) (Fin 0))"
    by (simp add: MIN_RATE_WINDOW_MS_def f64_sub_def)
  then show ?thesis
    using sample_windows [of "sample_transport 1000" "Fin 1000" "Some sample_baseline" "fst ?m" "snd ?m"]
    by (simp add: live_pair_def sample_transport_def sample_baseline_def current_baseline_def Let_def sample_rate_8000)
qed

text \<open>
  no derived reading is out of its range. A reported rate is finite and never negative, whatever
  the counters and the clock did, a counter that went backwards included; and a packet loss ratio lies
  between 0 and 1, as long as the packets it accounts for fit 64 bits.
\<close>

theorem sample_bounds:
  assumes "sample raw now previous = (stats, previous')"
  shows "(\<forall>b. cs_incoming_bitrate_bps stats = Some b \<or> cs_outgoing_bitrate_bps stats = Some b \<longrightarrow>
        is_finite b \<and> f64_le (Fin 0) b)
    \<and> (\<forall>x. cs_packet_loss_ratio stats = Some x \<and> accounted_packets (inbound raw) < 2 ^ 64 \<longrightarrow>
        f64_le (Fin 0) x \<and> f64_le x (Fin 1))"
proof -
  obtain s where s: "cs_incoming_bitrate_bps s = None" "cs_outgoing_bitrate_bps s = None"
    "cs_packet_loss_ratio s = cs_packet_loss_ratio (receive_side (inbound raw) (ConnectionStats_default\<lparr>cs_timestamp_ms := now\<rparr>))"
    "sample raw now previous = (case live_pair (candidate_pairs raw) of None \<Rightarrow> (s, previous)
       | Some pair \<Rightarrow> rates (current_baseline raw now pair) s previous)"
    using sample_cases [of raw now previous thesis] by metis
  have "cs_packet_loss_ratio stats = cs_packet_loss_ratio s"
    using assms s(4) later_sides_loss(3) by (auto split: option.splits) (metis fst_conv)
  moreover have "is_finite b \<and> f64_le (Fin 0) b"
    if "cs_incoming_bitrate_bps stats = Some b \<or> cs_outgoing_bitrate_bps stats = Some b" for b
    using that assms s(1,2,4) rate_bps_bounds
    by (auto simp: rates_def Let_def split: option.splits if_splits)
  ultimately show ?thesis using receive_side_loss [of "inbound raw" now] s(3) by auto
qed

theorem sample_bounds_witness:
  "f64_le (Fin 0) (the (cs_incoming_bitrate_bps (fst (sample (sample_transport 1000) (Fin 1000) (Some sample_baseline)))))"
proof -
  let ?m = "sample (sample_transport 1000) (Fin 1000) (Some sample_baseline)"
  have "\<exists>b. cs_incoming_bitrate_bps (fst ?m) = Some b"
    by (simp add: sample_def receive_side_def send_side_def path_side_def rates_def live_pair_def sample_transport_def
        sample_baseline_def current_baseline_def MIN_RATE_WINDOW_MS_def f64_sub_def Let_def)
  then show ?thesis
    using sample_bounds [of "sample_transport 1000" "Fin 1000" "Some sample_baseline" "fst ?m" "snd ?m"] by auto
qed

end
