(* ===== verification/Reactor_State.thy ===== *)
theory Reactor_State
  imports Auth Coordinator Correlators Step_Inputs Recording Events Stats
begin

text \<open>
  The state of the \<^verbatim>\<open>Reactor\<close> (\<^verbatim>\<open>reactor.rs\<close>) and the pieces its operations are made of: the options,
  the record behind the mutex, the fields beside it, and the helpers that run under one lock. A channel
  is named by a number drawn from the state; what was sent on it is in the state too, so a receiver
  reads its channel there. The events handed to the dispatcher are kept in order in \<open>r_events\<close>.
\<close>

section \<open>Options\<close>

record ReactorOptions =
  opt_api_url :: string
  opt_model_name :: string
  opt_sdk_version :: string
  opt_sdk_type :: string
  opt_auto_resume_tracks :: bool
  opt_extra_args :: "json option"
  opt_generation :: GenerationMode
  opt_ready_timeout :: duration
  opt_control_request_timeout :: duration
  opt_clip_request_timeout :: duration
  opt_step_timeout :: duration
  opt_session_poll :: PollConfig
  opt_sdp_poll :: PollConfig
  opt_preset_tracks :: "TrackCapability list option"
  opt_local :: bool
  opt_heartbeat_interval :: duration
  opt_client_stats_interval :: duration

definition DEFAULT_SDK_TYPE :: string where "DEFAULT_SDK_TYPE = ''rust''"

text \<open>\<open>core_version\<close> is the crate's version, which the build takes from its manifest.\<close>

definition ReactorOptions_new :: "string \<Rightarrow> string \<Rightarrow> string \<Rightarrow> ReactorOptions" where
  "ReactorOptions_new core_version api_url model_name =
     \<lparr> opt_api_url = api_url, opt_model_name = model_name, opt_sdk_version = core_version,
       opt_sdk_type = DEFAULT_SDK_TYPE, opt_auto_resume_tracks = True, opt_extra_args = None,
       opt_generation = Streamed, opt_ready_timeout = from_secs 30,
       opt_control_request_timeout = from_secs 10, opt_clip_request_timeout = from_secs 10,
       opt_step_timeout = from_secs 300, opt_session_poll = PollConfig_session,
       opt_sdp_poll = PollConfig_sdp, opt_preset_tracks = None, opt_local = False,
       opt_heartbeat_interval = from_secs 10, opt_client_stats_interval = from_secs 5 \<rparr>"

record ConnectOptions =
  co_session_id :: "string option"
  co_connection_id :: "u32 option"
  co_auto_resume_tracks :: "bool option"
  co_max_sdp_attempts :: "u32 option"

definition ConnectOptions_default :: ConnectOptions where
  "ConnectOptions_default = \<lparr> co_session_id = None, co_connection_id = None,
     co_auto_resume_tracks = None, co_max_sdp_attempts = None \<rparr>"

section \<open>State\<close>

record State =
  s_status :: ReactorStatus
  s_session_id :: "string option"
  s_session_info :: "SessionResponse option"
  s_created_session :: bool
  s_connection_id :: "u32 option"
  s_capabilities :: "Capabilities option"
  s_tracks :: "TrackCapability list"
  s_track_mapping :: "TrackMappingEntry list"
  s_last_error :: "ReactorError option"
  s_peer_connected :: bool
  s_data_open :: bool
  s_control_open :: bool
  s_ready_gate :: "nat option"
  s_ice_buffer :: "IceCandidate list"
  s_ice_gathering_complete :: bool
  s_ice_final_sent :: bool
  s_ice_ready :: bool
  s_paused_tracks :: "string set"
  s_closing :: bool
  s_teardown_reason :: "PeerConnectionState option"
  s_heartbeat_epoch :: u64
  s_connect_started_ms :: "f64 option"
  s_time_to_connect_ms :: "f64 option"
  s_auto_resume_tracks :: bool
  s_sdp_max_attempts :: u32

definition State_default :: State where
  "State_default = \<lparr> s_status = Disconnected_s, s_session_id = None, s_session_info = None,
     s_created_session = False, s_connection_id = None, s_capabilities = None, s_tracks = [],
     s_track_mapping = [], s_last_error = None, s_peer_connected = False, s_data_open = False,
     s_control_open = False, s_ready_gate = None, s_ice_buffer = [], s_ice_gathering_complete = False,
     s_ice_final_sent = False, s_ice_ready = False, s_paused_tracks = {}, s_closing = False,
     s_teardown_reason = None, s_heartbeat_epoch = 0, s_connect_started_ms = None,
     s_time_to_connect_ms = None, s_auto_resume_tracks = False, s_sdp_max_attempts = 0 \<rparr>"

record 'w reactor = CoordState +
  r_state :: State
  r_control :: "nat ControlCorrelator"
  r_control_sent :: "(nat \<times> ControlResult) list"
  r_data :: "nat DataCorrelator"
  r_data_sent :: "(nat \<times> DataResult) list"
  r_next_channel :: nat
  r_dropped :: "nat list"
  r_gates_fired :: "nat list"
  r_events :: "ReactorEvent list"
  r_ice_wake :: bool
  r_ice_flush_rx :: bool
  r_stats :: StatsSampler
  r_stage_times :: StageTimes
  r_step_inputs :: Buffered
  r_message_times :: MessageTimes
  r_world :: 'w

text \<open>
  The immutable part of a reactor: the host's implementations, the generated wire code, the options
  and what \<^verbatim>\<open>Reactor::new\<close> derives from them. The iteration orders are those of the pending tables;
  the \<^verbatim>\<open>debug\<close> fields are the derived renderings, whose string escapes follow the Unicode tables.
\<close>

record 'w env =
  e_host :: "'w reactor host"
  e_peer :: "('w reactor, 'w) transport"
  e_codec :: codec
  e_wire :: wire
  e_show_tracks :: "TrackCapability list \<Rightarrow> string"
  e_debug_payload :: "DataServerPayload \<Rightarrow> string"
  e_debug_str :: "string \<Rightarrow> string"
  e_control_order :: "(string \<times> nat) iter"
  e_data_order :: "(string \<times> string \<times> nat) iter"
  e_options :: ReactorOptions
  e_coordinator :: CoordinatorConfig
  e_frame_decoders :: FrameDecoders

definition coordinator_config :: "ReactorOptions \<Rightarrow> CoordinatorConfig" where
  "coordinator_config options = CoordinatorClient_new
     \<lparr> cfg_api_url = opt_api_url options,
       cfg_model = \<lparr> mc_name = opt_model_name options, mc_version = None \<rparr>,
       cfg_client_info = \<lparr> sdk_version = opt_sdk_version options, sdk_type = opt_sdk_type options \<rparr>,
       cfg_extra_args = opt_extra_args options, cfg_generation = opt_generation options,
       cfg_poll = opt_session_poll options, cfg_local = opt_local options \<rparr>"

definition Reactor_new :: "ReactorOptions \<Rightarrow> 'w \<Rightarrow> 'w reactor" where
  "Reactor_new options world =
     \<lparr> local_session = None,
       r_state = State_default\<lparr>s_auto_resume_tracks := opt_auto_resume_tracks options,
         s_sdp_max_attempts := max_attempts (opt_sdp_poll options)\<rparr>,
       r_control = ControlCorrelator_new, r_control_sent = [],
       r_data = DataCorrelator_new, r_data_sent = [], r_next_channel = 0, r_dropped = [],
       r_gates_fired = [], r_events = [], r_ice_wake = False, r_ice_flush_rx = True,
       r_stats = StatsSampler_new, r_stage_times = StageTimes_new,
       r_step_inputs = Buffered_default, r_message_times = MessageTimes_new, r_world = world \<rparr>"

definition Reactor_env :: "'w env \<Rightarrow> 'w env" where
  "Reactor_env e = e\<lparr>e_coordinator := coordinator_config (e_options e),
     e_frame_decoders := FrameDecoders_default (e_wire e)\<rparr>"

section \<open>Running on the state\<close>

abbreviation status :: "'w reactor \<Rightarrow> ReactorStatus" where
  "status r \<equiv> s_status (r_state r)"

definition lock :: "(State \<Rightarrow> State) \<Rightarrow> 'w reactor \<Rightarrow> 'w reactor" where
  "lock f r = r\<lparr>r_state := f (r_state r)\<rparr>"

definition emit :: "ReactorEvent \<Rightarrow> 'w reactor \<Rightarrow> 'w reactor" where
  "emit event r = r\<lparr>r_events := r_events r @ [event]\<rparr>"

abbreviation lockE :: "(State \<Rightarrow> State) \<Rightarrow> ('w reactor, unit) io" where
  "lockE f \<equiv> modifyE (lock f)"

abbreviation readE :: "(State \<Rightarrow> 'a) \<Rightarrow> ('w reactor, 'a) io" where
  "readE f \<equiv> getE (\<lambda>r. f (r_state r))"

abbreviation dispatchE :: "ReactorEvent \<Rightarrow> ('w reactor, unit) io" where
  "dispatchE event \<equiv> modifyE (emit event)"

text \<open>A call of the engine or the clock that returns at once.\<close>

definition worldE :: "('w \<Rightarrow> 'a \<times> 'w) \<Rightarrow> ('w reactor, 'a) io" where
  "worldE f = (\<lambda>r. case f (r_world r) of (x, w) \<Rightarrow> (Inr x, r\<lparr>r_world := w\<rparr>))"

definition world_resultE :: "('w \<Rightarrow> (CoreError, 'a) result \<times> 'w) \<Rightarrow> ('w reactor, 'a) io" where
  "world_resultE f = bindE (worldE f) liftE"

abbreviation monotonicE :: "'w env \<Rightarrow> ('w reactor, f64) io" where
  "monotonicE e \<equiv> worldE (monotonic_ms (e_peer e))"

abbreviation send_controlE :: "'w env \<Rightarrow> bytes \<Rightarrow> ('w reactor, unit) io" where
  "send_controlE e payload \<equiv> world_resultE (peer_send_control (e_peer e) payload)"

section \<open>Helpers under the lock\<close>

text \<open>\<^verbatim>\<open>Vec::swap_remove\<close>: the last element takes the place of the removed one.\<close>

definition swap_remove :: "nat \<Rightarrow> 'a list \<Rightarrow> 'a list" where
  "swap_remove i xs = butlast (xs[i := last xs])"

fun match_tracks :: "TrackCapability list \<Rightarrow> TrackCapability list \<Rightarrow> bool" where
  "match_tracks [] remaining = True"
| "match_tracks (track # a) remaining =
     (case position (\<lambda>t. t = track) remaining of
        Some index \<Rightarrow> match_tracks a (swap_remove index remaining)
      | None \<Rightarrow> False)"

definition tracks_match :: "TrackCapability list \<Rightarrow> TrackCapability list \<Rightarrow> bool" where
  "tracks_match a b = (if length a \<noteq> length b then False else match_tracks a b)"

definition check_generation :: "GenerationMode \<Rightarrow> SessionResponse \<Rightarrow> (CoreError, unit) result" where
  "check_generation wanted session =
     (let echo = generation session;
          matches = (case echo of Some mode \<Rightarrow> mode = GenerationMode_as_str wanted | None \<Rightarrow> wanted = Streamed)
      in if matches then Inr () else Inl (GenerationModeMismatch wanted echo))"

definition is_stepped :: "'w env \<Rightarrow> bool" where
  "is_stepped e \<longleftrightarrow> opt_generation (e_options e) = Stepped"

definition media_tracks :: "'w env \<Rightarrow> TrackCapability list \<Rightarrow> TrackCapability list" where
  "media_tracks e ts = (case opt_generation (e_options e) of
     Streamed \<Rightarrow> ts
   | Stepped \<Rightarrow> filter (\<lambda>t. tc_direction t \<noteq> Sendonly) ts)"

definition ensure_ready :: "('w reactor, unit) io" where
  "ensure_ready = bindE (readE s_status) (\<lambda>st.
     if st \<noteq> Ready_s
     then failE (InvalidState (''operation requires ready status, currently '' @ ReactorStatus_as_str st))
     else retE ())"

definition set_status :: "'w env \<Rightarrow> ReactorStatus \<Rightarrow> 'w reactor \<Rightarrow> 'w reactor" where
  "set_status e st r =
     (if status r = st then r
      else
        let r = lock (\<lambda>s. s\<lparr>s_status := st\<rparr>) r;
            now = now_ms (e_host e) r;
            r = (if st = Ready_s
                 then lock (\<lambda>s. s\<lparr>s_time_to_connect_ms := map_option (\<lambda>started. f64_max (f64_sub now started) (Fin 0))
                             (s_connect_started_ms s)\<rparr>) r
                 else r)
        in emit (StatusChanged st) r)"

definition emit_error :: "'w env \<Rightarrow> ErrorDetails \<Rightarrow> 'w reactor \<Rightarrow> 'w reactor" where
  "emit_error e det r =
     (let err = \<lparr> details = det, timestamp_ms = now_ms (e_host e) r \<rparr>
      in emit (ErrorEvent err) (lock (\<lambda>s. s\<lparr>s_last_error := Some err\<rparr>) r))"

definition details_of :: "'w env \<Rightarrow> CoreError \<Rightarrow> string \<Rightarrow> ErrorDetails" where
  "details_of e err operation = error_details (e_show_tracks e) err (Some operation)"

text \<open>The readiness gate is a channel of its own: taking it out of the state sends on it.\<close>

definition check_ready_locked :: "'w reactor \<Rightarrow> 'w reactor" where
  "check_ready_locked r =
     (let s = r_state r
      in if s_peer_connected s \<and> s_data_open s \<and> s_control_open s
         then (case s_ready_gate s of
             Some gate \<Rightarrow> lock (\<lambda>s. s\<lparr>s_ready_gate := None\<rparr>) (r\<lparr>r_gates_fired := gate # r_gates_fired r\<rparr>)
           | None \<Rightarrow> r)
         else r)"

definition gate_rx :: "nat \<Rightarrow> 'w reactor \<Rightarrow> unit rx" where
  "gate_rx gate r =
     (if gate \<in> set (r_gates_fired r) then Rx_Sent ()
      else if s_ready_gate (r_state r) = Some gate then Rx_Pending else Rx_Dropped)"

definition teardown_error :: "State \<Rightarrow> CoreError option" where
  "teardown_error s = map_option
     (\<lambda>reason. Disconnected (''peer connection state: '' @ show_PeerConnectionState reason)) (s_teardown_reason s)"

definition signaling :: "'w env \<Rightarrow> string \<Rightarrow> State \<Rightarrow> WebRtcSignaling" where
  "signaling e sid s = WebRtcSignaling_new sid (transport_base_url (e_coordinator e) sid)
     (cfg_client_info (e_coordinator e)) ((opt_sdp_poll (e_options e))\<lparr>max_attempts := s_sdp_max_attempts s\<rparr>)"

section \<open>Trickled candidates\<close>

definition notify_ice_flush :: "'w reactor \<Rightarrow> 'w reactor" where
  "notify_ice_flush r = r\<lparr>r_ice_wake := True\<rparr>"

definition ice_candidate :: "IceCandidate \<Rightarrow> State \<Rightarrow> State" where
  "ice_candidate cand s = s\<lparr>s_ice_buffer := s_ice_buffer s @ [cand]\<rparr>"

definition ice_gathering_complete :: "State \<Rightarrow> State" where
  "ice_gathering_complete s = s\<lparr>s_ice_gathering_complete := True\<rparr>"

text \<open>The part of \<^verbatim>\<open>flush_ice\<close> under the lock: the batch to send, if there is one.\<close>

definition flush_batch :: "State \<Rightarrow> (IceCandidate list \<times> bool \<times> u32) option \<times> State" where
  "flush_batch s =
     (case s_connection_id s of
        None \<Rightarrow> (None, s)
      | Some cid \<Rightarrow>
          if \<not> s_ice_ready s then (None, s)
          else
            let cands = s_ice_buffer s;
                s = s\<lparr>s_ice_buffer := []\<rparr>;
                final = s_ice_gathering_complete s \<and> \<not> s_ice_final_sent s
            in if cands = [] \<and> \<not> final then (None, s)
               else
                 let s = (if final then s\<lparr>s_ice_final_sent := True\<rparr> else s)
                 in (Some (cands, final, cid), s))"

definition flush_ice :: "'w env \<Rightarrow> WebRtcSignaling \<Rightarrow> ('w reactor, unit) io" where
  "flush_ice e g =
     bindE (readE flush_batch) (\<lambda>(batch, s').
     bindE (lockE (\<lambda>_. s')) (\<lambda>_.
     case batch of
       None \<Rightarrow> retE ()
     | Some (cands, final, cid) \<Rightarrow>
         bindE (attemptE (send_ice_candidates (e_host e) (e_codec e) g cid cands final)) (\<lambda>_. retE ())))"

definition flush_ice_current_session :: "'w env \<Rightarrow> ('w reactor, unit) io" where
  "flush_ice_current_session e =
     bindE (readE s_session_id) (\<lambda>sid.
     case sid of
       None \<Rightarrow> retE ()
     | Some sid \<Rightarrow> bindE (readE (signaling e sid)) (\<lambda>g. flush_ice e g))"

text \<open>One pass of \<^verbatim>\<open>run_ice_flush\<close>'s loop, and its start, which takes the receiver.\<close>

definition run_ice_flush_start :: "'w reactor \<Rightarrow> bool \<times> 'w reactor" where
  "run_ice_flush_start r = (if r_ice_flush_rx r then (True, r\<lparr>r_ice_flush_rx := False\<rparr>) else (False, r))"

definition run_ice_flush_pass :: "'w env \<Rightarrow> ('w reactor, unit) io" where
  "run_ice_flush_pass e =
     bindE (getE r_ice_wake) (\<lambda>wake.
     whenE wake (bindE (modifyE (\<lambda>r. r\<lparr>r_ice_wake := False\<rparr>)) (\<lambda>_. flush_ice_current_session e)))"

end
