(* ===== verification/Reactor_Tracks.thy ===== *)
theory Reactor_Tracks
  imports Reactor_State
begin

text \<open>
  Requests on the control channel and what is built on them (\<^verbatim>\<open>reactor.rs\<close>): the keep-alive, track
  control, the schema, clips and recordings, uploads and bitrate limits.
\<close>

section \<open>Control requests\<close>

definition notificationE :: "'w env \<Rightarrow> ControlClientPayload \<Rightarrow> ('w reactor, unit) io" where
  "notificationE e payload = send_controlE e (control_notification (e_wire e) payload)"

definition control_rx :: "nat \<Rightarrow> 'w reactor \<Rightarrow> ControlResult rx" where
  "control_rx ch r =
     (case map_of (r_control_sent r) ch of
        Some result \<Rightarrow> Rx_Sent result
      | None \<Rightarrow> if ch \<in> set (ctl_waiting (r_control r)) then Rx_Pending else Rx_Dropped)"

definition control_open_request :: "'w env \<Rightarrow> ControlClientPayload \<Rightarrow> ('w reactor, nat PendingControl) io" where
  "control_open_request e payload = (\<lambda>r.
     case control_begin (e_wire e) (r_next_channel r) payload (r_control r) of (pending, c) \<Rightarrow>
       (Inr pending, r\<lparr>r_control := c, r_next_channel := Suc (r_next_channel r)\<rparr>))"

definition forget_control :: "string \<Rightarrow> 'w reactor \<Rightarrow> 'w reactor" where
  "forget_control rid r = r\<lparr>r_control := control_cancel rid (r_control r)\<rparr>"

definition control_request ::
    "'w env \<Rightarrow> string \<Rightarrow> ControlClientPayload \<Rightarrow> duration \<Rightarrow> ('w reactor, ControlServerPayload) io" where
  "control_request e method payload d =
     bindE (control_open_request e payload) (\<lambda>pending.
     bindE (attemptE (send_controlE e (pc_payload pending))) (\<lambda>sent.
     case sent of
       Inl err \<Rightarrow> bindE (modifyE (forget_control (pc_request_id pending))) (\<lambda>_. failE err)
     | Inr _ \<Rightarrow>
         bindE (attemptE (timeout_rx (e_peer e) d method (control_rx (pc_receiver pending)))) (\<lambda>reply.
         case reply of
           Inr (Some result) \<Rightarrow> liftE result
         | Inr None \<Rightarrow> failE Aborted
         | Inl err \<Rightarrow> bindE (modifyE (forget_control (pc_request_id pending))) (\<lambda>_. failE err))))"

section \<open>Notifications and requests\<close>

definition ping :: "'w env \<Rightarrow> ('w reactor, unit) io" where
  "ping e = notificationE e CC_Ping"

definition client_stats ::
    "'w env \<Rightarrow> ClientTrackStat list \<Rightarrow> ClientConnectionStat option \<Rightarrow> ('w reactor, unit) io" where
  "client_stats e track_stats connection_stat = notificationE e (CC_ClientStats track_stats connection_stat)"

definition request_schema :: "'w env \<Rightarrow> ('w reactor, json) io" where
  "request_schema e =
     bindE ensure_ready (\<lambda>_.
     bindE (control_request e ''request_schema'' CC_RequestSchema (opt_control_request_timeout (e_options e))) (\<lambda>payload.
     case payload of
       CS_ModelSchema openapi \<Rightarrow> retE (case openapi of Some s \<Rightarrow> struct_to_value s | None \<Rightarrow> JNull)
     | CS_Error err \<Rightarrow> failE (ControlRequest ''request_schema'' (we_code err) (we_message err))
     | _ \<Rightarrow> failE (Decode ''unexpected control response for request_schema'')))"

definition publish_track :: "'w env \<Rightarrow> string \<Rightarrow> ('w reactor, unit) io" where
  "publish_track e name =
     bindE ensure_ready (\<lambda>_.
     bindE (attemptE (
       bindE (control_request e ''publish_track'' (CC_PublishTrack name) (opt_control_request_timeout (e_options e))) (\<lambda>payload.
       case payload of
         CS_PublishTrack _ \<Rightarrow> retE ()
       | CS_Error err \<Rightarrow> failE (ControlRequest ''publish_track'' (we_code err) (we_message err))
       | _ \<Rightarrow> failE (Decode ''unexpected control response for publish_track'')))) (\<lambda>outcome.
     case outcome of
       Inr _ \<Rightarrow> retE ()
     | Inl err \<Rightarrow> bindE (modifyE (emit_error e (details_of e err ''publish_track''))) (\<lambda>_. failE err)))"

definition unpublish_track :: "'w env \<Rightarrow> string \<Rightarrow> ('w reactor, unit) io" where
  "unpublish_track e name = bindE ensure_ready (\<lambda>_. notificationE e (CC_UnpublishTrack name))"

definition is_step_input :: "'w env \<Rightarrow> string \<Rightarrow> State \<Rightarrow> bool" where
  "is_step_input e name s \<longleftrightarrow> is_stepped e \<and>
     (case s_capabilities s of
        Some c \<Rightarrow> (\<exists>t \<in> set (tracks c). tc_name t = name \<and> tc_direction t = Sendonly)
      | None \<Rightarrow> False)"

definition pause_track :: "'w env \<Rightarrow> string \<Rightarrow> ('w reactor, unit) io" where
  "pause_track e name =
     bindE ensure_ready (\<lambda>_.
     bindE (readE (is_step_input e name)) (\<lambda>input.
     bindE (whenE (\<not> input) (peer_set_track_direction (e_peer e) name False)) (\<lambda>_.
     bindE (notificationE e (CC_PauseTrack name)) (\<lambda>_.
     lockE (\<lambda>s. s\<lparr>s_paused_tracks := insert name (s_paused_tracks s)\<rparr>)))))"

definition resume_track :: "'w env \<Rightarrow> string \<Rightarrow> ('w reactor, unit) io" where
  "resume_track e name =
     bindE ensure_ready (\<lambda>_.
     bindE (readE (is_step_input e name)) (\<lambda>input.
     bindE (whenE (\<not> input) (peer_set_track_direction (e_peer e) name True)) (\<lambda>_.
     bindE (notificationE e (CC_ResumeTrack name)) (\<lambda>_.
     lockE (\<lambda>s. s\<lparr>s_paused_tracks := s_paused_tracks s - {name}\<rparr>)))))"

fun resume_all :: "'w env \<Rightarrow> string list \<Rightarrow> ('w reactor, unit) io" where
  "resume_all e [] = retE ()"
| "resume_all e (name # names) =
     bindE (attemptE (resume_track e name)) (\<lambda>_. resume_all e names)"

definition recv_tracks :: "State \<Rightarrow> string list" where
  "recv_tracks s = map tc_name (filter (\<lambda>t. tc_direction t = Recvonly) (s_tracks s))"

definition auto_resume_recv_tracks :: "'w env \<Rightarrow> ('w reactor, unit) io" where
  "auto_resume_recv_tracks e = bindE (readE recv_tracks) (\<lambda>names. resume_all e names)"

section \<open>Clips and recordings\<close>

definition dispatch_clip_request :: "'w env \<Rightarrow> string \<Rightarrow> ControlClientPayload \<Rightarrow> ('w reactor, Clip) io" where
  "dispatch_clip_request e method payload =
     bindE (getE status) (\<lambda>st.
     if st \<noteq> Ready_s
     then failE (Recording INVALID_STATE (''cannot request clip while status is '' @ ReactorStatus_as_str st))
     else
       bindE (attemptE (control_request e method payload (opt_clip_request_timeout (e_options e)))) (\<lambda>response.
       case response of
         Inr (CS_ClipReady ready) \<Rightarrow> retE (clip_from_ready ready (cfg_api_url (e_coordinator e)))
       | Inr (CS_ClipFailed reason) \<Rightarrow> failE (Recording (clip_failed_code reason) reason)
       | Inr (CS_Error err) \<Rightarrow> failE (Recording (we_code err) (we_message err))
       | Inr _ \<Rightarrow> failE (Decode (''unexpected control response for '' @ method))
       | Inl (Timeout _) \<Rightarrow> failE (Recording REQUEST_TIMEOUT ''clip request timed out'')
       | Inl err \<Rightarrow> failE err))"

definition request_clip :: "'w env \<Rightarrow> f64 \<Rightarrow> ('w reactor, Clip) io" where
  "request_clip e duration_seconds =
     (if \<not> is_finite duration_seconds \<or> f64_le duration_seconds (Fin 0)
      then failE (Recording BAD_REQUEST ''duration_seconds must be a positive finite number'')
      else dispatch_clip_request e ''requestClip'' (CC_RequestClip duration_seconds))"

definition request_recording :: "'w env \<Rightarrow> ('w reactor, Clip) io" where
  "request_recording e = dispatch_clip_request e ''requestRecording'' CC_RequestRecording"

section \<open>Uploads\<close>

definition upload_file :: "'w env \<Rightarrow> string \<Rightarrow> string \<Rightarrow> string \<Rightarrow> ('w reactor, FileRef) io" where
  "upload_file e name mime_type content =
     bindE ensure_ready (\<lambda>_.
     bindE (readE s_session_id) (\<lambda>sid.
     case sid of
       None \<Rightarrow> failE (InvalidState ''upload_file() without a session'')
     | Some sid \<Rightarrow>
         if content = [] then failE (InvalidState ''upload_file() called with an empty file'')
         else
           let sz = of_nat (length content)
           in bindE (create_upload (e_host e) (e_codec e) (e_coordinator e) sid
                       \<lparr> cur_name = name, cur_size = sz, cur_mime_type = mime_type \<rparr>) (\<lambda>upload.
              bindE (http_request (e_host e) \<lparr> req_method = Put, req_url = presigned_url upload,
                       req_headers = [(''Content-Type'', mime_type)], req_body = Some content \<rparr>) (\<lambda>response.
              bindE (liftE (check_status response ''presigned upload'')) (\<lambda>_.
              let file_ref = \<lparr> upload_id = presigned_id upload, fref_name = name, fref_mime_type = mime_type,
                    fref_size = sz \<rparr>
              in bindE (getE status) (\<lambda>st.
                 bindE (whenE (st = Ready_s)
                   (bindE (attemptE (notificationE e (CC_FileUploaded (upload_reference file_ref)))) (\<lambda>_. retE ()))) (\<lambda>_.
                 retE file_ref)))))))"

section \<open>Bitrate limits\<close>

definition set_bitrate :: "'w env \<Rightarrow> i32 option \<Rightarrow> i32 option \<Rightarrow> i32 option \<Rightarrow> ('w reactor, unit) io" where
  "set_bitrate e lo start hi = peer_set_bitrate (e_peer e) lo start hi"

fun join_names :: "string list \<Rightarrow> string" where
  "join_names [] = []"
| "join_names [n] = n"
| "join_names (n # ns) = n @ '', '' @ join_names ns"

definition set_track_bitrate :: "'w env \<Rightarrow> string \<Rightarrow> i32 option \<Rightarrow> i32 option \<Rightarrow> ('w reactor, unit) io" where
  "set_track_bitrate e name lo hi =
     bindE (readE s_tracks) (\<lambda>declared.
     if declared \<noteq> [] \<and> \<not> list_ex (\<lambda>t. tc_name t = name) declared
     then failE (InvalidState (''unknown track '' @ e_debug_str e name @ ''; this session declares: ''
            @ join_names (map tc_name declared)))
     else peer_set_track_bitrate (e_peer e) name lo hi)"

section \<open>The keep-alive\<close>

text \<open>
  The loop of \<^verbatim>\<open>run_heartbeat\<close>, from the epoch it was started in: \<^const>\<open>None\<close> when it never ends. A
  failed ping is only logged.
\<close>

definition heartbeat_current :: "u64 \<Rightarrow> State \<Rightarrow> bool" where
  "heartbeat_current epoch s \<longleftrightarrow> s_heartbeat_epoch s = epoch \<and> \<not> s_closing s \<and> s_status s = Ready_s"

definition heartbeat_pass :: "'w env \<Rightarrow> 'w reactor \<Rightarrow> 'w reactor" where
  "heartbeat_pass e r = sleep (e_host e) (opt_heartbeat_interval (e_options e)) (snd (attemptE (ping e) r))"

partial_function (option) heartbeat_loop :: "'w env \<Rightarrow> u64 \<Rightarrow> 'w reactor \<Rightarrow> 'w reactor option" where
  [code]: "heartbeat_loop e epoch r =
     (if \<not> heartbeat_current epoch (r_state r) then Some r else heartbeat_loop e epoch (heartbeat_pass e r))"

definition run_heartbeat :: "'w env \<Rightarrow> 'w reactor \<Rightarrow> 'w reactor option" where
  "run_heartbeat e r =
     (if opt_heartbeat_interval (e_options e) = 0 then Some r
      else heartbeat_loop e (s_heartbeat_epoch (r_state r)) r)"

end
