(* ===== verification/Reactor_Connect.thy ===== *)
theory Reactor_Connect
  imports Reactor_Tracks
begin

text \<open>
  Connecting, reconnecting and tearing down (\<^verbatim>\<open>reactor.rs\<close>, connection lifecycle). The awaits of one
  operation are the points where other tasks run; what the code does between two of them is one step
  here. The two futures \<^verbatim>\<open>connect_inner\<close> joins when the tracks are preset run one after the other.
\<close>

section \<open>Teardown\<close>

definition teardown_begin :: "State \<Rightarrow> State" where
  "teardown_begin s = s\<lparr>s_closing := True, s_ready_gate := None\<rparr>"

definition reset_transport :: "State \<Rightarrow> State" where
  "reset_transport s = s\<lparr>s_peer_connected := False, s_data_open := False, s_control_open := False,
     s_ice_buffer := [], s_ice_gathering_complete := False, s_ice_final_sent := False, s_ice_ready := False\<rparr>"

definition teardown_reset :: "bool \<Rightarrow> State \<Rightarrow> State" where
  "teardown_reset keep s =
     (let s = (reset_transport s)\<lparr>s_track_mapping := [], s_paused_tracks := {}\<rparr>
      in if keep then s
         else s\<lparr>s_session_id := None, s_session_info := None, s_created_session := False,
                s_connection_id := None, s_capabilities := None, s_tracks := []\<rparr>)"

definition fail_pending :: "'w env \<Rightarrow> string \<Rightarrow> 'w reactor \<Rightarrow> 'w reactor" where
  "fail_pending e reason r =
     (case control_fail_all (e_control_order e) reason (r_control r) of (csent, c) \<Rightarrow>
      case data_fail_all (e_data_order e) reason (r_data r) of (dsent, d) \<Rightarrow>
        r\<lparr>r_control := c, r_control_sent := r_control_sent r @ csent,
          r_data := d, r_data_sent := r_data_sent r @ dsent\<rparr>)"

definition teardown_clear :: "'w env \<Rightarrow> bool \<Rightarrow> bool \<Rightarrow> 'w reactor \<Rightarrow> 'w reactor" where
  "teardown_clear e keep already_failing r =
     (let r = lock (teardown_reset keep) r;
          r = (if keep then r else r\<lparr>r_step_inputs := clear_inputs (r_step_inputs r)\<rparr>);
          r = set_status e Disconnected_s r
      in if \<not> keep \<and> \<not> already_failing then emit (SessionIdChanged None) r else r)"

definition teardown_session :: "'w env \<Rightarrow> bool \<Rightarrow> bool \<Rightarrow> bool \<Rightarrow> string option \<Rightarrow> ('w reactor, unit) io" where
  "teardown_session e keep already_failing terminate sid =
     bindE (lockE teardown_begin) (\<lambda>_.
     bindE (modifyE (fail_pending e ''disconnected'')) (\<lambda>_.
     bindE (attemptE (peer_close (e_peer e))) (\<lambda>_.
     bindE (modifyE (\<lambda>r. r\<lparr>r_stats := stats_reset (r_stats r)\<rparr>)) (\<lambda>_.
     bindE (case sid of
              Some sid' \<Rightarrow> whenE terminate
                (bindE (attemptE (terminate_session (e_host e) (e_coordinator e) sid')) (\<lambda>_. retE ()))
            | None \<Rightarrow> retE ()) (\<lambda>_.
     modifyE (teardown_clear e keep already_failing))))))"

definition teardown :: "'w env \<Rightarrow> bool \<Rightarrow> bool \<Rightarrow> ('w reactor, unit) io" where
  "teardown e keep already_failing =
     bindE (readE (\<lambda>s. (\<not> keep \<and> s_created_session s, s_session_id s))) (\<lambda>(terminate, sid).
     teardown_session e keep already_failing terminate sid)"

definition disconnect :: "'w env \<Rightarrow> bool \<Rightarrow> ('w reactor, unit) io" where
  "disconnect e keep = teardown e keep False"

section \<open>The transport\<close>

definition open_gate :: "'w reactor \<Rightarrow> 'w reactor" where
  "open_gate r = check_ready_locked (lock (\<lambda>s. s\<lparr>s_ready_gate := Some (r_next_channel r)\<rparr>)
     (r\<lparr>r_next_channel := Suc (r_next_channel r)\<rparr>))"

definition await_gate :: "'w env \<Rightarrow> nat \<Rightarrow> ('w reactor, unit) io" where
  "await_gate e gate =
     bindE (timeout_rx (e_peer e) (opt_ready_timeout (e_options e)) ''transport readiness'' (gate_rx gate)) (\<lambda>fired.
     case fired of
       Some _ \<Rightarrow>
         bindE (getE (\<lambda>r. peer_data_channel_chunked (e_peer e) (r_world r))) (\<lambda>chunked.
         if is_stepped e \<and> \<not> chunked then failE ChunkingRequired else retE ())
     | None \<Rightarrow> bindE (readE teardown_error) (\<lambda>torn. failE (case torn of Some err \<Rightarrow> err | None \<Rightarrow> Aborted)))"

definition choose_connection ::
    "'w env \<Rightarrow> WebRtcSignaling \<Rightarrow> bool \<Rightarrow> u32 option \<Rightarrow> u32 option \<Rightarrow> ('w reactor, u32) io" where
  "choose_connection e g reconnect adopt existing =
     (case (adopt, reconnect, existing) of
        (Some adopted, _, _) \<Rightarrow> retE adopted
      | (None, True, Some existing) \<Rightarrow> retE existing
      | _ \<Rightarrow> register_connection (e_host e) (e_codec e) g)"

text \<open>The exchange of offer and answer, with the channel of the readiness gate it waits for.\<close>

definition negotiate ::
    "'w env \<Rightarrow> WebRtcSignaling \<Rightarrow> nat \<Rightarrow> bool \<Rightarrow> u32 option \<Rightarrow> PreparedOffer \<Rightarrow> ('w reactor, unit) io" where
  "negotiate e g gate reconnect adopt prepared =
     bindE (modifyE open_gate) (\<lambda>_.
     bindE (lockE (\<lambda>s. s\<lparr>s_track_mapping := po_track_mapping prepared\<rparr>)) (\<lambda>_.
     bindE (readE s_connection_id) (\<lambda>existing.
     bindE (choose_connection e g reconnect adopt existing) (\<lambda>cid.
     bindE (lockE (\<lambda>s. s\<lparr>s_connection_id := Some cid, s_ice_ready := True\<rparr>)) (\<lambda>_.
     bindE (flush_ice e g) (\<lambda>_.
     bindE (send_sdp_offer (e_host e) (e_codec e) g cid (po_sdp_offer prepared) (po_track_mapping prepared)
              (reconnect \<and> adopt = None \<and> existing \<noteq> None)) (\<lambda>_.
     bindE (poll_sdp_answer (e_host e) (e_codec e) g cid) (\<lambda>answer.
     bindE (case sar_connection_id answer of
              Some reassigned \<Rightarrow> lockE (\<lambda>s. s\<lparr>s_connection_id := Some reassigned\<rparr>)
            | None \<Rightarrow> retE ()) (\<lambda>_.
     bindE (readE teardown_error) (\<lambda>torn.
     case torn of
       Some err \<Rightarrow> failE err
     | None \<Rightarrow>
         bindE (attemptE (peer_set_remote_description (e_peer e) (sdp_answer answer))) (\<lambda>applied.
         case applied of
           Inl err \<Rightarrow> bindE (readE teardown_error) (\<lambda>torn. failE (case torn of Some t \<Rightarrow> t | None \<Rightarrow> err))
         | Inr _ \<Rightarrow> await_gate e gate)))))))))))"

definition finish_transport ::
    "'w env \<Rightarrow> string \<Rightarrow> bool \<Rightarrow> u32 option \<Rightarrow> PreparedOffer \<Rightarrow> ('w reactor, unit) io" where
  "finish_transport e sid reconnect adopt prepared =
     bindE (readE (signaling e sid)) (\<lambda>g.
     bindE (getE r_next_channel) (\<lambda>gate.
     negotiate e g gate reconnect adopt prepared))"

definition establish_transport :: "'w env \<Rightarrow> string \<Rightarrow> bool \<Rightarrow> u32 option \<Rightarrow> ('w reactor, unit) io" where
  "establish_transport e sid reconnect adopt =
     bindE (readE (signaling e sid)) (\<lambda>g.
     bindE (ice_servers (e_host e) (e_codec e) g) (\<lambda>servers.
     bindE (readE (\<lambda>s. media_tracks e (s_tracks s))) (\<lambda>ts.
     bindE (peer_prepare (e_peer e) servers ts) (\<lambda>prepared.
     finish_transport e sid reconnect adopt prepared))))"

section \<open>Connecting\<close>

definition connect_begin :: "f64 \<Rightarrow> ConnectOptions \<Rightarrow> State \<Rightarrow> State" where
  "connect_begin now opts s =
     (let s = s\<lparr>s_closing := False, s_teardown_reason := None, s_status := Connecting_s,
            s_heartbeat_epoch := s_heartbeat_epoch s + 1, s_connect_started_ms := Some now,
            s_time_to_connect_ms := None\<rparr>;
          s = (case co_auto_resume_tracks opts of Some b \<Rightarrow> s\<lparr>s_auto_resume_tracks := b\<rparr> | None \<Rightarrow> s)
      in (case co_max_sdp_attempts opts of Some n \<Rightarrow> s\<lparr>s_sdp_max_attempts := n\<rparr> | None \<Rightarrow> s))"

definition begin_connection :: "'w reactor \<Rightarrow> 'w reactor" where
  "begin_connection r = emit (StatusChanged Connecting_s)
     (r\<lparr>r_stage_times := st_begin_connection (r_stage_times r),
        r_message_times := mt_begin_connection (r_message_times r)\<rparr>)"

definition session_for_connect :: "'w env \<Rightarrow> ConnectOptions \<Rightarrow> ('w reactor, string) io" where
  "session_for_connect e opts =
     (case co_session_id opts of
        Some sid \<Rightarrow> bindE (lockE (\<lambda>s. s\<lparr>s_session_id := Some sid, s_created_session := False\<rparr>)) (\<lambda>_. retE sid)
      | None \<Rightarrow>
          bindE (create_session (e_host e) (e_codec e) (e_coordinator e)) (\<lambda>created.
          bindE (lockE (\<lambda>s. s\<lparr>s_session_id := Some (session_id created), s_created_session := True,
                   s_session_info := Some created\<rparr>)) (\<lambda>_.
          retE (session_id created))))"

definition capabilities_of :: "SessionResponse \<Rightarrow> (CoreError, Capabilities) result" where
  "capabilities_of session = ok_or (Decode ''ready session missing capabilities'') (capabilities session)"

definition accept_session :: "SessionResponse \<Rightarrow> Capabilities \<Rightarrow> 'w reactor \<Rightarrow> 'w reactor" where
  "accept_session session caps r = emit (CapabilitiesReceived caps)
     (lock (\<lambda>s. s\<lparr>s_tracks := tracks caps, s_capabilities := Some caps, s_session_info := Some session\<rparr>) r)"

definition prepare_preset :: "'w env \<Rightarrow> string \<Rightarrow> TrackCapability list \<Rightarrow> ('w reactor, PreparedOffer) io" where
  "prepare_preset e sid preset =
     bindE (readE (signaling e sid)) (\<lambda>g.
     bindE (ice_servers (e_host e) (e_codec e) g) (\<lambda>servers.
     peer_prepare (e_peer e) servers (media_tracks e preset)))"

definition connect_preset ::
    "'w env \<Rightarrow> string \<Rightarrow> u32 option \<Rightarrow> TrackCapability list \<Rightarrow> ('w reactor, unit) io" where
  "connect_preset e sid adopt preset =
     bindE (attemptE (poll_session_ready (e_host e) (e_codec e) (e_coordinator e) sid)) (\<lambda>session_result.
     bindE (attemptE (prepare_preset e sid preset)) (\<lambda>prepared_result.
     bindE (liftE session_result) (\<lambda>session.
     bindE (liftE (check_generation (opt_generation (e_options e)) session)) (\<lambda>_.
     bindE (liftE (capabilities_of session)) (\<lambda>caps.
     if \<not> tracks_match (tracks caps) preset
     then bindE (case prepared_result of
              Inr _ \<Rightarrow> bindE (attemptE (peer_close (e_peer e))) (\<lambda>_. retE ())
            | Inl _ \<Rightarrow> retE ()) (\<lambda>_.
          failE (PresetTracksMismatch preset (tracks caps)))
     else
       bindE (liftE prepared_result) (\<lambda>prepared.
       bindE (modifyE (accept_session session caps)) (\<lambda>_.
       finish_transport e sid False adopt prepared)))))))"

definition connect_sequential :: "'w env \<Rightarrow> string \<Rightarrow> u32 option \<Rightarrow> ('w reactor, unit) io" where
  "connect_sequential e sid adopt =
     bindE (poll_session_ready (e_host e) (e_codec e) (e_coordinator e) sid) (\<lambda>session.
     bindE (liftE (check_generation (opt_generation (e_options e)) session)) (\<lambda>_.
     bindE (liftE (capabilities_of session)) (\<lambda>caps.
     bindE (modifyE (accept_session session caps)) (\<lambda>_.
     establish_transport e sid False adopt))))"

definition finish_connect :: "'w env \<Rightarrow> ('w reactor, unit) io" where
  "finish_connect e =
     bindE (modifyE (set_status e Ready_s)) (\<lambda>_.
     bindE (readE s_auto_resume_tracks) (\<lambda>auto.
     whenE auto (auto_resume_recv_tracks e)))"

definition connect_inner :: "'w env \<Rightarrow> ConnectOptions \<Rightarrow> ('w reactor, unit) io" where
  "connect_inner e opts =
     bindE (session_for_connect e opts) (\<lambda>sid.
     bindE (dispatchE (SessionIdChanged (Some sid))) (\<lambda>_.
     bindE (modifyE (set_status e Waiting_s)) (\<lambda>_.
     bindE (case opt_preset_tracks (e_options e) of
              Some preset \<Rightarrow> connect_preset e sid (co_connection_id opts) preset
            | None \<Rightarrow> connect_sequential e sid (co_connection_id opts)) (\<lambda>_.
     finish_connect e))))"

text \<open>What \<^verbatim>\<open>connect\<close> and \<^verbatim>\<open>reconnect\<close> do with the outcome of the attempt.\<close>

definition on_failure :: "'w env \<Rightarrow> string \<Rightarrow> bool \<Rightarrow> ('w reactor, unit) io \<Rightarrow> ('w reactor, unit) io" where
  "on_failure e operation keep attempt =
     bindE (attemptE attempt) (\<lambda>outcome.
     case outcome of
       Inr _ \<Rightarrow> retE ()
     | Inl err \<Rightarrow>
         bindE (modifyE (emit_error e (details_of e err operation))) (\<lambda>_.
         bindE (teardown e keep True) (\<lambda>_. failE err)))"

definition connect :: "'w env \<Rightarrow> ConnectOptions \<Rightarrow> ('w reactor, unit) io" where
  "connect e opts =
     bindE (getE status) (\<lambda>st.
     if st \<noteq> Disconnected_s
     then failE (InvalidState (''connect() while status is '' @ ReactorStatus_as_str st))
     else
       bindE (getE (now_ms (e_host e))) (\<lambda>now.
       bindE (modifyE (begin_connection \<circ> lock (connect_begin now opts))) (\<lambda>_.
       on_failure e ''connect'' False (connect_inner e opts))))"

definition reconnect_begin :: "f64 \<Rightarrow> u32 option \<Rightarrow> State \<Rightarrow> State" where
  "reconnect_begin now attempts s =
     (let s = (case attempts of Some n \<Rightarrow> s\<lparr>s_sdp_max_attempts := n\<rparr> | None \<Rightarrow> s)
      in (reset_transport s)\<lparr>s_closing := False, s_teardown_reason := None, s_status := Connecting_s,
            s_heartbeat_epoch := s_heartbeat_epoch s + 1, s_connect_started_ms := Some now,
            s_time_to_connect_ms := None\<rparr>)"

definition reconnect :: "'w env \<Rightarrow> u32 option \<Rightarrow> ('w reactor, unit) io" where
  "reconnect e attempts =
     bindE (getE status) (\<lambda>st.
     bindE (whenE (st = Ready_s) (disconnect e True)) (\<lambda>_.
     bindE (readE s_session_id) (\<lambda>sid.
     case sid of
       None \<Rightarrow> failE (InvalidState ''reconnect() without a session'')
     | Some sid \<Rightarrow>
         bindE (getE (now_ms (e_host e))) (\<lambda>now.
         bindE (modifyE (begin_connection \<circ> lock (reconnect_begin now attempts))) (\<lambda>_.
         bindE (modifyE (set_status e Waiting_s)) (\<lambda>_.
         on_failure e ''reconnect'' True
           (bindE (establish_transport e sid True None) (\<lambda>_. finish_connect e))))))))"

end
