(* ===== verification/Reactor_Messaging.thy ===== *)
theory Reactor_Messaging
  imports Reactor_Connect
begin

text \<open>
  Commands, steps, frames and the engine's events (\<^verbatim>\<open>reactor.rs\<close>). A send on a channel whose receiver
  is gone is recorded like any other: nobody reads it.
\<close>

section \<open>Data requests\<close>

record CommandTiming =
  ct_generation :: u64
  ct_built_ms :: f64
  ct_stages :: "(string \<times> f64) list"

definition data_rx :: "nat \<Rightarrow> 'w reactor \<Rightarrow> DataResult rx" where
  "data_rx ch r =
     (case map_of (r_data_sent r) ch of
        Some result \<Rightarrow> Rx_Sent result
      | None \<Rightarrow> if ch \<in> set (dat_waiting (r_data r)) then Rx_Pending else Rx_Dropped)"

definition data_open_request :: "'w env \<Rightarrow> DataClientPayload \<Rightarrow> ('w reactor, nat PendingData) io" where
  "data_open_request e payload = (\<lambda>r.
     case data_begin (e_wire e) (r_next_channel r) payload (r_data r) of (pending, c) \<Rightarrow>
       (Inr pending, r\<lparr>r_data := c, r_next_channel := Suc (r_next_channel r)\<rparr>))"

definition forget_data :: "string \<Rightarrow> 'w reactor \<Rightarrow> 'w reactor" where
  "forget_data rid r = r\<lparr>r_data := data_cancel rid (r_data r)\<rparr>"

text \<open>\<^verbatim>\<open>ForgetOnDrop\<close>: however the block ends, the request is forgotten.\<close>

definition forgetting :: "string \<Rightarrow> ('w reactor, 'a) io \<Rightarrow> ('w reactor, 'a) io" where
  "forgetting rid m = (\<lambda>r. case m r of (outcome, r') \<Rightarrow> (outcome, forget_data rid r'))"

text \<open>A caller that stops awaiting: its receiver is gone, and so is its request.\<close>

definition abandon :: "nat PendingData \<Rightarrow> 'w reactor \<Rightarrow> 'w reactor" where
  "abandon pending r = forget_data (pd_request_id pending) (r\<lparr>r_dropped := pd_receiver pending # r_dropped r\<rparr>)"

definition send_pending :: "'w env \<Rightarrow> string \<Rightarrow> nat PendingData \<Rightarrow> ('w reactor, unit) io" where
  "send_pending e operation pending =
     bindE (getE (\<lambda>r. peer_max_message_bytes (e_peer e) (r_world r))) (\<lambda>max_bytes.
     if length (pd_payload pending) > max_bytes
     then bindE (modifyE (forget_data (pd_request_id pending))) (\<lambda>_.
          failE (MessageTooLarge (length (pd_payload pending)) max_bytes))
     else
       bindE (attemptE (world_resultE (peer_send_data (e_peer e) (pd_payload pending) True))) (\<lambda>sent.
       case sent of
         Inr _ \<Rightarrow> retE ()
       | Inl err \<Rightarrow>
           bindE (modifyE (forget_data (pd_request_id pending))) (\<lambda>_.
           bindE (case err of
                    MessageTooLarge _ _ \<Rightarrow> retE ()
                  | _ \<Rightarrow> modifyE (emit_error e (details_of e err operation))) (\<lambda>_.
           failE err))))"

definition await_data_response ::
    "'w env \<Rightarrow> string \<Rightarrow> nat PendingData \<Rightarrow> duration \<Rightarrow> ('w reactor, DataServerPayload option) io" where
  "await_data_response e label pending d =
     bindE (attemptE (timeout_rx (e_peer e) d label (data_rx (pd_receiver pending)))) (\<lambda>reply.
     case reply of
       Inr (Some result) \<Rightarrow> liftE result
     | Inr None \<Rightarrow> failE Aborted
     | Inl err \<Rightarrow> bindE (modifyE (forget_data (pd_request_id pending))) (\<lambda>_. failE err))"

definition message_timeE :: "u64 \<Rightarrow> string \<Rightarrow> f64 \<Rightarrow> ('w reactor, unit) io" where
  "message_timeE gen stage ms = modifyE (\<lambda>r. r\<lparr>r_message_times := mt_add_from gen stage ms (r_message_times r)\<rparr>)"

fun message_timesE :: "u64 \<Rightarrow> (string \<times> f64) list \<Rightarrow> ('w reactor, unit) io" where
  "message_timesE gen [] = retE ()"
| "message_timesE gen ((stage, ms) # stages) = bindE (message_timeE gen stage ms) (\<lambda>_. message_timesE gen stages)"

definition take_arrivalE :: "string \<Rightarrow> ('w reactor, ReplyArrival option) io" where
  "take_arrivalE rid = (\<lambda>r. case take_arrival rid (r_data r) of (arrival, c) \<Rightarrow> (Inr arrival, r\<lparr>r_data := c\<rparr>))"

definition data_request ::
    "'w env \<Rightarrow> string \<Rightarrow> string \<Rightarrow> DataClientPayload \<Rightarrow> duration \<Rightarrow> CommandTiming \<Rightarrow>
       ('w reactor, DataServerPayload option \<times> f64 option) io" where
  "data_request e operation label payload d timing =
     bindE (data_open_request e payload) (\<lambda>pending.
     forgetting (pd_request_id pending) (
       bindE (monotonicE e) (\<lambda>handed_ms.
       bindE (send_pending e operation pending) (\<lambda>_.
       bindE (message_timesE (ct_generation timing) (ct_stages timing)) (\<lambda>_.
       bindE (message_timeE (ct_generation timing) ENCODE (f64_sub handed_ms (ct_built_ms timing))) (\<lambda>_.
       bindE (attemptE (await_data_response e label pending d)) (\<lambda>outcome.
       bindE (take_arrivalE (pd_request_id pending)) (\<lambda>arrival.
       bindE (case (arrival, outcome) of
                (Some a, Inr _) \<Rightarrow> message_timeE (ct_generation timing) REPLY_DECODE (f64_sub (resolved_ms a) (arrived_ms a))
              | _ \<Rightarrow> retE ()) (\<lambda>_.
       bindE (liftE outcome) (\<lambda>response.
       retE (response, map_option resolved_ms arrival)))))))))))"

section \<open>Commands\<close>

text \<open>\<^verbatim>\<open>json!\<close> objects are in key order.\<close>

definition message_value :: "ModelMessage \<Rightarrow> json" where
  "message_value msg = JObject
     [(''data'', case mm_data msg of Some d \<Rightarrow> struct_to_value d | None \<Rightarrow> JNull), (''type'', JString (mm_type msg))]"

definition command_reply :: "string \<Rightarrow> DataServerPayload option \<Rightarrow> (CoreError, json option) result" where
  "command_reply command response =
     (case response of
        None \<Rightarrow> Inr None
      | Some (DS_Message msg) \<Rightarrow> Inr (Some (message_value msg))
      | Some (DS_Error err) \<Rightarrow> Inl (CommandRequest command (we_code err) (we_message err))
      | Some (DS_StepResult _) \<Rightarrow> Inl (Decode (''unexpected step reply to command '' @ [CHR 0x27] @ command @ [CHR 0x27])))"

definition command_stages :: "CommandEntry option \<Rightarrow> f64 \<Rightarrow> f64 \<Rightarrow> (string \<times> f64) list" where
  "command_stages entry started_ms built_ms = (BUILD, f64_sub built_ms started_ms) #
     (case entry of
        Some en \<Rightarrow> [(FFI_PARSE, f64_sub (parsed_ms en) (entered_ms en)), (SPAWN, f64_sub started_ms (parsed_ms en))]
      | None \<Rightarrow> [])"

definition send_command_from ::
    "'w env \<Rightarrow> string \<Rightarrow> json \<Rightarrow> (string \<times> FileRef) list option \<Rightarrow> CommandEntry option \<Rightarrow> ('w reactor, json option) io" where
  "send_command_from e command data uploads entry =
     bindE (getE (\<lambda>r. mt_generation (r_message_times r))) (\<lambda>gen.
     bindE (monotonicE e) (\<lambda>started_ms.
     bindE ensure_ready (\<lambda>_.
     bindE (liftE (build_command_payload command data uploads)) (\<lambda>payload.
     bindE (monotonicE e) (\<lambda>built_ms.
     bindE (data_request e ''send_command'' command payload (opt_control_request_timeout (e_options e))
              \<lparr> ct_generation = gen, ct_built_ms = built_ms, ct_stages = command_stages entry started_ms built_ms \<rparr>)
       (\<lambda>(response, resolved).
     bindE (case resolved of
              Some ms \<Rightarrow> bindE (monotonicE e) (\<lambda>now. message_timeE gen DELIVERY (f64_sub now ms))
            | None \<Rightarrow> retE ()) (\<lambda>_.
     liftE (command_reply command response))))))))"

definition send_command ::
    "'w env \<Rightarrow> string \<Rightarrow> json \<Rightarrow> (string \<times> FileRef) list option \<Rightarrow> ('w reactor, json option) io" where
  "send_command e command data uploads = send_command_from e command data uploads None"

definition add_message_stage :: "u64 \<Rightarrow> string \<Rightarrow> f64 \<Rightarrow> ('w reactor, unit) io" where
  "add_message_stage gen stage ms = message_timeE gen stage ms"

section \<open>Steps\<close>

definition build_step :: "'w env \<Rightarrow> json \<Rightarrow> StepCommand list \<Rightarrow> ('w reactor, RequestStep) io" where
  "build_step e state cmds =
     (if \<not> is_stepped e
      then failE (InvalidState ''step() needs a session connected with generation: stepped'')
      else bindE ensure_ready (\<lambda>_. liftE (build_request_step state cmds [])))"

definition check_step :: "'w env \<Rightarrow> json \<Rightarrow> StepCommand list \<Rightarrow> ('w reactor, unit) io" where
  "check_step e state cmds = bindE (build_step e state cmds) (\<lambda>_. retE ())"

definition take_step_inputs :: "'w env \<Rightarrow> ('w reactor, TrackFrames list) io" where
  "take_step_inputs e = (\<lambda>r.
     case take_inputs (e_wire e) (r_step_inputs r) of (taken, b) \<Rightarrow> liftE taken (r\<lparr>r_step_inputs := b\<rparr>))"

definition begin_step :: "'w env \<Rightarrow> json \<Rightarrow> StepCommand list \<Rightarrow> ('w reactor, RequestStep) io" where
  "begin_step e state cmds =
     bindE (build_step e state cmds) (\<lambda>request.
     bindE (take_step_inputs e) (\<lambda>frames.
     retE (request\<lparr>rs_media_input := frames\<rparr>)))"

definition step_reply :: "'w env \<Rightarrow> DataServerPayload option \<Rightarrow> (CoreError, StepOutput) result" where
  "step_reply e response =
     (case response of
        Some (DS_StepResult res) \<Rightarrow> decode_result (e_wire e) (e_frame_decoders e) res
      | Some (DS_Error err) \<Rightarrow> Inl (StepFailed (we_code err) (we_message err))
      | Some other \<Rightarrow> Inl (Decode (''unexpected reply to a step: '' @ e_debug_payload e other))
      | None \<Rightarrow> Inl (Decode ''empty reply to a step''))"

definition send_step :: "'w env \<Rightarrow> RequestStep \<Rightarrow> ('w reactor, StepOutput) io" where
  "send_step e request =
     bindE (data_open_request e (DC_RequestStep request)) (\<lambda>pending.
     bindE (send_pending e ''step'' pending) (\<lambda>_.
     bindE (attemptE (await_data_response e ''step'' pending (opt_step_timeout (e_options e)))) (\<lambda>outcome.
     case outcome of
       Inl (CommandRequest _ c msg) \<Rightarrow> failE (StepFailed c msg)
     | Inl err \<Rightarrow> failE err
     | Inr response \<Rightarrow> liftE (step_reply e response))))"

definition step :: "'w env \<Rightarrow> json \<Rightarrow> StepCommand list \<Rightarrow> ('w reactor, StepOutput) io" where
  "step e state cmds = bindE (begin_step e state cmds) (send_step e)"

definition clear_step_inputs :: "('w reactor, unit) io" where
  "clear_step_inputs = modifyE (\<lambda>r. r\<lparr>r_step_inputs := clear_inputs (r_step_inputs r)\<rparr>)"

end
