(* ===== verification/Reactor_Frames.thy ===== *)
theory Reactor_Frames
  imports Reactor_Messaging
begin

text \<open>
  Frames pushed by the host and events of the engine (\<^verbatim>\<open>reactor.rs\<close>).
\<close>

section \<open>Pushing frames\<close>

definition submit_started :: "'w env \<Rightarrow> ('w reactor, f64 \<times> u64) io" where
  "submit_started e =
     bindE (monotonicE e) (\<lambda>now. bindE (getE (\<lambda>r. st_generation (r_stage_times r))) (\<lambda>gen. retE (now, gen)))"

definition submitted :: "'w env \<Rightarrow> string \<Rightarrow> f64 \<times> u64 \<Rightarrow> ('w reactor, unit) io" where
  "submitted e track started =
     (case started of (started_ms, gen) \<Rightarrow>
        bindE (monotonicE e) (\<lambda>now.
        modifyE (\<lambda>r. r\<lparr>r_stage_times := st_add_from gen track SUBMIT (f64_sub now started_ms) (r_stage_times r)\<rparr>)))"

definition push_peerE :: "('w \<Rightarrow> 'w) \<Rightarrow> ('w reactor, unit) io" where
  "push_peerE f = modifyE (\<lambda>r. r\<lparr>r_world := f (r_world r)\<rparr>)"

definition takes_step_input :: "string \<Rightarrow> TrackKind \<Rightarrow> State \<Rightarrow> bool" where
  "takes_step_input name kind s =
     (if name \<in> s_paused_tracks s then False
      else case s_capabilities s of
          None \<Rightarrow> True
        | Some caps \<Rightarrow> list_ex (\<lambda>t. tc_name t = name \<and> tc_direction t = Sendonly \<and> tc_kind t = kind) (tracks caps))"

text \<open>\<^verbatim>\<open>StepInputs::push\<close> panics when the buffer's bookkeeping disagrees with itself, which it never does.\<close>

definition push_inputE :: "'w env \<Rightarrow> string \<Rightarrow> int \<Rightarrow> Frame option \<Rightarrow> ('w reactor, unit) io" where
  "push_inputE e name kind frame =
     (case frame of
        None \<Rightarrow> retE ()
      | Some f \<Rightarrow> (\<lambda>r. case push (e_wire e) name kind f (peer_max_message_bytes (e_peer e) (r_world r)) (r_step_inputs r) of
            Some b \<Rightarrow> (Inr (), r\<lparr>r_step_inputs := b\<rparr>)
          | None \<Rightarrow> panicE r))"

definition buffer_video_frame ::
    "'w env \<Rightarrow> string \<Rightarrow> bytes \<Rightarrow> u32 \<Rightarrow> u32 \<Rightarrow> PixelLayout \<Rightarrow> bytes option \<Rightarrow> i64 option \<Rightarrow> ('w reactor, unit) io" where
  "buffer_video_frame e name data width height layout metadata capture_time_us =
     bindE (readE (takes_step_input name Video)) (\<lambda>takes.
     whenE takes (push_inputE e name (kind_video (e_wire e))
       (raw_video_frame (e_wire e) data width height layout metadata capture_time_us)))"

definition push_timed :: "'w env \<Rightarrow> string \<Rightarrow> ('w \<Rightarrow> 'w) \<Rightarrow> ('w reactor, unit) io" where
  "push_timed e name f =
     bindE (submit_started e) (\<lambda>started. bindE (push_peerE f) (\<lambda>_. submitted e name started))"

definition push_video_frame :: "'w env \<Rightarrow> string \<Rightarrow> bytes \<Rightarrow> u32 \<Rightarrow> u32 \<Rightarrow> ('w reactor, unit) io" where
  "push_video_frame e name data width height =
     (if is_stepped e then buffer_video_frame e name data width height Bgra None None
      else push_timed e name (peer_push_video_frame (e_peer e) name data width height))"

definition push_video_frame_with_metadata ::
    "'w env \<Rightarrow> string \<Rightarrow> bytes \<Rightarrow> u32 \<Rightarrow> u32 \<Rightarrow> bytes \<Rightarrow> ('w reactor, unit) io" where
  "push_video_frame_with_metadata e name data width height user_data =
     (if is_stepped e then buffer_video_frame e name data width height Bgra (Some user_data) None
      else push_timed e name (peer_push_video_frame_with_metadata (e_peer e) name data width height user_data))"

definition push_video_frame_with_metadata_at ::
    "'w env \<Rightarrow> string \<Rightarrow> bytes \<Rightarrow> u32 \<Rightarrow> u32 \<Rightarrow> bytes \<Rightarrow> i64 \<Rightarrow> ('w reactor, unit) io" where
  "push_video_frame_with_metadata_at e name data width height user_data capture_time_us =
     (if is_stepped e then buffer_video_frame e name data width height Bgra (Some user_data) (Some capture_time_us)
      else push_timed e name
        (peer_push_video_frame_with_metadata_at (e_peer e) name data width height user_data capture_time_us))"

definition push_video_frame_timed ::
    "'w env \<Rightarrow> string \<Rightarrow> bytes \<Rightarrow> u32 \<Rightarrow> u32 \<Rightarrow> bytes \<Rightarrow> i64 option \<Rightarrow> f64 \<Rightarrow> u64 \<Rightarrow> ('w reactor, unit) io" where
  "push_video_frame_timed e name data width height user_data capture_time_us binding_ms gen =
     (if is_stepped e
      then buffer_video_frame e name data width height Bgra (if user_data \<noteq> [] then Some user_data else None) capture_time_us
      else
        bindE (monotonicE e) (\<lambda>now_ms.
        let binding_ms = (if is_finite binding_ms then f64_max binding_ms (Fin 0) else Fin 0)
        in bindE (push_peerE (case capture_time_us of
                     Some stamp \<Rightarrow> peer_push_video_frame_with_metadata_at (e_peer e) name data width height user_data stamp
                   | None \<Rightarrow>
                       if user_data \<noteq> []
                       then peer_push_video_frame_with_metadata (e_peer e) name data width height user_data
                       else peer_push_video_frame (e_peer e) name data width height)) (\<lambda>_.
           submitted e name (f64_sub now_ms binding_ms, gen))))"

definition push_audio_frame :: "'w env \<Rightarrow> string \<Rightarrow> u16 list \<Rightarrow> u32 \<Rightarrow> u32 \<Rightarrow> ('w reactor, unit) io" where
  "push_audio_frame e name data sample_rate num_channels =
     (if is_stepped e
      then bindE (readE (takes_step_input name Audio)) (\<lambda>takes.
           whenE takes (push_inputE e name (kind_audio (e_wire e)) (raw_audio_frame (e_wire e) data num_channels)))
      else push_peerE (peer_push_audio_frame (e_peer e) name data sample_rate num_channels))"

definition push_step_video_frame ::
    "'w env \<Rightarrow> string \<Rightarrow> bytes \<Rightarrow> u32 \<Rightarrow> u32 \<Rightarrow> PixelLayout \<Rightarrow> bytes option \<Rightarrow> i64 option \<Rightarrow> ('w reactor, unit) io" where
  "push_step_video_frame e name pixels width height layout metadata capture_time_us =
     (if \<not> is_stepped e then retE ()
      else buffer_video_frame e name pixels width height layout metadata capture_time_us)"

definition push_step_encoded_video_frame ::
    "'w env \<Rightarrow> string \<Rightarrow> int \<Rightarrow> bytes \<Rightarrow> u32 \<Rightarrow> u32 \<Rightarrow> bytes option \<Rightarrow> i64 option \<Rightarrow> ('w reactor, unit) io" where
  "push_step_encoded_video_frame e name encoding data width height metadata capture_time_us =
     (if \<not> is_stepped e then retE ()
      else
        bindE (readE (takes_step_input name Video)) (\<lambda>takes.
        whenE takes (push_inputE e name (kind_video (e_wire e))
          (encoded_video_frame (e_wire e) encoding data width height metadata capture_time_us))))"

section \<open>Messages\<close>

definition reads_again :: "'w env \<Rightarrow> bytes \<Rightarrow> 'w reactor \<Rightarrow> bool" where
  "reads_again e raw r =
     (case dec_data (e_wire e) raw of
        Inl _ \<Rightarrow> False
      | Inr msg \<Rightarrow> sv_request_id msg \<noteq> [] \<and> hm_get (dat_pending (r_data r)) (sv_request_id msg) \<noteq> None
          \<and> \<not> is_step_result (sv_payload msg))"

definition receive_data :: "'w env \<Rightarrow> bytes \<Rightarrow> ('w reactor, HandledMessage option) io" where
  "receive_data e raw =
     bindE (monotonicE e) (\<lambda>first.
     bindE (getE (reads_again e raw)) (\<lambda>again.
     bindE (if again then monotonicE e else retE first) (\<lambda>second.
     (\<lambda>r. case data_handle_message_at (e_wire e) (\<lambda>ch. ch \<notin> set (r_dropped r)) raw
                 (Some (\<lambda>n. if n = 0 then first else second)) (r_data r) of
        (handled, sent, c) \<Rightarrow> (Inr handled, r\<lparr>r_data := c, r_data_sent := r_data_sent r @ sent\<rparr>)))))"

definition on_data_message :: "'w env \<Rightarrow> bytes \<Rightarrow> ('w reactor, unit) io" where
  "on_data_message e raw =
     bindE (receive_data e raw) (\<lambda>handled.
     case handled of
       None \<Rightarrow> retE ()
     | Some h \<Rightarrow>
         (case hm_payload h of
            None \<Rightarrow> retE ()
          | Some (DS_Message msg) \<Rightarrow> dispatchE (Message (message_value msg))
          | Some (DS_Error err) \<Rightarrow>
              if correlated h then retE ()
              else modifyE (emit_error e (ErrorDetails_new (we_code err) (we_message err) True))
          | Some (DS_StepResult _) \<Rightarrow> retE ()))"

definition CLIP_READY :: string where "CLIP_READY = ''clipReady''"
definition CLIP_FAILED :: string where "CLIP_FAILED = ''clipFailed''"
definition MODERATION :: string where "MODERATION = ''moderation''"

definition jfloat :: "f64 \<Rightarrow> json" where
  "jfloat x = (case jnumber_from_f64 x of Some n \<Rightarrow> JNumber n | None \<Rightarrow> JNull)"

definition clip_to_value :: "Clip \<Rightarrow> json" where
  "clip_to_value c = JObject
     [(''end_marker'', jfloat (clip_end_marker c)), (''kind'', JString (clip_kind c)),
      (''now_marker'', jfloat (clip_now_marker c)), (''playlist_url'', JString (clip_playlist_url c)),
      (''predicted_ready_at_ms'', jfloat (clip_predicted_ready_at_ms c)),
      (''session_id'', JString (clip_session_id c)), (''start_marker'', jfloat (clip_start_marker c))]"

definition dispatch_runtime_message :: "string \<Rightarrow> json \<Rightarrow> ('w reactor, unit) io" where
  "dispatch_runtime_message kind data = dispatchE (RuntimeMessage (JObject [(''data'', data), (''type'', JString kind)]))"

definition receive_control :: "'w env \<Rightarrow> bytes \<Rightarrow> ('w reactor, ControlServerPayload option) io" where
  "receive_control e raw = (\<lambda>r.
     case control_handle_message (e_wire e) raw (r_control r) of
       (payload, sent, c) \<Rightarrow> (Inr payload, r\<lparr>r_control := c, r_control_sent := r_control_sent r @ sent\<rparr>))"

definition on_control_message :: "'w env \<Rightarrow> bytes \<Rightarrow> ('w reactor, unit) io" where
  "on_control_message e raw =
     bindE (receive_control e raw) (\<lambda>payload.
     case payload of
       None \<Rightarrow> retE ()
     | Some (CS_ClipReady ready) \<Rightarrow>
         dispatch_runtime_message CLIP_READY (clip_to_value (clip_from_ready ready (cfg_api_url (e_coordinator e))))
     | Some (CS_ClipFailed reason) \<Rightarrow>
         dispatch_runtime_message CLIP_FAILED (JObject [(''reason'', JString reason)])
     | Some (CS_Moderation m) \<Rightarrow>
         dispatch_runtime_message MODERATION (JObject
           [(''action'', mod_action m), (''categories'', mod_categories m), (''command'', mod_command m),
            (''input_kind'', mod_input_kind m), (''message'', mod_message m)])
     | Some _ \<Rightarrow> retE ())"

section \<open>Engine events\<close>

definition on_peer_connection_state :: "'w env \<Rightarrow> PeerConnectionState \<Rightarrow> ('w reactor, unit) io" where
  "on_peer_connection_state e st =
     (if st = PC_Connected
      then modifyE (\<lambda>r. check_ready_locked (lock (\<lambda>s. s\<lparr>s_peer_connected := True\<rparr>) r))
      else if st = PC_Failed \<or> st = PC_Disconnected \<or> st = PC_Closed
      then
        bindE (readE (\<lambda>s. \<not> s_closing s \<and> s_status s \<noteq> Disconnected_s)) (\<lambda>should_report.
        whenE should_report
          (bindE (modifyE (emit_error e (ErrorDetails_new DISCONNECTED
                    (''peer connection state: '' @ show_PeerConnectionState st) True))) (\<lambda>_.
           bindE (lockE (\<lambda>s. s\<lparr>s_teardown_reason := Some st\<rparr>)) (\<lambda>_.
           teardown e True True))))
      else retE ())"

definition resolve_track :: "string option \<Rightarrow> string option \<Rightarrow> State \<Rightarrow> string option" where
  "resolve_track name mid s =
     (case name of
        Some n \<Rightarrow> Some n
      | None \<Rightarrow> (case mid of
            None \<Rightarrow> None
          | Some m \<Rightarrow> map_option tm_name (find (\<lambda>entry. tm_mid entry = m) (s_track_mapping s))))"

definition buffer_ice :: "(State \<Rightarrow> State) \<Rightarrow> 'w reactor \<Rightarrow> 'w reactor" where
  "buffer_ice f r =
     (let r = lock f r in if s_ice_ready (r_state r) then notify_ice_flush r else r)"

fun handle_peer_event :: "'w env \<Rightarrow> PeerEvent \<Rightarrow> ('w reactor, unit) io" where
  "handle_peer_event e (ConnectionStateChanged st) = on_peer_connection_state e st"
| "handle_peer_event e DataChannelOpen =
     modifyE (\<lambda>r. check_ready_locked (lock (\<lambda>s. s\<lparr>s_data_open := True\<rparr>) r))"
| "handle_peer_event e ControlChannelOpen =
     modifyE (\<lambda>r. check_ready_locked (lock (\<lambda>s. s\<lparr>s_control_open := True\<rparr>) r))"
| "handle_peer_event e (DataChannelMessage raw) = on_data_message e raw"
| "handle_peer_event e (ControlChannelMessage raw) = on_control_message e raw"
| "handle_peer_event e (PE_TrackReceived name mid) =
     bindE (readE (resolve_track name mid)) (\<lambda>resolved.
     case resolved of
       Some n \<Rightarrow> dispatchE (TrackReceived n mid)
     | None \<Rightarrow> retE ())"
| "handle_peer_event e (PE_IceCandidate cand) = modifyE (buffer_ice (ice_candidate cand))"
| "handle_peer_event e IceGatheringComplete = modifyE (buffer_ice ice_gathering_complete)"

declare handle_peer_event.simps [simp del]

end
