(* ===== verification/Reactor_Steps.thy ===== *)
theory Reactor_Steps
  imports Reactor_Frames
begin

text \<open>
  The reactor as a transition system. \<open>atomic\<close> is one of the sections its operations run between two
  awaits, for any task at any time, so a run of it is an interleaving of any number of tasks. An
  operation is such a run when the host's awaited calls are, which is what \<open>rely\<close> says: while a task is
  suspended the only changes are those of other tasks.
\<close>

section \<open>Sections\<close>

fun is_status_event :: "ReactorEvent \<Rightarrow> bool" where
  "is_status_event (StatusChanged _) = True"
| "is_status_event _ = False"

text \<open>Updates of \<^verbatim>\<open>State\<close> that touch no field the readiness gate, the status or the session depend on.\<close>

inductive quiet :: "(State \<Rightarrow> State) \<Rightarrow> bool" where
  quiet_mapping: "quiet (\<lambda>s. s\<lparr>s_track_mapping := mapping\<rparr>)"
| quiet_connection: "quiet (\<lambda>s. s\<lparr>s_connection_id := Some cid, s_ice_ready := True\<rparr>)"
| quiet_reassign: "quiet (\<lambda>s. s\<lparr>s_connection_id := Some cid\<rparr>)"
| quiet_pause: "quiet (\<lambda>s. s\<lparr>s_paused_tracks := insert name (s_paused_tracks s)\<rparr>)"
| quiet_resume: "quiet (\<lambda>s. s\<lparr>s_paused_tracks := s_paused_tracks s - {name}\<rparr>)"
| quiet_reason: "quiet (\<lambda>s. s\<lparr>s_teardown_reason := Some st\<rparr>)"

text \<open>Changes beside the session: the engine, the clock, buffered frames, timings, the local runtime's cache.\<close>

definition beside :: "'w reactor \<Rightarrow> 'w reactor \<Rightarrow> bool" where
  "beside r r' \<longleftrightarrow> r_state r' = r_state r \<and> r_control r' = r_control r \<and> r_control_sent r' = r_control_sent r
     \<and> r_data r' = r_data r \<and> r_data_sent r' = r_data_sent r \<and> r_next_channel r' = r_next_channel r
     \<and> r_gates_fired r' = r_gates_fired r \<and> r_events r' = r_events r"

inductive atomic :: "'w env \<Rightarrow> 'w reactor \<Rightarrow> 'w reactor \<Rightarrow> bool" for e :: "'w env" where
  a_quiet: "quiet f \<Longrightarrow> atomic e r (lock f r)"
| a_connect: "atomic e r (begin_connection (lock (connect_begin now opts) r))"
| a_reconnect: "atomic e r (begin_connection (lock (reconnect_begin now attempts) r))"
| a_adopt: "atomic e r (lock (\<lambda>s. s\<lparr>s_session_id := Some sid, s_created_session := False\<rparr>) r)"
| a_create: "atomic e r (lock (\<lambda>s. s\<lparr>s_session_id := Some (session_id created), s_created_session := True,
    s_session_info := Some created\<rparr>) r)"
| a_accept: "atomic e r (accept_session session caps r)"
| a_status: "atomic e r (set_status e st r)"
| a_event: "\<not> is_status_event ev \<Longrightarrow> atomic e r (emit ev r)"
| a_error: "atomic e r (emit_error e det r)"
| a_teardown: "atomic e r (lock teardown_begin r)"
| a_clear: "atomic e r (teardown_clear e keep failing r)"
| a_gate: "atomic e r (open_gate r)"
| a_peer: "atomic e r (check_ready_locked (lock (\<lambda>s. s\<lparr>s_peer_connected := True\<rparr>) r))"
| a_data: "atomic e r (check_ready_locked (lock (\<lambda>s. s\<lparr>s_data_open := True\<rparr>) r))"
| a_control: "atomic e r (check_ready_locked (lock (\<lambda>s. s\<lparr>s_control_open := True\<rparr>) r))"
| a_candidate: "atomic e r (buffer_ice (ice_candidate cand) r)"
| a_gathered: "atomic e r (buffer_ice ice_gathering_complete r)"
| a_flush: "atomic e r (lock (\<lambda>_. snd (flush_batch (r_state r))) r)"
| a_control_op: "ctl_step (e_wire e) (e_control_order e) (r_control r) op = (sent, c) \<Longrightarrow>
    set (ctl_opened op) \<subseteq> {r_next_channel r} \<Longrightarrow>
    atomic e r (r\<lparr>r_control := c, r_control_sent := r_control_sent r @ sent,
      r_next_channel := r_next_channel r + length (ctl_opened op)\<rparr>)"
| a_data_op: "dat_step (e_wire e) (\<lambda>ch. ch \<notin> set (r_dropped r)) (e_data_order e) (r_data r) op = (sent, c) \<Longrightarrow>
    set (dat_opened op) \<subseteq> {r_next_channel r} \<Longrightarrow>
    atomic e r (r\<lparr>r_data := c, r_data_sent := r_data_sent r @ sent,
      r_next_channel := r_next_channel r + length (dat_opened op)\<rparr>)"
| a_beside: "beside r r' \<Longrightarrow> atomic e r r'"

definition trace :: "'w env \<Rightarrow> 'w reactor \<Rightarrow> 'w reactor \<Rightarrow> bool" where
  "trace e = rtranclp (atomic e)"

definition rely :: "'w env \<Rightarrow> bool" where
  "rely e \<longleftrightarrow>
     (\<forall>q r. trace e r (snd (http_request (e_host e) q r)))
   \<and> (\<forall>q r. trace e r (snd (auth_jwt (e_host e) q r)))
   \<and> (\<forall>d r. trace e r (sleep (e_host e) d r))
   \<and> (\<forall>s t r. trace e r (snd (peer_prepare (e_peer e) s t r)))
   \<and> (\<forall>a r. trace e r (snd (peer_set_remote_description (e_peer e) a r)))
   \<and> (\<forall>n b r. trace e r (snd (peer_set_track_direction (e_peer e) n b r)))
   \<and> (\<forall>a b c r. trace e r (snd (peer_set_bitrate (e_peer e) a b c r)))
   \<and> (\<forall>n a b r. trace e r (snd (peer_set_track_bitrate (e_peer e) n a b r)))
   \<and> (\<forall>r. trace e r (snd (peer_get_stats (e_peer e) r)))
   \<and> (\<forall>r. trace e r (snd (peer_close (e_peer e) r)))
   \<and> (\<forall>d r. trace e r (race_sleep (e_peer e) d r))"

lemma trace_refl [simp, intro]: "trace e r r"
  by (simp add: trace_def)

lemma trace_trans: "trace e r0 r \<Longrightarrow> trace e r r' \<Longrightarrow> trace e r0 r'"
  unfolding trace_def by (rule rtranclp_trans)

lemma trace_step: "trace e r0 r \<Longrightarrow> atomic e r r' \<Longrightarrow> trace e r0 r'"
  unfolding trace_def by (rule rtranclp.rtrancl_into_rtrancl)

lemma trace_atomic: "atomic e r r' \<Longrightarrow> trace e r r'"
  by (rule trace_step [OF trace_refl])

section \<open>Operations are runs\<close>

abbreviation runs :: "'w env \<Rightarrow> ('w reactor, 'a) io \<Rightarrow> bool" where
  "runs e m \<equiv> \<forall>r0. preserves m (trace e r0)"

lemma runs_iff: "runs e m \<longleftrightarrow> (\<forall>r. trace e r (snd (m r)))"
  by (auto simp: preserves_def intro: trace_trans)

lemma runs_modify: "(\<And>r. trace e r (f r)) \<Longrightarrow> preserves (modifyE f) (trace e r0)"
  by (auto simp: preserves_def modifyE_def intro: trace_trans)

lemma runs_step: "(\<And>r. trace e r (snd (m r))) \<Longrightarrow> preserves m (trace e r0)"
  by (auto simp: preserves_def intro: trace_trans)

lemma rely_calls [inv_intros]:
  assumes "rely e"
  shows "preserves (http_request (e_host e) q) (trace e r0)"
    and "preserves (auth_jwt (e_host e) a) (trace e r0)"
    and "preserves (modifyE (sleep (e_host e) d)) (trace e r0)"
    and "preserves (peer_prepare (e_peer e) s t) (trace e r0)"
    and "preserves (peer_set_remote_description (e_peer e) answer) (trace e r0)"
    and "preserves (peer_set_track_direction (e_peer e) n b) (trace e r0)"
    and "preserves (peer_set_bitrate (e_peer e) lo start hi) (trace e r0)"
    and "preserves (peer_set_track_bitrate (e_peer e) n lo hi) (trace e r0)"
    and "preserves (peer_get_stats (e_peer e)) (trace e r0)"
    and "preserves (peer_close (e_peer e)) (trace e r0)"
    and "preserves (timeout_rx (e_peer e) d what rx) (trace e r0)"
  using assms unfolding rely_def
  by (auto intro!: runs_step runs_modify simp: timeout_rx_def Let_def)

lemma worldE_snd: "snd (worldE f r) = r\<lparr>r_world := snd (f (r_world r))\<rparr>"
  by (simp add: worldE_def split: prod.split)

lemma trace_beside: "beside r r' \<Longrightarrow> trace e r r'"
  by (intro trace_atomic a_beside)

lemma runs_beside: "(\<And>r. beside r (f r)) \<Longrightarrow> preserves (modifyE f) (trace e r0)"
  by (intro runs_modify trace_beside)

lemma runs_worldE [inv_intros]: "preserves (worldE f) (trace e r0)"
  by (rule runs_step) (simp add: worldE_snd trace_beside beside_def)

lemma runs_world_resultE [inv_intros]: "preserves (world_resultE f) (trace e r0)"
  unfolding world_resultE_def by (intro inv_intros)

lemma runs_sections [inv_intros]:
  "preserves (modifyE (begin_connection \<circ> lock (connect_begin now opts))) (trace e r0)"
  "preserves (modifyE (begin_connection \<circ> lock (reconnect_begin now attempts))) (trace e r0)"
  "preserves (lockE (\<lambda>s. s\<lparr>s_session_id := Some sid, s_created_session := False\<rparr>)) (trace e r0)"
  "preserves (lockE (\<lambda>s. s\<lparr>s_session_id := Some (session_id created), s_created_session := True,
     s_session_info := Some created\<rparr>)) (trace e r0)"
  "preserves (modifyE (accept_session session caps)) (trace e r0)"
  "preserves (modifyE (set_status e st)) (trace e r0)"
  "preserves (modifyE (emit_error e det)) (trace e r0)"
  "preserves (lockE teardown_begin) (trace e r0)"
  "preserves (modifyE (teardown_clear e keep failing)) (trace e r0)"
  "preserves (modifyE open_gate) (trace e r0)"
  "preserves (modifyE (\<lambda>r. check_ready_locked (lock (\<lambda>s. s\<lparr>s_peer_connected := True\<rparr>) r))) (trace e r0)"
  "preserves (modifyE (\<lambda>r. check_ready_locked (lock (\<lambda>s. s\<lparr>s_data_open := True\<rparr>) r))) (trace e r0)"
  "preserves (modifyE (\<lambda>r. check_ready_locked (lock (\<lambda>s. s\<lparr>s_control_open := True\<rparr>) r))) (trace e r0)"
  "preserves (modifyE (buffer_ice (ice_candidate cand))) (trace e r0)"
  "preserves (modifyE (buffer_ice ice_gathering_complete)) (trace e r0)"
  by (auto intro!: runs_modify trace_atomic intro: atomic.intros)

lemma runs_quiet: "quiet f \<Longrightarrow> preserves (lockE f) (trace e r0)"
  by (intro runs_modify trace_atomic a_quiet)

lemmas runs_quiet_sections [inv_intros] =
  runs_quiet [OF quiet_mapping] runs_quiet [OF quiet_connection] runs_quiet [OF quiet_reassign]
  runs_quiet [OF quiet_pause] runs_quiet [OF quiet_resume] runs_quiet [OF quiet_reason]

lemma runs_event [inv_intros]:
  "preserves (dispatchE (SessionIdChanged sid)) (trace e r0)"
  "preserves (dispatchE (Message msg)) (trace e r0)"
  "preserves (dispatchE (RuntimeMessage msg)) (trace e r0)"
  "preserves (dispatchE (TrackReceived name mid)) (trace e r0)"
  by (auto intro!: runs_modify trace_atomic a_event)

lemma trace_ctl:
  "ctl_step (e_wire e) (e_control_order e) (r_control r) op = (sent, c) \<Longrightarrow> set (ctl_opened op) \<subseteq> {r_next_channel r}
   \<Longrightarrow> trace e r (r\<lparr>r_control := c, r_control_sent := r_control_sent r @ sent,
        r_next_channel := r_next_channel r + length (ctl_opened op)\<rparr>)"
  by (intro trace_atomic a_control_op)

lemma trace_dat:
  "dat_step (e_wire e) (\<lambda>ch. ch \<notin> set (r_dropped r)) (e_data_order e) (r_data r) op = (sent, c) \<Longrightarrow>
   set (dat_opened op) \<subseteq> {r_next_channel r}
   \<Longrightarrow> trace e r (r\<lparr>r_data := c, r_data_sent := r_data_sent r @ sent,
        r_next_channel := r_next_channel r + length (dat_opened op)\<rparr>)"
  by (intro trace_atomic a_data_op)

lemma runs_correlator_ops [inv_intros]:
  "preserves (control_open_request e cp) (trace e r0)"
  "preserves (modifyE (forget_control rid)) (trace e r0)"
  "preserves (receive_control e raw) (trace e r0)"
  "preserves (data_open_request e dp) (trace e r0)"
  "preserves (modifyE (forget_data rid)) (trace e r0)"
  "preserves (take_arrivalE rid) (trace e r0)"
proof -
  have "trace e r (snd (control_open_request e cp r))" for r
    using trace_ctl [of e r "Ctl_Begin cp (r_next_channel r)" "[]"] by (simp add: control_open_request_def case_prod_unfold)
  moreover have "trace e r (forget_control rid r)" for r
    using trace_ctl [of e r "Ctl_Cancel rid" "[]"] by (simp add: forget_control_def)
  moreover have "trace e r (snd (receive_control e raw r))" for r
    using trace_ctl [of e r "Ctl_Handle raw"] by (simp add: receive_control_def case_prod_unfold)
  moreover have "trace e r (snd (data_open_request e dp r))" for r
    using trace_dat [of e r "Dat_Begin dp (r_next_channel r)" "[]"] by (simp add: data_open_request_def case_prod_unfold)
  moreover have "trace e r (forget_data rid r)" for r
    using trace_dat [of e r "Dat_Cancel rid" "[]"] by (simp add: forget_data_def)
  moreover have "trace e r (snd (take_arrivalE rid r))" for r
    using trace_dat [of e r "Dat_TakeArrival rid" "[]"] by (simp add: take_arrivalE_def case_prod_unfold)
  ultimately show "preserves (control_open_request e cp) (trace e r0)" "preserves (modifyE (forget_control rid)) (trace e r0)"
    "preserves (receive_control e raw) (trace e r0)" "preserves (data_open_request e dp) (trace e r0)"
    "preserves (modifyE (forget_data rid)) (trace e r0)" "preserves (take_arrivalE rid) (trace e r0)"
    by (auto intro!: runs_step runs_modify)
qed

end
