(* ===== verification/Reactor_Runs.thy ===== *)
theory Reactor_Runs
  imports Reactor_Steps
begin

text \<open>
  Every operation of the reactor is a run of its atomic sections, when the host's awaited calls are.
\<close>

section \<open>Requests to the coordinator\<close>

lemma runs_send_request [inv_intros]:
  "rely e \<Longrightarrow> preserves hs (trace e r0) \<Longrightarrow> preserves (send_request (e_host e) m u hs b) (trace e r0)"
  unfolding send_request_def by (intro inv_intros)

lemma runs_headers [inv_intros]:
  assumes "rely e"
  shows "preserves (auth_headers (e_host e) a) (trace e r0)"
    and "preserves (coord_headers (e_host e) j sid) (trace e r0)"
    and "preserves (sg_headers (e_host e) g j) (trace e r0)"
  unfolding coord_headers_def sg_headers_def auth_headers_def by (intro inv_intros assms)+

lemma runs_cache [inv_intros]: "preserves (modifyE (\<lambda>r. r\<lparr>local_session := x\<rparr>)) (trace e r0)"
  by (intro runs_beside) (simp add: beside_def)

lemma runs_poll_session_loop:
  "rely e \<Longrightarrow> preserves (poll_session_loop (e_host e) c cfg sid n b) (trace e r0)"
  by (induction n arbitrary: b) (auto simp: get_session_def intro!: inv_intros)

lemma runs_poll_sdp_loop:
  "rely e \<Longrightarrow> preserves (poll_sdp_loop (e_host e) c g cid n b) (trace e r0)"
  by (induction n arbitrary: b) (auto intro!: inv_intros)

lemma runs_coordinator [inv_intros]:
  assumes "rely e"
  shows "preserves (create_session (e_host e) c cfg) (trace e r0)"
    and "preserves (poll_session_ready (e_host e) c cfg sid) (trace e r0)"
    and "preserves (terminate_session (e_host e) cfg sid) (trace e r0)"
    and "preserves (create_upload (e_host e) c cfg sid upload) (trace e r0)"
    and "preserves (ice_servers (e_host e) c g) (trace e r0)"
    and "preserves (register_connection (e_host e) c g) (trace e r0)"
    and "preserves (send_sdp_offer (e_host e) c g cid offer mapping again) (trace e r0)"
    and "preserves (poll_sdp_answer (e_host e) c g cid) (trace e r0)"
    and "preserves (send_ice_candidates (e_host e) c g cid cands final) (trace e r0)"
  using assms
  unfolding create_session_def local_start_session_def poll_session_ready_def local_get_session_def
    terminate_session_def create_upload_def ice_servers_def register_connection_def send_sdp_offer_def
    poll_sdp_answer_def send_ice_candidates_def
  by (auto intro!: inv_intros runs_poll_session_loop runs_poll_sdp_loop)

section \<open>Control requests\<close>

lemma runs_notification [inv_intros]: "preserves (notificationE e payload) (trace e r0)"
  unfolding notificationE_def by (intro inv_intros)

lemma runs_ensure_ready [inv_intros]: "preserves ensure_ready (trace e r0)"
  unfolding ensure_ready_def by (intro inv_intros)

lemma runs_control_request [inv_intros]: "rely e \<Longrightarrow> preserves (control_request e method payload d) (trace e r0)"
  unfolding control_request_def by (intro inv_intros)

lemma runs_resume [inv_intros]: "rely e \<Longrightarrow> preserves (resume_track e name) (trace e r0)"
  unfolding resume_track_def by (intro inv_intros)

lemma runs_auto_resume [inv_intros]: "rely e \<Longrightarrow> preserves (auto_resume_recv_tracks e) (trace e r0)"
proof -
  assume "rely e"
  then have "preserves (resume_all e names) (trace e r0)" for names
    by (induction names) (auto intro!: inv_intros)
  then show ?thesis unfolding auto_resume_recv_tracks_def by (intro inv_intros)
qed

lemma runs_control_ops:
  assumes "rely e"
  shows "preserves (ping e) (trace e r0)"
    and "preserves (client_stats e ts cs) (trace e r0)"
    and "preserves (request_schema e) (trace e r0)"
    and "preserves (publish_track e name) (trace e r0)"
    and "preserves (unpublish_track e name) (trace e r0)"
    and "preserves (pause_track e name) (trace e r0)"
    and "preserves (request_clip e secs) (trace e r0)"
    and "preserves (request_recording e) (trace e r0)"
    and "preserves (upload_file e name mime content) (trace e r0)"
    and "preserves (set_bitrate e lo start hi) (trace e r0)"
    and "preserves (set_track_bitrate e name lo hi) (trace e r0)"
  using assms
  unfolding ping_def client_stats_def request_schema_def publish_track_def unpublish_track_def pause_track_def
    request_clip_def request_recording_def dispatch_clip_request_def upload_file_def set_bitrate_def set_track_bitrate_def
  by (auto intro!: inv_intros split: ControlServerPayload.split CoreError.split)

section \<open>Candidates and teardown\<close>

lemma runs_flush_ice [inv_intros]: "rely e \<Longrightarrow> preserves (flush_ice e g) (trace e r0)"
proof -
  assume e: "rely e"
  have lock: "trace e r (snd (bindE (readE flush_batch) (\<lambda>(batch, s'). bindE (lockE (\<lambda>_. s')) (\<lambda>_. retE batch)) r))" for r
    using trace_atomic [OF a_flush, of e r]
    by (simp add: bindE_def getE_def modifyE_def retE_def case_prod_unfold)
  have split: "flush_ice e g =
      bindE (bindE (readE flush_batch) (\<lambda>(batch, s'). bindE (lockE (\<lambda>_. s')) (\<lambda>_. retE batch)))
        (\<lambda>batch. case batch of None \<Rightarrow> retE () | Some (cands, final, cid) \<Rightarrow>
           bindE (attemptE (send_ice_candidates (e_host e) (e_codec e) g cid cands final)) (\<lambda>_. retE ()))"
    by (auto simp: flush_ice_def bindE_def getE_def modifyE_def retE_def fun_eq_iff case_prod_unfold)
  show ?thesis unfolding split using e by (intro preserves_bindE runs_step [OF lock]) (intro inv_intros)
qed

lemma runs_fail_pending [inv_intros]: "preserves (modifyE (fail_pending e reason)) (trace e r0)"
proof (rule runs_modify)
  fix r :: "'a reactor"
  obtain cs c where c: "control_fail_all (e_control_order e) reason (r_control r) = (cs, c)" by fastforce
  obtain ds d where d: "data_fail_all (e_data_order e) reason (r_data r) = (ds, d)" by fastforce
  let ?r = "r\<lparr>r_control := c, r_control_sent := r_control_sent r @ cs\<rparr>"
  have "trace e r ?r" using trace_ctl [of e r "Ctl_FailAll reason" cs c] c by simp
  moreover have "trace e ?r (?r\<lparr>r_data := d, r_data_sent := r_data_sent ?r @ ds\<rparr>)"
    using trace_dat [of e ?r "Dat_FailAll reason" ds d] d by simp
  ultimately show "trace e r (fail_pending e reason r)"
    using c d by (auto simp: fail_pending_def intro: trace_trans)
qed

lemma runs_teardown [inv_intros]: "rely e \<Longrightarrow> preserves (teardown e keep failing) (trace e r0)"
  unfolding teardown_def teardown_session_def
  by (intro inv_intros runs_beside) (simp_all add: beside_def)

lemma runs_transport [inv_intros]:
  assumes "rely e"
  shows "preserves (await_gate e gate) (trace e r0)"
    and "preserves (finish_transport e sid again adopt prepared) (trace e r0)"
    and "preserves (establish_transport e sid again adopt) (trace e r0)"
    and "preserves (finish_connect e) (trace e r0)"
  using assms
  unfolding await_gate_def finish_transport_def negotiate_def establish_transport_def choose_connection_def finish_connect_def
  by (auto intro!: inv_intros)

lemma runs_on_failure [inv_intros]:
  "rely e \<Longrightarrow> preserves m (trace e r0) \<Longrightarrow> preserves (on_failure e operation keep m) (trace e r0)"
  unfolding on_failure_def by (intro inv_intros)

lemma runs_lifecycle:
  assumes "rely e"
  shows "preserves (connect e opts) (trace e r0)"
    and "preserves (reconnect e attempts) (trace e r0)"
    and "preserves (disconnect e keep) (trace e r0)"
  using assms
  unfolding connect_def connect_inner_def session_for_connect_def connect_preset_def prepare_preset_def
    connect_sequential_def reconnect_def disconnect_def
  by (auto intro!: inv_intros)

section \<open>Commands, steps and frames\<close>

lemma runs_message_time [inv_intros]: "preserves (message_timeE gen stage ms) (trace e r0)"
  unfolding message_timeE_def by (intro runs_beside) (simp add: beside_def)

lemma runs_message_times [inv_intros]: "preserves (message_timesE gen stages) (trace e r0)"
  by (induction stages) (auto intro!: inv_intros)

lemma runs_forgetting [inv_intros]: "preserves m (trace e r0) \<Longrightarrow> preserves (forgetting rid m) (trace e r0)"
  using runs_correlator_ops(5) [of rid e r0]
  by (simp add: preserves_def forgetting_def modifyE_def case_prod_unfold)

lemma runs_send_pending [inv_intros]: "preserves (send_pending e operation pending) (trace e r0)"
  unfolding send_pending_def by (auto intro!: inv_intros split: CoreError.split)

lemma runs_await_data [inv_intros]: "rely e \<Longrightarrow> preserves (await_data_response e label pending d) (trace e r0)"
  unfolding await_data_response_def by (intro inv_intros)

lemma runs_data_request [inv_intros]: "rely e \<Longrightarrow> preserves (data_request e operation label payload d timing) (trace e r0)"
  unfolding data_request_def by (intro inv_intros)

lemma runs_build_step [inv_intros]: "preserves (build_step e state cmds) (trace e r0)"
  unfolding build_step_def by (intro inv_intros)

lemma runs_take_inputs [inv_intros]: "preserves (take_step_inputs e) (trace e r0)"
  by (rule runs_step, rule trace_beside)
    (simp add: take_step_inputs_def liftE_def retE_def failE_def beside_def case_prod_unfold split: sum.split)

lemma runs_messaging:
  assumes "rely e"
  shows "preserves (send_command_from e command data uploads entry) (trace e r0)"
    and "preserves (begin_step e state cmds) (trace e r0)"
    and "preserves (send_step e request) (trace e r0)"
    and "preserves (step e state cmds) (trace e r0)"
    and "preserves clear_step_inputs (trace e r0)"
proof -
  show "preserves (send_command_from e command data uploads entry) (trace e r0)"
    using assms unfolding send_command_from_def by (intro inv_intros)
  show started: "preserves (begin_step e state cmds) (trace e r0)"
    unfolding begin_step_def by (intro inv_intros)
  show send: "preserves (send_step e request) (trace e r0)" for request
    using assms unfolding send_step_def by (auto intro!: inv_intros split: CoreError.split)
  show "preserves (step e state cmds) (trace e r0)"
    unfolding step_def by (intro inv_intros started send)
  show "preserves clear_step_inputs (trace e r0)"
    unfolding clear_step_inputs_def by (intro runs_beside) (simp add: beside_def)
qed

lemma runs_push_input [inv_intros]: "preserves (push_inputE e name kind frame) (trace e r0)"
  by (rule runs_step, rule trace_beside)
    (simp add: push_inputE_def retE_def panicE_def beside_def split: option.split)

lemma runs_push_peer [inv_intros]: "preserves (push_peerE f) (trace e r0)"
  unfolding push_peerE_def by (intro runs_beside) (simp add: beside_def)

lemma runs_submitted [inv_intros]: "preserves (submitted e name started) (trace e r0)"
  unfolding submitted_def by (intro inv_intros runs_beside) (simp add: beside_def)

lemma runs_push_timed [inv_intros]: "preserves (push_timed e name f) (trace e r0)"
  unfolding push_timed_def submit_started_def by (intro inv_intros)

lemma runs_pushes:
  "preserves (push_video_frame e name data width height) (trace e r0)"
  "preserves (push_video_frame_with_metadata e name data width height user_data) (trace e r0)"
  "preserves (push_video_frame_with_metadata_at e name data width height user_data stamp) (trace e r0)"
  "preserves (push_video_frame_timed e name data width height user_data stamp' binding gen) (trace e r0)"
  "preserves (push_audio_frame e name pcm rate channels) (trace e r0)"
  "preserves (push_step_video_frame e name data width height layout metadata stamp') (trace e r0)"
  "preserves (push_step_encoded_video_frame e name encoding data width height metadata stamp') (trace e r0)"
  unfolding push_video_frame_def push_video_frame_with_metadata_def push_video_frame_with_metadata_at_def
    push_video_frame_timed_def push_audio_frame_def push_step_video_frame_def push_step_encoded_video_frame_def
    buffer_video_frame_def
  by (intro inv_intros)+

section \<open>Engine events\<close>

lemma runs_receive_data [inv_intros]: "preserves (receive_data e raw) (trace e r0)"
proof -
  have deliver: "trace e r (snd (case data_handle_message_at (e_wire e) (\<lambda>ch. ch \<notin> set (r_dropped r)) raw clock (r_data r) of
      (handled, sent, c) \<Rightarrow> (Inr handled, r\<lparr>r_data := c, r_data_sent := r_data_sent r @ sent\<rparr>)))" for r clock
    using trace_dat [of e r "Dat_Handle raw clock"] by (simp add: case_prod_unfold)
  show ?thesis unfolding receive_data_def by (intro inv_intros runs_step deliver)
qed

lemma runs_peer_event:
  assumes "rely e" shows "preserves (handle_peer_event e ev) (trace e r0)"
  using assms
  by (cases ev) (auto simp: handle_peer_event.simps on_peer_connection_state_def on_data_message_def
      on_control_message_def dispatch_runtime_message_def intro!: inv_intros
      split: DataServerPayload.split ControlServerPayload.split)

lemma runs_ice_flush_pass: "rely e \<Longrightarrow> preserves (run_ice_flush_pass e) (trace e r0)"
  unfolding run_ice_flush_pass_def flush_ice_current_session_def
  by (intro inv_intros runs_beside) (simp_all add: beside_def)

lemma heartbeat_loop_runs:
  assumes "rely e" and "heartbeat_loop e epoch r = Some r'"
  shows "trace e r r'"
proof -
  have pass: "trace e r (heartbeat_pass e r)" for r
  proof -
    have "trace e r (snd (attemptE (ping e) r))"
      using preserves_attemptE [OF runs_control_ops(1) [OF assms(1), of r]] by (simp add: preserves_def)
    moreover have "trace e s (sleep (e_host e) d s)" for s d using assms(1) by (simp add: rely_def)
    ultimately show ?thesis unfolding heartbeat_pass_def by (blast intro: trace_trans)
  qed
  have "e = e \<longrightarrow> trace e r r'"
  proof (rule heartbeat_loop.raw_induct [where P = "\<lambda>e' ep r r'. e' = e \<longrightarrow> trace e r r'", OF _ assms(2)])
    fix loop e' ep r r'
    assume "\<And>e' ep r r'. loop e' ep r = Some r' \<Longrightarrow> e' = e \<longrightarrow> trace e r r'"
      and "(if \<not> heartbeat_current ep (r_state r) then Some r else loop e' ep (heartbeat_pass e' r)) = Some r'"
    then show "e' = e \<longrightarrow> trace e r r'" by (auto split: if_splits intro: trace_trans pass)
  qed
  then show ?thesis by simp
qed

end
