(* ===== verification/Reactor_Sample.thy ===== *)
theory Reactor_Sample
  imports Reactor_Runs
begin

text \<open>
  A host for which the hypotheses on the platform hold: every request succeeds with an empty body, the
  codecs read a ready session and an answer from it, and while a task waits the peer connects and both
  channels open. It shows that the hypotheses can hold and runs a connection to the end.
\<close>

definition peer_up :: "'w reactor \<Rightarrow> 'w reactor" where
  "peer_up r = check_ready_locked (lock (\<lambda>s. s\<lparr>s_control_open := True\<rparr>)
     (check_ready_locked (lock (\<lambda>s. s\<lparr>s_data_open := True\<rparr>)
     (check_ready_locked (lock (\<lambda>s. s\<lparr>s_peer_connected := True\<rparr>) r)))))"

definition quick_host :: "'w reactor host" where
  "quick_host = \<lparr> http_request = (\<lambda>_ r. (Inr \<lparr> resp_status = 200, resp_headers = [], resp_body = [] \<rparr>, r)),
     auth_jwt = (\<lambda>_ r. (Inr None, r)), sleep = (\<lambda>_ r. r), now_ms = (\<lambda>_. Fin 0) \<rparr>"

text \<open>The engine's own state counts the messages it was given.\<close>

definition quick_peer :: "(nat reactor, nat) transport" where
  "quick_peer = \<lparr>
     peer_prepare = (\<lambda>_ _ r. (Inr \<lparr> po_sdp_offer = ''offer'', po_track_mapping = [] \<rparr>, r)),
     peer_set_remote_description = (\<lambda>_ r. (Inr (), r)),
     peer_set_track_direction = (\<lambda>_ _ r. (Inr (), r)),
     peer_set_bitrate = (\<lambda>_ _ _ r. (Inr (), r)),
     peer_set_track_bitrate = (\<lambda>_ _ _ r. (Inr (), r)),
     peer_get_stats = (\<lambda>r. (Inl (Fail (Peer ''none'')), r)),
     peer_close = (\<lambda>r. (Inr (), r)),
     race_sleep = (\<lambda>_ r. peer_up r),
     peer_send_data = (\<lambda>_ _ w. (Inr (), Suc w)),
     peer_send_control = (\<lambda>_ w. (Inr (), Suc w)),
     peer_max_message_bytes = (\<lambda>_. 10),
     peer_data_channel_chunked = (\<lambda>_. True),
     peer_push_video_frame = (\<lambda>_ _ _ _ w. Suc w),
     peer_push_video_frame_with_metadata = (\<lambda>_ _ _ _ _ w. Suc w),
     peer_push_video_frame_with_metadata_at = (\<lambda>_ _ _ _ _ _ w. Suc w),
     peer_push_audio_frame = (\<lambda>_ _ _ _ w. Suc w),
     monotonic_ms = (\<lambda>w. (Fin 0, w)),
     platform_info = \<lparr> pi_os = [], pi_os_version = [], pi_arch = [], pi_device_model = [] \<rparr> \<rparr>"

definition ready_session :: SessionResponse where
  "ready_session = \<lparr> session_id = ''s1'', session_state = Active, model = None, cluster = None, server_info = None,
     selected_transport = Some \<lparr> td_protocol = ''webrtc'', td_version = ''1.0'' \<rparr>,
     capabilities = Some \<lparr> protocol_version = ''1'', tracks = [], commands = None, emission_fps = None \<rparr>,
     ended = None, extra = [] \<rparr>"

definition quick_codec :: codec where
  "quick_codec = \<lparr> enc_json = (\<lambda>_. []), enc_create_session = (\<lambda>_. []), dec_session = (\<lambda>_. Inr ready_session),
     enc_create_upload = (\<lambda>_. []), dec_create_upload = (\<lambda>_. Inl []), dec_ice_servers = (\<lambda>_. Inr []),
     dec_register = (\<lambda>_. Inr 1000), enc_sdp_offer = (\<lambda>_. []),
     dec_sdp_answer = (\<lambda>_. Inr \<lparr> sdp_answer = ''answer'', sar_connection_id = None \<rparr>),
     enc_ice_candidates = (\<lambda>_. []), dec_token = (\<lambda>_. Inl []) \<rparr>"

definition quick_env :: "GenerationMode \<Rightarrow> nat env" where
  "quick_env mode = Reactor_env \<lparr> e_host = quick_host, e_peer = quick_peer, e_codec = quick_codec, e_wire = sample_wire,
     e_show_tracks = (\<lambda>_. []), e_debug_payload = (\<lambda>_. []), e_debug_str = (\<lambda>x. x),
     e_control_order = in_order, e_data_order = in_order,
     e_options = (ReactorOptions_new ''0'' ''http://host'' ''m'')\<lparr>opt_generation := mode\<rparr>,
     e_coordinator = coordinator_config (ReactorOptions_new ''0'' ''http://host'' ''m''), e_frame_decoders = [] \<rparr>"

definition quick_reactor :: "nat reactor" where
  "quick_reactor = (Reactor_new (ReactorOptions_new ''0'' ''http://host'' ''m'') 0)\<lparr>
     r_state := State_default\<lparr>s_sdp_max_attempts := 1\<rparr>\<rparr>"

lemmas io_eval = bindE_def retE_def failE_def getE_def modifyE_def liftE_def attemptE_def whenE_def panicE_def
  worldE_def world_resultE_def Let_def

lemma trace_peer_up: "trace e r (peer_up r)"
  unfolding peer_up_def
  by (intro trace_step [OF _ a_control] trace_step [OF _ a_data] trace_step [OF _ a_peer] trace_refl)

lemma quick_env_simps [simp]:
  "e_host (quick_env m) = quick_host" "e_peer (quick_env m) = quick_peer" "e_codec (quick_env m) = quick_codec"
  "e_wire (quick_env m) = sample_wire"
  "e_options (quick_env m) = (ReactorOptions_new ''0'' ''http://host'' ''m'')\<lparr>opt_generation := m\<rparr>"
  "is_stepped (quick_env m) \<longleftrightarrow> m = Stepped"
  by (simp_all add: quick_env_def Reactor_env_def is_stepped_def)

lemma rely_quick: "rely (quick_env m)"
  by (simp add: rely_def quick_host_def quick_peer_def trace_peer_up)

text \<open>The same with the network down.\<close>

definition down_host :: "'w reactor host" where
  "down_host = quick_host\<lparr>http_request := (\<lambda>_ r. (Inl (Fail (Http ''down'')), r))\<rparr>"

definition down_env :: "nat env" where
  "down_env = (quick_env Streamed)\<lparr>e_host := down_host\<rparr>"

lemma down_env_simps [simp]:
  "e_host down_env = down_host" "e_peer down_env = quick_peer" "e_codec down_env = quick_codec"
  "e_options down_env = e_options (quick_env Streamed)"
  "e_coordinator down_env = coordinator_config (ReactorOptions_new ''0'' ''http://host'' ''m'')"
  by (simp_all add: down_env_def quick_env_def Reactor_env_def ReactorOptions_new_def)

lemma rely_down: "rely down_env"
  by (simp add: rely_def down_host_def quick_host_def quick_peer_def trace_peer_up)

text \<open>The same, counting its requests.\<close>

definition tally_env :: "nat env" where
  "tally_env = (quick_env Streamed)\<lparr>e_host := quick_host\<lparr>http_request :=
     (\<lambda>_ r. (Inr \<lparr> resp_status = 200, resp_headers = [], resp_body = [] \<rparr>, r\<lparr>r_world := Suc (r_world r)\<rparr>))\<rparr>\<rparr>"

end
