(* ===== verification/Reactor_Invariant.thy ===== *)
theory Reactor_Invariant
  imports Reactor_Sample
begin

text \<open>
  Invariants of the reactor, for every interleaving of its atomic sections, and the properties of the
  readiness gate and of the trickled candidates that rest on them.
\<close>

section \<open>The invariant\<close>

definition event_status :: "ReactorEvent \<Rightarrow> ReactorStatus \<Rightarrow> ReactorStatus" where
  "event_status ev st = (case ev of StatusChanged st' \<Rightarrow> st' | _ \<Rightarrow> st)"

text \<open>The status a subscriber knows from the events it was sent.\<close>

definition reported_status :: "ReactorEvent list \<Rightarrow> ReactorStatus" where
  "reported_status evs = fold event_status evs Disconnected_s"

definition transport_up :: "State \<Rightarrow> bool" where
  "transport_up s \<longleftrightarrow> s_peer_connected s \<and> s_data_open s \<and> s_control_open s"

definition status_inv :: "'w reactor \<Rightarrow> bool" where
  "status_inv r \<longleftrightarrow> reported_status (r_events r) = status r"

definition gate_inv :: "'w reactor \<Rightarrow> bool" where
  "gate_inv r \<longleftrightarrow>
     (case s_ready_gate (r_state r) of
        Some g \<Rightarrow> \<not> transport_up (r_state r) \<and> g < r_next_channel r \<and> g \<notin> set (r_gates_fired r)
      | None \<Rightarrow> True)
     \<and> distinct (r_gates_fired r) \<and> list_all (\<lambda>g. g < r_next_channel r) (r_gates_fired r)"

definition session_inv :: "State \<Rightarrow> bool" where
  "session_inv s \<longleftrightarrow> (s_created_session s \<longrightarrow> s_session_id s \<noteq> None)
     \<and> (s_ice_final_sent s \<longrightarrow> s_ice_gathering_complete s)"

definition channels_inv :: "'w reactor \<Rightarrow> bool" where
  "channels_inv r \<longleftrightarrow>
     (let control = map fst (r_control_sent r) @ ctl_waiting (r_control r);
          data = map fst (r_data_sent r) @ dat_waiting (r_data r)
      in distinct control \<and> distinct data \<and> list_all (\<lambda>ch. ch < r_next_channel r) (control @ data))"

definition reactor_inv :: "'w reactor \<Rightarrow> bool" where
  "reactor_inv r \<longleftrightarrow> status_inv r \<and> gate_inv r \<and> session_inv (r_state r) \<and> channels_inv r"

lemma reported_status_snoc [simp]: "reported_status (evs @ [ev]) = event_status ev (reported_status evs)"
  by (simp add: reported_status_def)

lemma event_status_simps [simp]:
  "event_status (StatusChanged st') st = st'"
  "\<not> is_status_event ev \<Longrightarrow> event_status ev st = st"
  by (cases ev; simp add: event_status_def)+

lemma event_status_others [simp]:
  "event_status (SessionIdChanged x) st = st" "event_status (ErrorEvent err) st = st"
  "event_status (CapabilitiesReceived caps) st = st"
  by (simp_all add: event_status_def)

lemmas section_defs = lock_def emit_def begin_connection_def connect_begin_def reconnect_begin_def reset_transport_def
  accept_session_def set_status_def emit_error_def teardown_begin_def teardown_clear_def teardown_reset_def
  open_gate_def check_ready_locked_def buffer_ice_def ice_candidate_def ice_gathering_complete_def
  notify_ice_flush_def flush_batch_def Let_def

lemma status_inv_step: "atomic e r r' \<Longrightarrow> status_inv r \<Longrightarrow> status_inv r'"
  by (induction rule: atomic.induct)
    (auto simp: status_inv_def section_defs beside_def elim!: quiet.cases split: option.splits)

lemma session_inv_step: "atomic e r r' \<Longrightarrow> session_inv (r_state r) \<Longrightarrow> session_inv (r_state r')"
  by (induction rule: atomic.induct)
    (auto simp: session_inv_def section_defs beside_def elim!: quiet.cases split: option.splits)

lemma gate_inv_step: "atomic e r r' \<Longrightarrow> gate_inv r \<Longrightarrow> gate_inv r'"
  by (induction rule: atomic.induct)
    (auto simp: gate_inv_def transport_up_def section_defs beside_def list_all_iff less_Suc_eq
      elim!: quiet.cases split: option.splits)

text \<open>A correlator's sends and waiting channels stay distinct and below the next channel.\<close>

lemma fresh_channel:
  assumes "distinct past" and "list_all (\<lambda>ch. ch < n) past" and "set new \<subseteq> {n::nat}" and "distinct new"
  shows "distinct (past @ new)" and "list_all (\<lambda>ch. ch < n + length new) (past @ new)"
  using assms by (auto simp: list_all_iff subset_singleton_iff trans_less_add1)

lemma distinct_opened: "distinct (ctl_opened op)" "distinct (dat_opened op')"
  by (cases op; simp) (cases op'; simp)

lemma list_all_subset: "set ys \<subseteq> set xs \<Longrightarrow> list_all Q xs \<Longrightarrow> list_all Q ys"
  by (auto simp: list_all_iff)

lemma ctl_channels:
  assumes "ctl_step w it c op = (sent, c')" and "set (ctl_opened op) \<subseteq> {n}"
    and "distinct (past @ ctl_waiting c)" and "list_all (\<lambda>ch. ch < n) (past @ ctl_waiting c)"
  shows "distinct (past @ map fst sent @ ctl_waiting c')"
    and "list_all (\<lambda>ch. ch < n + length (ctl_opened op)) (past @ map fst sent @ ctl_waiting c')"
proof -
  note new = fresh_channel [OF assms(3,4,2) distinct_opened(1)]
  then have d: "distinct (past @ ctl_waiting c @ ctl_opened op)" by simp
  show "distinct (past @ map fst sent @ ctl_waiting c')"
    by (rule ctl.keep_distinct [OF assms(1) d])
  show "list_all (\<lambda>ch. ch < n + length (ctl_opened op)) (past @ map fst sent @ ctl_waiting c')"
    by (rule list_all_subset [OF ctl.keep_distinct(2) [OF assms(1) d]]) (use new(2) in simp)
qed

lemma dat_channels:
  assumes "dat_step w alive it c op = (sent, c')" and "set (dat_opened op) \<subseteq> {n}"
    and "distinct (past @ dat_waiting c)" and "list_all (\<lambda>ch. ch < n) (past @ dat_waiting c)"
  shows "distinct (past @ map fst sent @ dat_waiting c')"
    and "list_all (\<lambda>ch. ch < n + length (dat_opened op)) (past @ map fst sent @ dat_waiting c')"
proof -
  note new = fresh_channel [OF assms(3,4,2) distinct_opened(2)]
  then have d: "distinct (past @ dat_waiting c @ dat_opened op)" by simp
  show "distinct (past @ map fst sent @ dat_waiting c')"
    by (rule dat.keep_distinct [OF assms(1) d])
  show "list_all (\<lambda>ch. ch < n + length (dat_opened op)) (past @ map fst sent @ dat_waiting c')"
    by (rule list_all_subset [OF dat.keep_distinct(2) [OF assms(1) d]]) (use new(2) in simp)
qed

lemma list_all_mono_less: "list_all (\<lambda>ch. ch < n) xs \<Longrightarrow> n \<le> m \<Longrightarrow> list_all (\<lambda>ch. ch < (m::nat)) xs"
  by (auto simp: list_all_iff)

definition same_channels :: "'w reactor \<Rightarrow> 'w reactor \<Rightarrow> bool" where
  "same_channels r r' \<longleftrightarrow> r_control r' = r_control r \<and> r_control_sent r' = r_control_sent r \<and> r_data r' = r_data r
     \<and> r_data_sent r' = r_data_sent r \<and> r_next_channel r \<le> r_next_channel r'"

lemma channels_inv_same: "channels_inv r \<Longrightarrow> same_channels r r' \<Longrightarrow> channels_inv r'"
  by (auto simp: channels_inv_def same_channels_def Let_def intro: list_all_mono_less)

lemma same_channels_simps [simp]:
  "same_channels r (lock f r)" "same_channels r (emit ev r)" "same_channels r r"
  by (simp_all add: same_channels_def lock_def emit_def)

lemma same_channels_trans [trans]: "same_channels r r' \<Longrightarrow> same_channels r' r'' \<Longrightarrow> same_channels r r''"
  by (auto simp: same_channels_def)

lemma same_channels_set_status: "same_channels r (set_status e st r)"
  by (simp add: same_channels_def set_status_def Let_def lock_def emit_def)

lemma same_channels_sections:
  "same_channels r (begin_connection r)" "same_channels r (accept_session session caps r)"
  "same_channels r (emit_error e det r)" "same_channels r (open_gate r)"
  "same_channels r (check_ready_locked r)" "same_channels r (buffer_ice f r)"
  by (simp_all add: same_channels_def begin_connection_def accept_session_def emit_error_def open_gate_def
      check_ready_locked_def buffer_ice_def notify_ice_flush_def Let_def lock_def emit_def split: option.split)

lemma same_channels_beside: "beside r r' \<Longrightarrow> same_channels r r'"
  by (simp add: same_channels_def beside_def)

lemma same_channels_clear: "same_channels r (teardown_clear e keep failing r)"
  by (simp add: same_channels_def teardown_clear_def set_status_def Let_def lock_def emit_def)

lemmas same_channels_intros = same_channels_set_status same_channels_sections same_channels_beside same_channels_clear
  same_channels_simps
  same_channels_trans [OF same_channels_simps(1) same_channels_sections(1)]
  same_channels_trans [OF same_channels_simps(1) same_channels_sections(5)]

lemma channels_inv_step: "atomic e r r' \<Longrightarrow> channels_inv r \<Longrightarrow> channels_inv r'"
proof (induction rule: atomic.induct)
  case (a_control_op r op sent c)
  then have old: "distinct (map fst (r_control_sent r) @ ctl_waiting (r_control r))"
    "list_all (\<lambda>ch. ch < r_next_channel r) (map fst (r_control_sent r) @ ctl_waiting (r_control r))"
    by (simp_all add: channels_inv_def Let_def)
  note ctl_channels [OF a_control_op(1,2) old]
  moreover have "list_all (\<lambda>ch. ch < r_next_channel r + length (ctl_opened op)) (map fst (r_data_sent r) @ dat_waiting (r_data r))"
    by (rule list_all_mono_less [of "r_next_channel r"]) (use a_control_op(3) in \<open>simp_all add: channels_inv_def Let_def\<close>)
  ultimately show ?case using a_control_op(3) by (simp add: channels_inv_def Let_def)
next
  case (a_data_op r op sent c)
  then have old: "distinct (map fst (r_data_sent r) @ dat_waiting (r_data r))"
    "list_all (\<lambda>ch. ch < r_next_channel r) (map fst (r_data_sent r) @ dat_waiting (r_data r))"
    by (simp_all add: channels_inv_def Let_def)
  note dat_channels [OF a_data_op(1,2) old]
  moreover have "list_all (\<lambda>ch. ch < r_next_channel r + length (dat_opened op)) (map fst (r_control_sent r) @ ctl_waiting (r_control r))"
    by (rule list_all_mono_less [of "r_next_channel r"]) (use a_data_op(3) in \<open>simp_all add: channels_inv_def Let_def\<close>)
  ultimately show ?case using a_data_op(3) by (simp add: channels_inv_def Let_def)
qed (rule channels_inv_same, assumption, rule same_channels_intros, assumption?)+

lemma reactor_inv_step: "atomic e r r' \<Longrightarrow> reactor_inv r \<Longrightarrow> reactor_inv r'"
  unfolding reactor_inv_def using status_inv_step gate_inv_step session_inv_step channels_inv_step by blast

lemma reactor_inv_trace: "trace e r r' \<Longrightarrow> reactor_inv r \<Longrightarrow> reactor_inv r'"
  unfolding trace_def by (induction rule: rtranclp_induct) (auto intro: reactor_inv_step)

lemma reactor_inv_new: "reactor_inv (Reactor_new options world)"
  by (simp add: reactor_inv_def status_inv_def gate_inv_def session_inv_def channels_inv_def Reactor_new_def
      State_default_def reported_status_def ctl_waiting_def dat_waiting_def ControlCorrelator_new_def DataCorrelator_new_def)



section \<open>The readiness gate\<close>

text \<open>A gate fires only in a section that finds the peer connected and both channels open.\<close>

lemma gate_fires_up:
  "atomic e r r' \<Longrightarrow> g \<in> set (r_gates_fired r') \<Longrightarrow> g \<notin> set (r_gates_fired r) \<Longrightarrow> transport_up (r_state r')"
  by (induction rule: atomic.induct)
    (auto simp: transport_up_def section_defs beside_def elim!: quiet.cases split: option.splits if_splits)

lemma fired_during:
  assumes "trace e r r'" and "g \<in> set (r_gates_fired r')" and "g \<notin> set (r_gates_fired r)"
  shows "\<exists>r1 r2. trace e r r1 \<and> atomic e r1 r2 \<and> transport_up (r_state r2) \<and> trace e r2 r'"
  using assms unfolding trace_def
proof (induction rule: rtranclp_induct)
  case (step y z)
  show ?case
  proof (cases "g \<in> set (r_gates_fired y)")
    case True
    with step.IH step.prems step.hyps(2) show ?thesis by (meson rtranclp.rtrancl_into_rtrancl)
  next
    case False
    with step.hyps step.prems gate_fires_up show ?thesis by blast
  qed
qed simp

lemma await_gate_fired [ensures_intros]:
  "ensures (await_gate e gate) (\<lambda>_ r. gate \<in> set (r_gates_fired r)
     \<and> (is_stepped e \<longrightarrow> peer_data_channel_chunked (e_peer e) (r_world r)))"
  by (auto simp: ensures_def await_gate_def bindE_def timeout_rx_def Let_def gate_rx_def getE_def failE_def retE_def
      split: if_splits option.splits prod.splits sum.splits)

lemma finish_transport_gate:
  assumes "finish_transport e sid again adopt prepared r = (Inr (), r')"
  shows "r_next_channel r \<in> set (r_gates_fired r')
    \<and> (is_stepped e \<longrightarrow> peer_data_channel_chunked (e_peer e) (r_world r'))"
proof -
  have "negotiate e (signaling e sid (r_state r)) (r_next_channel r) again adopt prepared r = (Inr (), r')"
    using assms by (simp add: finish_transport_def bindE_def getE_def)
  then show ?thesis by (rule ensuresD [rotated]) (unfold negotiate_def, intro ensures_intros)
qed

text \<open>
  C2: a transport is reported ready only if it was up. When the exchange of offer and answer succeeds,
  there was a moment during it, whatever else ran meanwhile, when the peer was connected and both
  channels were open; and a stepped session is never ready without chunking on its data channel.
\<close>

theorem transport_ready_sound:
  assumes "rely e" and "gate_inv r" and "finish_transport e sid again adopt prepared r = (Inr (), r')"
  shows "(\<exists>r1 r2. trace e r r1 \<and> atomic e r1 r2 \<and> transport_up (r_state r2) \<and> trace e r2 r')
    \<and> (is_stepped e \<longrightarrow> peer_data_channel_chunked (e_peer e) (r_world r'))"
proof (rule conjI [OF fired_during])
  show "trace e r r'"
    using runs_transport(2) [OF assms(1), of sid again adopt prepared r] assms(3) by (simp add: preserves_def) (metis snd_conv trace_refl)
  show "r_next_channel r \<in> set (r_gates_fired r')"
    and "is_stepped e \<longrightarrow> peer_data_channel_chunked (e_peer e) (r_world r')"
    using finish_transport_gate [OF assms(3)] by simp_all
  show "r_next_channel r \<notin> set (r_gates_fired r)"
    using assms(2) by (auto simp: gate_inv_def list_all_iff)
qed

lemma quick_finish_transport:
  "fst (finish_transport (quick_env Stepped) ''s1'' False None \<lparr> po_sdp_offer = ''offer'', po_track_mapping = [] \<rparr> quick_reactor) = Inr ()"
  by (simp add: finish_transport_def negotiate_def choose_connection_def io_eval flush_ice_def flush_batch_def
      register_connection_def send_sdp_offer_def poll_sdp_answer_def send_request_def sg_headers_def auth_headers_def
      check_status_def is_success_def response_json_def quick_host_def quick_peer_def quick_codec_def quick_reactor_def
      Reactor_new_def State_default_def open_gate_def check_ready_locked_def lock_def teardown_error_def signaling_def
      WebRtcSignaling_new_def await_gate_def timeout_rx_def gate_rx_def peer_up_def)

theorem transport_ready_sound_witness:
  "\<exists>r1 r2. trace (quick_env Stepped) quick_reactor r1 \<and> atomic (quick_env Stepped) r1 r2 \<and> transport_up (r_state r2)"
proof -
  let ?m = "finish_transport (quick_env Stepped) ''s1'' False None \<lparr> po_sdp_offer = ''offer'', po_track_mapping = [] \<rparr> quick_reactor"
  have "gate_inv quick_reactor"
    by (simp add: gate_inv_def quick_reactor_def Reactor_new_def State_default_def)
  moreover have "?m = (Inr (), snd ?m)" using quick_finish_transport by (metis prod.collapse)
  ultimately show ?thesis using transport_ready_sound [OF rely_quick] by blast
qed

section \<open>Trickled candidates\<close>

text \<open>
  What happens to the candidates of one connection: the engine reports one, or the end of gathering;
  the connection gets an id; a flush takes what is buffered. A flush yields the batch it sends.
\<close>

datatype ice_op = Ice_Candidate IceCandidate | Ice_Gathered | Ice_Connection u32 | Ice_Flush

fun ice_step :: "State \<Rightarrow> ice_op \<Rightarrow> (IceCandidate list \<times> bool \<times> u32) list \<times> State" where
  "ice_step s (Ice_Candidate cand) = ([], ice_candidate cand s)"
| "ice_step s Ice_Gathered = ([], ice_gathering_complete s)"
| "ice_step s (Ice_Connection cid) = ([], s\<lparr>s_connection_id := Some cid, s_ice_ready := True\<rparr>)"
| "ice_step s Ice_Flush =
     (case flush_batch s of (batch, s') \<Rightarrow> (case batch of Some b \<Rightarrow> [b] | None \<Rightarrow> [], s'))"

fun ice_reported :: "ice_op list \<Rightarrow> IceCandidate list" where
  "ice_reported [] = []"
| "ice_reported (Ice_Candidate cand # ops) = cand # ice_reported ops"
| "ice_reported (_ # ops) = ice_reported ops"

definition finals :: "(IceCandidate list \<times> bool \<times> u32) list \<Rightarrow> nat" where
  "finals sent = length (filter (fst \<circ> snd) sent)"

lemma flush_batch_cases:
  assumes "flush_batch s = (batch, s')"
  shows "(case batch of Some (cands, _) \<Rightarrow> cands | None \<Rightarrow> []) @ s_ice_buffer s' = s_ice_buffer s"
    and "(case batch of Some (_, final, _) \<Rightarrow> of_bool final | None \<Rightarrow> 0) + of_bool (s_ice_final_sent s) = (of_bool (s_ice_final_sent s') :: nat)"
    and "s_ice_gathering_complete s' = s_ice_gathering_complete s"
    and "s_connection_id s \<noteq> None \<Longrightarrow> s_ice_ready s \<Longrightarrow> s_ice_buffer s' = [] \<and> (s_ice_gathering_complete s \<longrightarrow> s_ice_final_sent s')"
  using assms by (auto simp: flush_batch_def Let_def split: option.splits if_splits)

lemma ice_step_conserve:
  assumes "ice_step s op = (sent, s')"
  shows "concat (map fst sent) @ s_ice_buffer s' = s_ice_buffer s @ ice_reported [op]"
    and "finals sent + of_bool (s_ice_final_sent s) = of_bool (s_ice_final_sent s')"
proof -
  have "concat (map fst sent) @ s_ice_buffer s' = s_ice_buffer s @ ice_reported [op]
    \<and> finals sent + of_bool (s_ice_final_sent s) = of_bool (s_ice_final_sent s')"
  proof (cases op)
    case Ice_Flush
    obtain batch where b: "flush_batch s = (batch, s')" "sent = (case batch of Some x \<Rightarrow> [x] | None \<Rightarrow> [])"
      using assms Ice_Flush by (auto split: prod.splits)
    show ?thesis using flush_batch_cases(1,2) [OF b(1)] b(2) Ice_Flush by (cases batch) (auto simp: finals_def split: if_splits simp: of_bool_def)
  qed (use assms in \<open>auto simp: finals_def ice_candidate_def ice_gathering_complete_def\<close>)
  then show "concat (map fst sent) @ s_ice_buffer s' = s_ice_buffer s @ ice_reported [op]"
    and "finals sent + of_bool (s_ice_final_sent s) = of_bool (s_ice_final_sent s')" by simp_all
qed

lemma ice_reported_Cons: "ice_reported (op # ops) = ice_reported [op] @ ice_reported ops"
  by (cases op) simp_all

lemma finals_append: "finals (xs @ ys) = finals xs + finals ys"
  by (simp add: finals_def)

lemma ice_run_conserve:
  "run_ops ice_step s ops = (sent, s') \<Longrightarrow>
     concat (map fst sent) @ s_ice_buffer s' = s_ice_buffer s @ ice_reported ops
     \<and> finals sent + of_bool (s_ice_final_sent s) = of_bool (s_ice_final_sent s')"
proof (induction ops arbitrary: s sent)
  case (Cons op ops)
  obtain s1 t1 where s1: "ice_step s op = (t1, s1)" by fastforce
  obtain t2 where t2: "run_ops ice_step s1 ops = (t2, s')" "sent = t1 @ t2"
    using Cons.prems s1 by (auto split: prod.splits)
  show ?case
    using Cons.IH [OF t2(1)] ice_step_conserve [OF s1] t2(2)
    by (simp add: ice_reported_Cons [of op ops] finals_append)
qed (simp add: finals_def)


definition sample_candidate :: IceCandidate where
  "sample_candidate = \<lparr> candidate = ''c'', sdp_mid = None, sdp_mline_index = None \<rparr>"


end
