(* ===== verification/Reactor_Lifecycle.thy ===== *)
theory Reactor_Lifecycle
  imports Reactor_Invariant
begin

text \<open>
  What connecting, reconnecting, disconnecting and the keep-alive guarantee, whatever runs between the
  awaits.
\<close>

section \<open>Operations as interleavings\<close>

lemma run_trace: "preserves m (trace e r) \<Longrightarrow> trace e r (snd (m r))"
  by (simp add: preserves_def)



section \<open>Matching preset tracks\<close>

lemma mset_butlast: "ys \<noteq> [] \<Longrightarrow> mset (butlast ys) = mset ys - {#last ys#}"
proof -
  assume "ys \<noteq> []"
  then have "mset ys = mset (butlast ys @ [last ys])" by simp
  then show ?thesis by (simp del: append_butlast_last_id)
qed

lemma mset_swap_remove: "i < length xs \<Longrightarrow> mset (swap_remove i xs) = mset xs - {#xs ! i#}"
proof -
  assume i: "i < length xs"
  then have ne: "xs \<noteq> []" by auto
  then have "last (xs[i := last xs]) = last xs"
    by (simp add: last_list_update)
  moreover have "xs[i := last xs] \<noteq> []" using ne by simp
  ultimately show ?thesis using i by (simp add: swap_remove_def mset_butlast mset_update)
qed

lemma match_tracks_mset: "length a = length b \<Longrightarrow> match_tracks a b \<longleftrightarrow> mset a = mset b"
proof (induction a arbitrary: b)
  case (Cons track a)
  show ?case
  proof (cases "position (\<lambda>t. t = track) b")
    case None
    then have "track \<notin># mset b" by (auto simp: position_None)
    moreover have "track \<in># mset (track # a)" by simp
    ultimately show ?thesis using None by (metis match_tracks.simps(2) option.simps(4))
  next
    case (Some i)
    then have i: "i < length b" "b ! i = track" by (auto dest: position_Some)
    then have "length a = length (swap_remove i b)" using Cons.prems by (simp add: swap_remove_def)
    from Cons.IH [OF this] i have "match_tracks a (swap_remove i b) \<longleftrightarrow> mset a = mset b - {#track#}"
      by (simp add: mset_swap_remove)
    moreover have "track \<in># mset b" using i nth_mem by fastforce
    ultimately show ?thesis using Some by (auto simp: insert_DiffM) (metis add_mset_remove_trivial)
  qed
qed simp

text \<open>
  C8: preset tracks are accepted exactly when they are the session's tracks in some order, each as
  often: matching them one by one, with the rest reordered by each removal, is equality of multisets.
\<close>

theorem tracks_match_mset: "tracks_match a b \<longleftrightarrow> mset a = mset b"
  using match_tracks_mset [of a b] by (auto simp: tracks_match_def dest: mset_eq_length)

section \<open>The guard of connect\<close>

text \<open>
  two calls of connect cannot both pass its guard. Unless the client is disconnected, connect fails
  and changes nothing; when it is, its first section already leaves the client connecting, in a new
  epoch, so a second call made at any point before the first one ends is refused.
\<close>

theorem connect_guard:
  "(status r \<noteq> Disconnected_s \<longrightarrow>
      connect e opts r = (Inl (Fail (InvalidState (''connect() while status is '' @ ReactorStatus_as_str (status r)))), r))
   \<and> (status r = Disconnected_s \<longrightarrow>
      (let r1 = begin_connection (lock (connect_begin (now_ms (e_host e) r) opts) r)
       in connect e opts r = on_failure e ''connect'' False (connect_inner e opts) r1
          \<and> status r1 = Connecting_s \<and> s_heartbeat_epoch (r_state r1) = s_heartbeat_epoch (r_state r) + 1
          \<and> \<not> s_closing (r_state r1) \<and> s_teardown_reason (r_state r1) = None
          \<and> connect e opts' r1 = (Inl (Fail (InvalidState ''connect() while status is connecting'')), r1)))"
  by (auto simp: connect_def bindE_def getE_def modifyE_def failE_def Let_def begin_connection_def connect_begin_def
      lock_def emit_def split: option.splits)

theorem connect_guard_witness:
  "fst (connect (quick_env Streamed) ConnectOptions_default (quick_reactor\<lparr>r_state := State_default\<lparr>s_status := Ready_s\<rparr>\<rparr>))
     = Inl (Fail (InvalidState ''connect() while status is ready''))"
proof -
  let ?r = "quick_reactor\<lparr>r_state := State_default\<lparr>s_status := Ready_s\<rparr>\<rparr>"
  have "status ?r = Ready_s" by simp
  with connect_guard [of ?r "quick_env Streamed" ConnectOptions_default] show ?thesis by simp
qed

section \<open>Teardown\<close>

definition cleared :: "State \<Rightarrow> bool" where
  "cleared s \<longleftrightarrow> s_session_id s = None \<and> s_session_info s = None \<and> \<not> s_created_session s \<and> s_connection_id s = None
     \<and> s_capabilities s = None \<and> s_tracks s = []"

definition transport_reset :: "State \<Rightarrow> bool" where
  "transport_reset s \<longleftrightarrow> \<not> s_peer_connected s \<and> \<not> s_data_open s \<and> \<not> s_control_open s \<and> s_ice_buffer s = []
     \<and> \<not> s_ice_gathering_complete s \<and> \<not> s_ice_final_sent s \<and> \<not> s_ice_ready s \<and> s_track_mapping s = []
     \<and> s_paused_tracks s = {}"

lemma teardown_clear_state:
  "status (teardown_clear e keep failing r) = Disconnected_s \<and> transport_reset (r_state (teardown_clear e keep failing r))
   \<and> (\<not> keep \<longrightarrow> cleared (r_state (teardown_clear e keep failing r))
        \<and> r_step_inputs (teardown_clear e keep failing r) = Buffered_default)"
  by (simp add: teardown_clear_def teardown_reset_def reset_transport_def set_status_def lock_def emit_def Let_def
      transport_reset_def cleared_def clear_inputs_def)

lemma teardown_ensures:
  "ensures (teardown e keep failing) (\<lambda>_ r. status r = Disconnected_s \<and> transport_reset (r_state r)
     \<and> (\<not> keep \<longrightarrow> cleared (r_state r) \<and> r_step_inputs r = Buffered_default))"
  unfolding teardown_def teardown_session_def by (intro ensures_intros ensures_modifyE teardown_clear_state)

text \<open>An operation that handles its own errors: it succeeds unless it panics.\<close>

definition never_fails :: "('s, 'a) io \<Rightarrow> bool" where
  "never_fails m \<longleftrightarrow> (\<forall>s err. fst (m s) \<noteq> Inl (Fail err))"

lemma never_fails_intros:
  "never_fails (retE x)" "never_fails (getE f)" "never_fails (modifyE g)" "never_fails (attemptE m)"
  "never_fails m' \<Longrightarrow> (\<And>y. never_fails (h y)) \<Longrightarrow> never_fails (bindE m' h)"
  "never_fails m'' \<Longrightarrow> never_fails (whenE b m'')"
  "never_fails m1 \<Longrightarrow> (\<And>y. never_fails (h' y)) \<Longrightarrow> never_fails (case v of None \<Rightarrow> m1 | Some y \<Rightarrow> h' y)"
  "(\<And>y z. never_fails (h'' y z)) \<Longrightarrow> never_fails (case pv of (y, z) \<Rightarrow> h'' y z)"
  by (auto simp: never_fails_def retE_def getE_def modifyE_def attemptE_def bindE_def whenE_def
      split: prod.splits sum.splits failure.splits option.splits) (metis fst_conv)+

lemma teardown_never_fails: "never_fails (teardown e keep failing)"
  unfolding teardown_def teardown_session_def by (intro never_fails_intros)

lemma on_failure_cases:
  assumes "on_failure e operation keep m r = (Inl (Fail err), r')"
  shows "\<exists>r2. m r = (Inl (Fail err), r2) \<and> teardown e keep True (emit_error e (details_of e err operation) r2) = (Inr (), r')"
proof -
  obtain outcome r2 where m: "m r = (outcome, r2)" by fastforce
  have run: "on_failure e operation keep m r =
      (case outcome of Inr _ \<Rightarrow> (Inr (), r2) | Inl Panic \<Rightarrow> (Inl Panic, r2)
       | Inl (Fail err2) \<Rightarrow> (case teardown e keep True (emit_error e (details_of e err2 operation) r2) of
           (Inr _, r3) \<Rightarrow> (Inl (Fail err2), r3) | (Inl f, r3) \<Rightarrow> (Inl f, r3)))"
    by (simp add: on_failure_def bindE_def attemptE_def modifyE_def retE_def failE_def m split: sum.split failure.split)
  have "(case outcome of Inl (Fail err2) \<Rightarrow> fst (teardown e keep True (emit_error e (details_of e err2 operation) r2)) \<noteq> Inl (Fail err)
       | _ \<Rightarrow> True)"
    using teardown_never_fails [of e keep True] by (simp add: never_fails_def split: sum.split failure.split)
  with assms run m show ?thesis
    by (auto split: sum.splits failure.splits prod.splits)
qed

lemma events_grow: "trace e r r' \<Longrightarrow> set (r_events r) \<subseteq> set (r_events r')"
  unfolding trace_def
proof (induction rule: rtranclp_induct)
  case (step y z)
  have "set (r_events y) \<subseteq> set (r_events z)"
    using step.hyps(2) by (induction rule: atomic.induct) (auto simp: section_defs beside_def split: option.splits)
  with step.IH show ?case by blast
qed simp

text \<open>
  C5: a failed connect leaves nothing behind. Whatever ran while it was waiting, the client ends
  disconnected, with no session, no connection, no candidates and no buffered frames, and subscribers
  were sent the very error the call returns.
\<close>

theorem connect_failure_cleans_up:
  assumes "rely e" and "status r = Disconnected_s" and "connect e opts r = (Inl (Fail err), r')"
  shows "status r' = Disconnected_s \<and> cleared (r_state r') \<and> transport_reset (r_state r')
    \<and> r_step_inputs r' = Buffered_default
    \<and> (\<exists>ts. ErrorEvent \<lparr> details = details_of e err ''connect'', timestamp_ms = ts \<rparr> \<in> set (r_events r'))"
proof -
  let ?r1 = "begin_connection (lock (connect_begin (now_ms (e_host e) r) opts) r)"
  have "on_failure e ''connect'' False (connect_inner e opts) ?r1 = (Inl (Fail err), r')"
    using assms(2,3) by (simp add: connect_def bindE_def getE_def modifyE_def)
  from on_failure_cases [OF this] obtain r2 where
    down: "teardown e False True (emit_error e (details_of e err ''connect'') r2) = (Inr (), r')" by blast
  have "trace e (emit_error e (details_of e err ''connect'') r2) r'"
    using run_trace [OF runs_teardown [OF assms(1)]] down by (metis snd_conv)
  moreover have "ErrorEvent \<lparr> details = details_of e err ''connect'', timestamp_ms = now_ms (e_host e) r2 \<rparr>
      \<in> set (r_events (emit_error e (details_of e err ''connect'') r2))"
    by (simp add: emit_error_def emit_def lock_def Let_def)
  ultimately show ?thesis using events_grow ensuresD [OF teardown_ensures down] by blast
qed

lemma down_connect:
  "fst (connect down_env ConnectOptions_default quick_reactor) = Inl (Fail (Http ''down''))"
  by (simp add: connect_def on_failure_def connect_inner_def session_for_connect_def create_session_def io_eval
      send_request_def coord_headers_def auth_headers_def down_host_def quick_host_def quick_peer_def quick_reactor_def
      ConnectOptions_default_def Reactor_new_def State_default_def begin_connection_def connect_begin_def lock_def emit_def
      emit_error_def teardown_def teardown_session_def teardown_begin_def fail_pending_def control_fail_all_def data_fail_all_def
      coordinator_config_def CoordinatorClient_new_def ReactorOptions_new_def case_prod_unfold)

theorem connect_failure_cleans_up_witness:
  "status (snd (connect down_env ConnectOptions_default quick_reactor)) = Disconnected_s
   \<and> cleared (r_state (snd (connect down_env ConnectOptions_default quick_reactor)))"
proof -
  let ?m = "connect down_env ConnectOptions_default quick_reactor"
  have "?m = (Inl (Fail (Http ''down'')), snd ?m)" using down_connect by (metis prod.collapse)
  moreover have "status quick_reactor = Disconnected_s" by (simp add: quick_reactor_def State_default_def)
  ultimately show ?thesis using connect_failure_cleans_up [OF rely_down] by blast
qed

section \<open>Who ends a session\<close>

lemma sends_modify: "(\<And>s. cnt (f s) = cnt s) \<Longrightarrow> sends_at_most cnt 0 (modifyE f)"
  by (simp add: sends_at_most_def modifyE_def)

lemma sends_get: "sends_at_most cnt 0 (getE f)"
  by (simp add: sends_at_most_def getE_def)

lemma sends_attempt: "sends_at_most cnt n m \<Longrightarrow> sends_at_most cnt n (attemptE m)"
  by (auto simp: sends_at_most_def attemptE_def split: prod.splits sum.splits failure.splits) (metis snd_conv)+

lemma terminate_one:
  assumes "counts cnt h" and "\<And>s x. cnt (s\<lparr>local_session := x\<rparr>) = cnt s"
  shows "sends_at_most cnt 1 (terminate_session h cfg sid)"
proof -
  have "sends_at_most cnt 1 (send_request h m u (coord_headers h j (Some sid)) b)" for m u j b
    by (rule sends_request [OF assms(1) sends_headers(2) [OF assms(1)]])
  moreover have "sends_at_most cnt 1 (attemptE (send_request h m u (retE hs) b))" for m u hs b
    by (rule sends_attempt, rule sends_request [OF assms(1)]) simp
  moreover have "sends_at_most cnt 0 (modifyE (\<lambda>s. s\<lparr>local_session := None\<rparr>))" using assms(2) by (rule sends_modify)
  ultimately show ?thesis
    unfolding terminate_session_def by (auto intro: sends_bind [of _ 1 _ 0])
qed

text \<open>
  C7: a session is ended only by the client that created it, and only for good. Tearing down makes at
  most one request of the coordinator, and none at all when the connection is to be resumed or the
  session was adopted from someone else.
\<close>

theorem teardown_ends_own_session:
  assumes "counts (\<lambda>r. requests (r_world r)) (e_host e)"
    and "\<And>r. requests (r_world (snd (peer_close (e_peer e) r))) = requests (r_world r)"
  shows "requests (r_world (snd (teardown e keep failing r)))
    \<le> requests (r_world r) + (if \<not> keep \<and> s_created_session (r_state r) then 1 else 0)"
proof -
  let ?cnt = "\<lambda>r :: 'a reactor. requests (r_world r)"
  let ?n = "if \<not> keep \<and> s_created_session (r_state r) then 1 else 0 :: nat"
  have ends: "sends_at_most ?cnt ?n (case sid of
              Some sid' \<Rightarrow> whenE (\<not> keep \<and> s_created_session (r_state r))
                (bindE (attemptE (terminate_session (e_host e) (e_coordinator e) sid')) (\<lambda>_. retE ()))
            | None \<Rightarrow> retE ())" for sid
    using sends_bind [OF sends_attempt [OF terminate_one [OF assms(1)]], of 0 "\<lambda>_. retE ()" 1]
    by (auto simp: whenE_def split: option.split)
  have clear: "?cnt (teardown_clear e keep failing r) = ?cnt r" for r
    by (simp add: teardown_clear_def set_status_def lock_def emit_def Let_def)
  have close: "sends_at_most ?cnt 0 (attemptE (peer_close (e_peer e)))"
    by (rule sends_attempt) (simp add: sends_at_most_def assms(2))
  have "sends_at_most ?cnt ?n (teardown_session e keep failing (\<not> keep \<and> s_created_session (r_state r)) (s_session_id (r_state r)))"
    unfolding teardown_session_def
    by (rule sends_bind [of _ 0 _ ?n] sends_bind [of _ ?n _ 0] sends_modify close ends clear
        | simp add: lock_def fail_pending_def case_prod_unfold)+
  then show ?thesis by (simp add: teardown_def bindE_def getE_def sends_at_most_def)
qed

theorem teardown_ends_own_session_witness:
  "r_world (snd (teardown tally_env True False quick_reactor)) \<le> r_world quick_reactor"
proof -
  have "counts (\<lambda>r. r_world r) (e_host tally_env)"
    by (simp add: counts_def tally_env_def quick_host_def)
  moreover have "r_world (snd (peer_close (e_peer tally_env) r)) = r_world r" for r
    by (simp add: tally_env_def quick_peer_def)
  ultimately show ?thesis
    using teardown_ends_own_session [of "\<lambda>w. w" tally_env True False quick_reactor] by simp
qed

section \<open>The keep-alive\<close>



end
