(* ===== verification/Reactor_Requests.thy ===== *)
theory Reactor_Requests
  imports Reactor_Lifecycle
begin

text \<open>
  What callers of the reactor can rely on: every request is answered or given up, errors are reported
  once, and frames go to the engine or to the step they were pushed for.
\<close>

section \<open>Disconnecting answers every waiting request\<close>

lemma map_of_sent:
  assumes "distinct (map fst (past @ sent))" and "(ch, x) \<in> set sent"
  shows "map_of (past @ sent) ch = Some x"
  using assms by (metis Un_iff map_of_is_SomeI set_append)

lemma waiting_control:
  "ch \<in> set (ctl_waiting c) \<Longrightarrow> \<exists>rid. (ch, Inl (ControlRequest ''request'' DISCONNECTED
      (reason @ '' (request_id='' @ rid @ '')''))) \<in> set (fst (control_fail_all it reason c))"
  by (force simp: ctl_waiting_def control_fail_all_def)

lemma waiting_data:
  "ch \<in> set (dat_waiting c) \<Longrightarrow> \<exists>rid command. (ch, Inl (CommandRequest command DISCONNECTED
      (reason @ '' (request_id='' @ rid @ '')''))) \<in> set (fst (data_fail_all it reason c))"
  by (force simp: dat_waiting_def data_fail_all_def)


definition waiting_reactor :: "nat reactor" where
  "waiting_reactor = snd (data_open_request (quick_env Streamed) (DC_Error \<lparr> we_code = [], we_message = [] \<rparr>) quick_reactor)"


section \<open>Errors are reported once\<close>

text \<open>
  C10: an error the runtime sends on the data channel reaches exactly one listener. When it answers a
  waiting command, that command's channel is sent it and no event is published; when no command is
  waiting for it, no channel is sent anything and one error event is published, with its code and
  message.
\<close>

theorem data_error_reported_once:
  assumes "dec_data (e_wire e) raw = Inr \<lparr> sv_request_id = rid, sv_payload = Some (DS_Error err) \<rparr>"
    and "on_data_message e raw r = (Inr (), r')"
  shows "(\<forall>command ch. rid \<noteq> [] \<and> hm_get (dat_pending (r_data r)) rid = Some (command, ch) \<longrightarrow>
        r_events r' = r_events r \<and> r_data_sent r' = r_data_sent r @ [(ch, Inr (Some (DS_Error err)))])
    \<and> (rid = [] \<or> hm_get (dat_pending (r_data r)) rid = None \<longrightarrow>
        r_data_sent r' = r_data_sent r
        \<and> (\<exists>ts. r_events r' = r_events r @ [ErrorEvent \<lparr> details = ErrorDetails_new (we_code err) (we_message err) True,
              timestamp_ms = ts \<rparr>]))"
  using assms
  by (auto simp: on_data_message_def receive_data_def reads_again_def data_handle_message_at_def bindE_def getE_def
      retE_def worldE_def modifyE_def emit_error_def emit_def lock_def Let_def split: prod.splits if_splits option.splits)

definition error_wire :: wire where
  "error_wire = sample_wire\<lparr>dec_data := (\<lambda>_. Inr \<lparr> sv_request_id = [], sv_payload = Some (DS_Error \<lparr> we_code = ''c'', we_message = ''m'' \<rparr>) \<rparr>)\<rparr>"

theorem data_error_reported_once_witness:
  "\<exists>ts. r_events (snd (on_data_message ((quick_env Streamed)\<lparr>e_wire := error_wire\<rparr>) [] quick_reactor))
     = [ErrorEvent \<lparr> details = ErrorDetails_new ''c'' ''m'' True, timestamp_ms = ts \<rparr>]"
proof -
  let ?e = "(quick_env Streamed)\<lparr>e_wire := error_wire\<rparr>"
  let ?m = "on_data_message ?e [] quick_reactor"
  have dec: "dec_data (e_wire ?e) [] = Inr \<lparr> sv_request_id = [], sv_payload = Some (DS_Error \<lparr> we_code = ''c'', we_message = ''m'' \<rparr>) \<rparr>"
    by (simp add: error_wire_def)
  have "fst ?m = Inr ()"
    by (simp add: on_data_message_def receive_data_def reads_again_def data_handle_message_at_def io_eval error_wire_def quick_peer_def)
  then have "?m = (Inr (), snd ?m)" by (metis prod.collapse)
  moreover have "r_events quick_reactor = []" by (simp add: quick_reactor_def Reactor_new_def)
  ultimately show ?thesis using data_error_reported_once [OF dec] by fastforce
qed

section \<open>Requests that end are forgotten\<close>

lemma forget_data_gone:
  "hm_get (dat_pending (r_data (forget_data rid r))) rid = None \<and> hm_get (dat_arrivals (r_data (forget_data rid r))) rid = None"
  by (simp add: forget_data_def data_cancel_def)

lemma send_pending_too_large:
  "peer_max_message_bytes (e_peer e) (r_world r) < length (pd_payload pending) \<Longrightarrow>
   send_pending e operation pending r = (Inl (Fail (MessageTooLarge (length (pd_payload pending))
     (peer_max_message_bytes (e_peer e) (r_world r)))), forget_data (pd_request_id pending) r)"
  by (simp add: send_pending_def bindE_def getE_def modifyE_def failE_def)

lemma data_request_forgets:
  "data_request e operation label payload d timing r = (outcome, r') \<Longrightarrow>
   \<exists>r2. r' = forget_data (dat_id (dat_counter (r_data r) + 1)) r2"
  by (auto simp: data_request_def bindE_def data_open_request_def data_begin_def forgetting_def Let_def split: prod.splits)

text \<open>
  C11: a command leaves nothing behind. However a data request ends, with its reply, an error, a timeout
  or a message too large to send, its id is no longer waiting and no arrival time is kept for it; and a
  message over the channel's limit is refused with its size, with no event.
\<close>

theorem data_request_forgotten:
  assumes "data_request e operation label payload d timing r = (outcome, r')"
  shows "hm_get (dat_pending (r_data r')) (dat_id (dat_counter (r_data r) + 1)) = None
    \<and> hm_get (dat_arrivals (r_data r')) (dat_id (dat_counter (r_data r) + 1)) = None
    \<and> (let n = length (enc_data (e_wire e) \<lparr> cl_request_id = dat_id (dat_counter (r_data r) + 1), cl_kind = MK_Request,
               cl_payload = Some payload \<rparr>)
       in (\<forall>w. peer_max_message_bytes (e_peer e) w = limit) \<and> limit < n \<longrightarrow>
          outcome = Inl (Fail (MessageTooLarge n limit)) \<and> r_events r' = r_events r \<and> r_data_sent r' = r_data_sent r)"
proof -
  let ?id = "dat_id (dat_counter (r_data r) + 1)"
  let ?n = "length (enc_data (e_wire e) \<lparr> cl_request_id = ?id, cl_kind = MK_Request, cl_payload = Some payload \<rparr>)"
  have "outcome = Inl (Fail (MessageTooLarge ?n limit)) \<and> r_events r' = r_events r \<and> r_data_sent r' = r_data_sent r"
    if "\<forall>w. peer_max_message_bytes (e_peer e) w = limit" "limit < ?n"
    using assms that
    by (auto simp: data_request_def bindE_def data_open_request_def data_begin_def forgetting_def Let_def
        worldE_def send_pending_too_large forget_data_def split: prod.splits)
  then show ?thesis
    using data_request_forgets [OF assms] forget_data_gone [of ?id] by (auto simp: Let_def)
qed

theorem data_request_forgotten_witness:
  "fst (data_request ((quick_env Streamed)\<lparr>e_wire := sample_wire\<lparr>enc_data := (\<lambda>_. replicate 11 0)\<rparr>\<rparr>) ''op'' ''label''
     (DC_Error \<lparr> we_code = [], we_message = [] \<rparr>) 5 \<lparr> ct_generation = 0, ct_built_ms = Fin 0, ct_stages = [] \<rparr> quick_reactor)
   = Inl (Fail (MessageTooLarge 11 10))"
proof -
  let ?e = "(quick_env Streamed)\<lparr>e_wire := sample_wire\<lparr>enc_data := (\<lambda>_. replicate 11 0)\<rparr>\<rparr>"
  have "\<forall>w. peer_max_message_bytes (e_peer ?e) w = 10" by (simp add: quick_peer_def)
  then show ?thesis
    using data_request_forgotten [OF prod.collapse [symmetric], of ?e "''op''" "''label''"
        "DC_Error \<lparr> we_code = [], we_message = [] \<rparr>" 5 "\<lparr> ct_generation = 0, ct_built_ms = Fin 0, ct_stages = [] \<rparr>" quick_reactor 10]
    by (simp add: Let_def)
qed

section \<open>Steps and their frames\<close>

text \<open>
  a step takes the buffered frames exactly when it is accepted. A step asked for outside a ready
  stepped session, or with a state or command data that is not an object, fails with the buffer as it
  was; otherwise the buffer is emptied, into the request, or dropped with a refusal when encoded frames
  lost their keyframe.
\<close>

theorem begin_step_frames:
  "(case begin_step e state cmds r of
      (Inr request, r') \<Rightarrow> is_stepped e \<and> status r = Ready_s
        \<and> rs_media_input request = filter (\<lambda>t. tf_frames t \<noteq> []) (bu_tracks (r_step_inputs r))
        \<and> r' = r\<lparr>r_step_inputs := Buffered_default\<rparr>
    | (Inl (Fail err), r') \<Rightarrow> r' = r \<or> (r' = r\<lparr>r_step_inputs := Buffered_default\<rparr> \<and> code err = STEP_REFUSED)
    | (Inl Panic, r') \<Rightarrow> False)
   \<and> snd (check_step e state cmds r) = r
   \<and> (\<forall>f. fst (check_step e state cmds r) = Inl f \<longrightarrow> begin_step e state cmds r = (Inl f, r))"
  by (auto simp: begin_step_def check_step_def build_step_def ensure_ready_def take_step_inputs_def take_inputs_def Let_def bindE_def
      getE_def retE_def failE_def liftE_def split: prod.splits sum.splits option.splits if_splits)

theorem begin_step_frames_witness:
  "begin_step (quick_env Streamed) JNull [] quick_reactor
     = (Inl (Fail (InvalidState ''step() needs a session connected with generation: stepped'')), quick_reactor)"
proof -
  have "fst (check_step (quick_env Streamed) JNull [] quick_reactor)
      = Inl (Fail (InvalidState ''step() needs a session connected with generation: stepped''))"
    by (simp add: check_step_def build_step_def bindE_def failE_def)
  with begin_step_frames [where e = "quick_env Streamed" and state = JNull and cmds = "[]" and r = quick_reactor] show ?thesis by blast
qed

lemma push_input_world [simp]:
  "r_world (snd (push_inputE e name kind frame r)) = r_world r"
  "r_stage_times (snd (push_inputE e name kind frame r)) = r_stage_times r"
  by (simp_all add: push_inputE_def retE_def panicE_def split: option.split)

lemma push_timed_inputs [simp]: "r_step_inputs (snd (push_timed e name f r)) = r_step_inputs r"
  by (simp add: push_timed_def submit_started_def submitted_def push_peerE_def io_eval case_prod_unfold)

lemmas push_defs = push_video_frame_def push_video_frame_with_metadata_def push_video_frame_with_metadata_at_def
  push_audio_frame_def push_step_video_frame_def push_step_encoded_video_frame_def buffer_video_frame_def



section \<open>Disconnecting while connecting\<close>

text \<open>
  A host on which another task disconnects while \<^verbatim>\<open>connect\<close> waits for the session to be ready.
\<close>

definition race_env :: "nat env" where
  "race_env = Reactor_env ((quick_env Streamed)\<lparr>
     e_options := (ReactorOptions_new ''0'' ''http://host'' ''m'')\<lparr>opt_session_poll := PollConfig_session\<lparr>max_attempts := 1\<rparr>\<rparr>,
     e_host := quick_host\<lparr>http_request := (\<lambda>q r. (Inr \<lparr> resp_status = 200, resp_headers = [], resp_body = [] \<rparr>,
       if req_method q = Get \<and> req_url q = ''http://host/sessions/s1'' then snd (disconnect (quick_env Streamed) False r) else r))\<rparr>\<rparr>)"

lemma race_env_simps [simp]:
  "e_peer race_env = quick_peer" "e_codec race_env = quick_codec"
  "opt_preset_tracks (e_options race_env) = None" "opt_generation (e_options race_env) = Streamed"
  "auth_jwt (e_host race_env) = (\<lambda>_ r. (Inr None, r))"
  "opt_ready_timeout (e_options race_env) = from_secs 30"
  "is_stepped race_env \<longleftrightarrow> False"
  by (simp_all add: race_env_def Reactor_env_def ReactorOptions_new_def quick_host_def is_stepped_def)

lemma race_config [simp]:
  "e_coordinator race_env = (coordinator_config (ReactorOptions_new ''0'' ''http://host'' ''m''))\<lparr>cfg_poll := PollConfig_session\<lparr>max_attempts := 1\<rparr>\<rparr>"
  "cfg_api_url (coordinator_config (ReactorOptions_new ''0'' ''http://host'' ''m'')) = ''http://host''"
  "cfg_local (coordinator_config (ReactorOptions_new ''0'' ''http://host'' ''m'')) = False"
  by (simp_all add: race_env_def Reactor_env_def ReactorOptions_new_def coordinator_config_def CoordinatorClient_new_def
      trim_end_matches_def)

lemma race_request:
  "http_request (e_host race_env) q r = (Inr \<lparr> resp_status = 200, resp_headers = [], resp_body = [] \<rparr>,
     if req_method q = Get \<and> req_url q = ''http://host/sessions/s1'' then snd (disconnect (quick_env Streamed) False r) else r)"
  by (simp add: race_env_def Reactor_env_def)

lemma race_get_session:
  "poll_session_ready (e_host race_env) quick_codec (e_coordinator race_env) ''s1'' r
     = (Inr ready_session, snd (disconnect (quick_env Streamed) False r))"
  by (simp add: poll_session_ready_def get_session_def send_request_def coord_headers_def auth_headers_def io_eval race_request
      check_status_def is_success_def response_json_def quick_codec_def ready_session_def is_terminal_def is_ready_def)

lemma race_create:
  "create_session (e_host race_env) quick_codec (e_coordinator race_env) r = (Inr ready_session, r)"
  by (simp add: create_session_def send_request_def coord_headers_def auth_headers_def io_eval race_request
      check_status_def is_success_def response_json_def quick_codec_def)

lemma quick_disconnect:
  "snd (disconnect (quick_env Streamed) False r) = teardown_clear (quick_env Streamed) False False
     ((fail_pending (quick_env Streamed) ''disconnected'' (lock teardown_begin r))\<lparr>r_stats := None\<rparr>)"
  by (simp add: disconnect_def teardown_def teardown_session_def io_eval terminate_session_def send_request_def coord_headers_def
      auth_headers_def quick_peer_def quick_host_def quick_env_def Reactor_env_def coordinator_config_def CoordinatorClient_new_def
      ReactorOptions_new_def check_status_def is_success_def stats_reset_def split: option.split)

definition torn :: "'w reactor \<Rightarrow> bool" where
  "torn r \<longleftrightarrow> s_session_id (r_state r) = None \<and> s_connection_id (r_state r) = None \<and> s_sdp_max_attempts (r_state r) = 1
     \<and> s_teardown_reason (r_state r) = None \<and> s_ice_buffer (r_state r) = [] \<and> \<not> s_ice_gathering_complete (r_state r)
     \<and> \<not> s_peer_connected (r_state r) \<and> \<not> s_data_open (r_state r) \<and> \<not> s_control_open (r_state r) \<and> r_gates_fired r = [] \<and> \<not> s_auto_resume_tracks (r_state r) \<and> status r = Disconnected_s
     \<and> s_closing (r_state r)"

lemma race_base_url: "sg_base_url (signaling race_env ''s1'' s) = ''http://host/sessions/s1/transport/webrtc''"
  "max_attempts (sg_poll (signaling race_env ''s1'' s)) = s_sdp_max_attempts s"
  by (simp_all add: signaling_def WebRtcSignaling_new_def transport_base_url_def trim_end_matches_def)

lemma race_signaling:
  fixes s defines "g \<equiv> signaling race_env ''s1'' s"
  shows "ice_servers (e_host race_env) quick_codec g r = (Inr [], r)"
    and "register_connection (e_host race_env) quick_codec g r = (Inr 1000, r)"
    and "send_sdp_offer (e_host race_env) quick_codec g cid offer mapping again r = (Inr (), r)"
    and "s_sdp_max_attempts s = 1 \<Longrightarrow>
      poll_sdp_answer (e_host race_env) quick_codec g cid r = (Inr \<lparr> sdp_answer = ''answer'', sar_connection_id = None \<rparr>, r)"
  by (simp_all add: g_def ice_servers_def register_connection_def send_sdp_offer_def poll_sdp_answer_def send_request_def
      sg_headers_def auth_headers_def io_eval race_request race_base_url connection_url_def check_status_def is_success_def
      response_json_def quick_codec_def)

lemma peer_up_fires:
  assumes "s_ready_gate (r_state r) = Some gate" and "\<not> s_peer_connected (r_state r)"
    and "\<not> s_data_open (r_state r)" and "\<not> s_control_open (r_state r)"
  shows "peer_up r = r\<lparr>r_gates_fired := gate # r_gates_fired r, r_state := (r_state r)\<lparr>s_peer_connected := True,
     s_data_open := True, s_control_open := True, s_ready_gate := None\<rparr>\<rparr>"
  using assms by (simp add: peer_up_def check_ready_locked_def lock_def Let_def)

lemma race_await_gate:
  assumes "s_ready_gate (r_state r) = Some gate" and "\<not> s_peer_connected (r_state r)" and "r_gates_fired r = []"
    and "\<not> s_data_open (r_state r)" and "\<not> s_control_open (r_state r)"
  shows "await_gate race_env gate r = (Inr (), peer_up r)"
  using assms
  by (simp add: await_gate_def timeout_rx_def gate_rx_def quick_peer_def peer_up_fires io_eval)

lemma torn_negotiate:
  assumes "torn r"
  shows "\<exists>r'. negotiate race_env (signaling race_env ''s1'' (r_state r)) (r_next_channel r) False None prepared r = (Inr (), r')
    \<and> s_session_id (r_state r') = None \<and> \<not> s_auto_resume_tracks (r_state r') \<and> s_closing (r_state r')"
proof -
  note [simp] = assms [unfolded torn_def]
  have n: "s_sdp_max_attempts (r_state r) = 1" by simp
  let ?r = "r\<lparr>r_next_channel := Suc (r_next_channel r), r_state := (r_state r)\<lparr>s_ready_gate := Some (r_next_channel r),
      s_track_mapping := po_track_mapping prepared, s_connection_id := Some 1000, s_ice_ready := True, s_ice_buffer := []\<rparr>\<rparr>"
  have "negotiate race_env (signaling race_env ''s1'' (r_state r)) (r_next_channel r) False None prepared r
      = await_gate race_env (r_next_channel r) ?r"
    by (simp add: negotiate_def choose_connection_def bindE_def retE_def getE_def modifyE_def attemptE_def Let_def
        race_signaling race_signaling(4) [OF n] flush_ice_def flush_batch_def
        open_gate_def check_ready_locked_def lock_def teardown_error_def quick_peer_def)
  then show ?thesis by (simp add: race_await_gate peer_up_fires)
qed

definition race_waiting :: "nat reactor" where
  "race_waiting = set_status race_env Waiting_s (emit (SessionIdChanged (Some ''s1''))
     (lock (\<lambda>s. s\<lparr>s_session_id := Some ''s1'', s_created_session := True, s_session_info := Some ready_session\<rparr>)
     (begin_connection (lock (connect_begin (Fin 0) ConnectOptions_default) quick_reactor))))"

definition race_accepted :: "nat reactor" where
  "race_accepted = accept_session ready_session (the (capabilities ready_session))
     (snd (disconnect (quick_env Streamed) False race_waiting))"

lemma race_accepted_torn: "torn race_accepted"
  by (simp add: torn_def race_accepted_def race_waiting_def accept_session_def quick_disconnect teardown_clear_def teardown_reset_def
      reset_transport_def fail_pending_def control_fail_all_def data_fail_all_def set_status_def begin_connection_def
      connect_begin_def ConnectOptions_default_def quick_reactor_def Reactor_new_def State_default_def lock_def emit_def
      teardown_begin_def Let_def)

lemma quick_session_fields:
  "session_id ready_session = ''s1''" "extra ready_session = []" "capabilities ready_session \<noteq> None"
  "\<exists>caps. capabilities ready_session = Some caps"
  by (simp_all add: ready_session_def)

lemma race_connect_inner:
  "connect_inner race_env ConnectOptions_default (begin_connection (lock (connect_begin (Fin 0) ConnectOptions_default) quick_reactor))
     = bindE (establish_transport race_env ''s1'' False None) (\<lambda>_. finish_connect race_env) race_accepted"
proof -
  obtain caps where caps: "capabilities ready_session = Some caps" using quick_session_fields(4) by blast
  show ?thesis
    by (simp add: connect_inner_def session_for_connect_def connect_sequential_def race_create [unfolded race_config(1)]
        race_get_session [unfolded race_config(1)] bindE_def retE_def modifyE_def liftE_def Let_def check_generation_def
        generation_def capabilities_of_def ok_or_def race_accepted_def race_waiting_def ConnectOptions_default_def
        quick_session_fields caps)
qed

lemma set_status_keeps:
  "s_auto_resume_tracks (r_state (set_status e st r)) = s_auto_resume_tracks (r_state r)"
  by (simp add: set_status_def lock_def emit_def Let_def)

text \<open>
  C13: a disconnect during a connect can be lost. On a host where another task disconnects while connect
  waits for the session to be ready, connect goes on, reports success and leaves the client ready, with
  the session terminated and no session id, and marked as closing, so its keep-alive will not run.
\<close>

theorem disconnect_during_connect:
  "case connect race_env ConnectOptions_default quick_reactor of (outcome, r) \<Rightarrow>
     outcome = Inr () \<and> status r = Ready_s \<and> s_session_id (r_state r) = None \<and> s_closing (r_state r)"
proof -
  obtain r' where r': "negotiate race_env (signaling race_env ''s1'' (r_state race_accepted)) (r_next_channel race_accepted) False None
        \<lparr> po_sdp_offer = ''offer'', po_track_mapping = [] \<rparr> race_accepted = (Inr (), r')"
    "s_session_id (r_state r') = None" "\<not> s_auto_resume_tracks (r_state r')" "s_closing (r_state r')"
    using torn_negotiate [OF race_accepted_torn] by blast
  have "establish_transport race_env ''s1'' False None race_accepted = (Inr (), r')"
    using r'(1) by (simp add: establish_transport_def finish_transport_def bindE_def getE_def race_signaling quick_peer_def)
  then have inner: "connect_inner race_env ConnectOptions_default
      (begin_connection (lock (connect_begin (Fin 0) ConnectOptions_default) quick_reactor)) = (Inr (), set_status race_env Ready_s r')"
    using r'(3) by (simp add: race_connect_inner bindE_def finish_connect_def modifyE_def getE_def whenE_def retE_def
        set_status_keeps)
  have start: "status quick_reactor = Disconnected_s" "now_ms (e_host race_env) quick_reactor = Fin 0"
    by (simp_all add: quick_reactor_def State_default_def race_env_def Reactor_env_def quick_host_def)
  have "connect race_env ConnectOptions_default quick_reactor = (Inr (), set_status race_env Ready_s r')"
    using inner by (simp add: connect_def on_failure_def bindE_def getE_def modifyE_def attemptE_def retE_def start)
  then show ?thesis using r' by (simp add: set_status_def lock_def emit_def Let_def)
qed

end
