(* ===== verification/Client_Stats.thy ===== *)
theory Client_Stats
  imports Stats
begin

text \<open>
  The client-stats report to the runtime (\<^verbatim>\<open>stats.rs\<close>): the readings of each track and of the
  connection, with the engine's running totals turned into windows. A batch's new baselines are held
  back until \<open>csr_commit\<close> says it went out.
\<close>

section \<open>Names and codecs\<close>

definition MAX_NAME_BYTES :: nat where
  "MAX_NAME_BYTES = 128"

text \<open>\<^verbatim>\<open>str::is_char_boundary\<close>: not inside the UTF-8 encoding of a character.\<close>

definition is_continuation :: "char \<Rightarrow> bool" where
  "is_continuation c \<longleftrightarrow> 128 \<le> (of_char c :: nat) \<and> (of_char c :: nat) < 192"

definition is_char_boundary :: "string \<Rightarrow> nat \<Rightarrow> bool" where
  "is_char_boundary s i \<longleftrightarrow> i = 0 \<or> i = length s \<or> (i < length s \<and> \<not> is_continuation (s ! i))"

fun back_to_boundary :: "string \<Rightarrow> nat \<Rightarrow> nat" where
  "back_to_boundary s 0 = 0"
| "back_to_boundary s (Suc n) = (if is_char_boundary s (Suc n) then Suc n else back_to_boundary s n)"

definition bounded_name :: "string \<Rightarrow> string" where
  "bounded_name value =
     (let value = trim_with (whitespace_seqs @ [[CHR 0x00]]) value
      in take (back_to_boundary value (min (length value) MAX_NAME_BYTES)) value)"

definition client_track_codec :: "wire \<Rightarrow> TrackKind \<Rightarrow> string \<Rightarrow> (string, TrackCodec) result" where
  "client_track_codec w kind codec =
     (case kind of
        Video \<Rightarrow>
          if codec = ''vp8'' then Inr (TC_Video (video_codec_number w Vp8))
          else if codec = ''vp9'' then Inr (TC_Video (video_codec_number w Vp9))
          else if codec = ''av1'' then Inr (TC_Video (video_codec_number w Av1))
          else if codec = ''h264'' then Inr (TC_Video (video_codec_number w H264))
          else if codec = ''h265'' then Inr (TC_Video (video_codec_number w H265))
          else Inl (''unknown video codec: '' @ codec)
      | Audio \<Rightarrow>
          if codec = ''opus'' then Inr (TC_Audio (audio_codec_number w Opus))
          else Inl (''unknown audio codec: '' @ codec))"

definition round_ms :: "f64 \<Rightarrow> f64" where
  "round_ms ms = f64_div_by (f64_round (f64_mul ms (Fin 1000))) 1000"

section \<open>Metrics\<close>

definition put :: "string \<Rightarrow> f64 option \<Rightarrow> metrics \<Rightarrow> metrics" where
  "put key value m =
     (case value of Some v \<Rightarrow> if is_finite v then hm_insert key v m else m | None \<Rightarrow> m)"

definition put_measured :: "string \<Rightarrow> f64 \<Rightarrow> metrics \<Rightarrow> metrics" where
  "put_measured key value m = put key (if f64_lt (Fin 0) value then Some value else None) m"

section \<open>The reporter\<close>

type_synonym StageKey = "bool \<times> u32 \<times> string"

record ByteSample =
  bs_bytes :: u64
  bs_at_ms :: f64

record ClientStatsReporter =
  last_bytes :: "(bool \<times> u32, ByteSample) hmap"
  last_stage_totals :: "(StageKey, f64 \<times> u64) hmap"
  last_timing_frame :: "(u32, u32) hmap"
  pending_bytes :: "((bool \<times> u32) \<times> ByteSample) list"
  pending_stage_totals :: "(StageKey \<times> (f64 \<times> u64) option) list"
  pending_timing_frames :: "(u32 \<times> u32) list"

definition ClientStatsReporter_new :: ClientStatsReporter where
  "ClientStatsReporter_new = \<lparr> last_bytes = [], last_stage_totals = [], last_timing_frame = [],
     pending_bytes = [], pending_stage_totals = [], pending_timing_frames = [] \<rparr>"

definition csr_stage :: "StageKey \<Rightarrow> f64 \<Rightarrow> u64 \<Rightarrow> ClientStatsReporter \<Rightarrow> FrameStage list \<times> ClientStatsReporter" where
  "csr_stage key seconds frames r =
     (if \<not> is_finite seconds then ([], r\<lparr>pending_stage_totals := pending_stage_totals r @ [(key, None)]\<rparr>)
      else
        (case hm_get (last_stage_totals r) key of
           None \<Rightarrow> []
         | Some (seconds_before, frames_before) \<Rightarrow>
             if frames \<le> frames_before \<or> f64_lt seconds seconds_before then []
             else [\<lparr> fs_name = snd (snd key), fs_total_ms = f64_mul (f64_sub seconds seconds_before) (Fin 1000),
                     fs_frames = frames - frames_before, fs_part_of = [] \<rparr>],
         r\<lparr>pending_stage_totals := pending_stage_totals r @ [(key, Some (seconds, frames))]\<rparr>))"

definition timing_stage :: "string \<times> f64 \<Rightarrow> FrameStage" where
  "timing_stage e = \<lparr> fs_name = fst e, fs_total_ms = snd e, fs_frames = 1, fs_part_of = [] \<rparr>"

definition timing_frame_stages ::
    "u32 \<Rightarrow> TimingFrame option \<Rightarrow> ClientStatsReporter \<Rightarrow> FrameStage list \<times> ClientStatsReporter" where
  "timing_frame_stages ssrc timing r =
     (case timing of
        None \<Rightarrow> ([], r)
      | Some t \<Rightarrow>
          (if hm_get (last_timing_frame r) ssrc = Some (rtp_timestamp t) then []
           else map timing_stage (filter (\<lambda>(_, ms). is_finite ms \<and> f64_le (Fin 0) ms)
             [(''encode_wait'', encode_wait_ms t), (''packetize'', packetize_ms t), (''pacer'', pacer_ms t)]),
           r\<lparr>pending_timing_frames := pending_timing_frames r @ [(ssrc, rtp_timestamp t)]\<rparr>))"

definition csr_bitrate :: "bool \<times> u32 \<Rightarrow> u64 \<Rightarrow> f64 \<Rightarrow> ClientStatsReporter \<Rightarrow> f64 option \<times> ClientStatsReporter" where
  "csr_bitrate key bytes now r =
     (case hm_get (last_bytes r) key of
        None \<Rightarrow> None
      | Some previous \<Rightarrow>
          if f64_le now (bs_at_ms previous) \<or> bytes < bs_bytes previous then None
          else
            let bits = f64_mul (f64_of_u64 (bytes - bs_bytes previous)) (Fin 8)
            in Some (f64_round (f64_div (f64_mul bits (Fin 1000)) (f64_sub now (bs_at_ms previous)))),
      r\<lparr>pending_bytes := pending_bytes r @ [(key, \<lparr> bs_bytes = bytes, bs_at_ms = now \<rparr>)]\<rparr>)"

definition csr_commit :: "ClientStatsReporter \<Rightarrow> ClientStatsReporter" where
  "csr_commit r = r\<lparr>
     last_bytes := fold (\<lambda>(key, sample). hm_insert key sample) (pending_bytes r) (last_bytes r),
     last_stage_totals := fold (\<lambda>(key, totals). case totals of
         Some totals \<Rightarrow> hm_insert key totals | None \<Rightarrow> hm_remove key) (pending_stage_totals r) (last_stage_totals r),
     last_timing_frame := fold (\<lambda>(ssrc, stamp). hm_insert ssrc stamp) (pending_timing_frames r) (last_timing_frame r),
     pending_bytes := [], pending_stage_totals := [], pending_timing_frames := []\<rparr>"

section \<open>The readings of a track\<close>

text \<open>\<^verbatim>\<open>split('/').nth(1)\<close>: the second part, if there is a slash.\<close>

definition second_part :: "string \<Rightarrow> string option" where
  "second_part s = map_option (\<lambda>(_, rest). split_first (\<lambda>c. c = CHR ''/'') rest) (split_once ''/'' s)"

definition resolve_stream ::
    "wire \<Rightarrow> TrackMappingEntry list \<Rightarrow> TrackDirection \<Rightarrow> string option \<Rightarrow> string option \<Rightarrow>
       (TrackMappingEntry \<times> TrackCodec) option" where
  "resolve_stream w mapping direction mid mime_type =
     Option.bind mid (\<lambda>mid.
     Option.bind (find (\<lambda>t. tm_mid t = mid \<and> tm_direction t = direction) mapping) (\<lambda>track.
     Option.bind mime_type (\<lambda>mime.
     Option.bind (second_part mime) (\<lambda>name.
       case client_track_codec w (tm_kind track) (to_ascii_lowercase name) of
         Inr codec \<Rightarrow> Some (track, codec)
       | Inl _ \<Rightarrow> None))))"

definition track_stat ::
    "wire \<Rightarrow> TrackMappingEntry \<Rightarrow> TrackCodec \<Rightarrow> string option \<Rightarrow> bool option \<Rightarrow> string set \<Rightarrow> metrics \<Rightarrow>
       FrameStage list \<Rightarrow> f64 \<Rightarrow> ClientTrackStat" where
  "track_stat w track codec impl_name hardware paused m stages now =
     (let video = (tm_kind track = Video)
      in \<lparr> cts_timestamp = f64_as_i64 now, cts_track_name = tm_name track,
           cts_kind = (case tm_kind track of Video \<Rightarrow> kind_video w | Audio \<Rightarrow> kind_audio w),
           cts_direction = (case tm_direction track of
               Recvonly \<Rightarrow> direction_recvonly w | Sendonly \<Rightarrow> direction_sendonly w),
           cts_codec = Some codec, cts_paused = (tm_name track \<in> paused), cts_metrics = m,
           cts_frame_stages = stages,
           cts_codec_implementation = (case impl_name of
               Some name \<Rightarrow> if video then bounded_name name else [] | None \<Rightarrow> []),
           cts_hardware_codec = (if video then hardware else None) \<rparr>)"

definition inbound_metrics :: "TrackKind \<Rightarrow> InboundRtpStats \<Rightarrow> f64 option \<Rightarrow> metrics" where
  "inbound_metrics kind s bitrate =
     (let m = put ''bitrate_bps'' bitrate [];
          m = put ''packets_received'' (Some (f64_of_u32 (in_packets_received s))) m;
          m = put ''packets_lost'' (Some (f64_of_int (in_packets_lost s))) m;
          m = put ''jitter_ms'' (Some (round_ms (f64_mul (in_jitter_s s) (Fin 1000)))) m;
          m = put ''nack_count'' (Some (f64_of_u32 (in_nack_count s))) m
      in if kind = Video then
           let m = put_measured ''frames_per_second'' (in_frames_per_second s) m;
               m = put ''frames_decoded'' (Some (f64_of_u32 (in_frames_decoded s))) m;
               m = put ''frames_dropped'' (Some (f64_of_u32 (in_frames_dropped s))) m;
               m = put_measured ''frame_width'' (f64_of_u32 (in_frame_width s)) m;
               m = put_measured ''frame_height'' (f64_of_u32 (in_frame_height s)) m
           in put ''keyframe_requests'' (Some (f64_add (f64_of_u32 (in_pli_count s)) (f64_of_u32 (in_fir_count s)))) m
         else
           let m = put ''concealed_samples'' (Some (f64_of_u64 (in_concealed_samples s))) m
           in put ''total_samples_received'' (Some (f64_of_u64 (in_total_samples_received s))) m)"

definition outbound_metrics :: "TrackKind \<Rightarrow> OutboundRtpStats \<Rightarrow> f64 option \<Rightarrow> metrics" where
  "outbound_metrics kind s bitrate =
     (let heard = f64_lt (Fin 0) (out_round_trip_time_s s);
          m = put ''bitrate_bps'' bitrate [];
          m = put ''packets_sent'' (Some (f64_of_u64 (out_packets_sent s))) m;
          m = put ''retransmitted_packets_sent'' (Some (f64_of_u64 (out_retransmitted_packets_sent s))) m;
          m = put ''nack_count'' (Some (f64_of_u32 (out_nack_count s))) m;
          m = (if heard \<or> out_packets_lost s \<noteq> 0
               then put ''packets_lost'' (Some (f64_of_int (out_packets_lost s))) m else m);
          m = (if heard \<or> f64_lt (Fin 0) (out_jitter_s s)
               then put ''jitter_ms'' (Some (round_ms (f64_mul (out_jitter_s s) (Fin 1000)))) m else m);
          m = (if heard
               then put ''round_trip_time_ms'' (Some (round_ms (f64_mul (out_round_trip_time_s s) (Fin 1000)))) m else m)
      in if kind = Video then
           let m = put_measured ''frames_per_second'' (out_frames_per_second s) m;
               m = put ''frames_encoded'' (Some (f64_of_u32 (out_frames_encoded s))) m;
               m = put_measured ''frame_width'' (f64_of_u32 (out_frame_width s)) m;
               m = put_measured ''frame_height'' (f64_of_u32 (out_frame_height s)) m
           in put ''keyframe_requests'' (Some (f64_add (f64_of_u32 (out_pli_count s)) (f64_of_u32 (out_fir_count s)))) m
         else m)"

text \<open>The engine's stages of a stream; only a video track has any.\<close>

definition inbound_stages ::
    "TrackKind \<Rightarrow> InboundRtpStats \<Rightarrow> ClientStatsReporter \<Rightarrow> FrameStage list \<times> ClientStatsReporter" where
  "inbound_stages kind s r =
     (if kind = Video then
        let (timing, r) = timing_frame_stages (in_ssrc s) (in_timing_frame s) r;
            (jitter, r) = csr_stage (True, in_ssrc s, ''jitter_buffer'') (in_jitter_buffer_delay_s s)
              (in_jitter_buffer_emitted_count s) r;
            (decode, r) = csr_stage (True, in_ssrc s, ''decode'') (in_total_decode_time_s s) (ucast (in_frames_decoded s)) r
        in (timing @ jitter @ decode, r)
      else ([], r))"

definition outbound_stages ::
    "TrackKind \<Rightarrow> OutboundRtpStats \<Rightarrow> ClientStatsReporter \<Rightarrow> FrameStage list \<times> ClientStatsReporter" where
  "outbound_stages kind s r =
     (if kind = Video
      then csr_stage (False, out_ssrc s, ''encode'') (out_total_encode_time_s s) (ucast (out_frames_encoded s)) r
      else ([], r))"

text \<open>
  The two loops of \<open>track_stats\<close>. Each carries the reporter, the media ids already seen, by direction,
  and the readings so far.
\<close>

type_synonym track_state = "ClientStatsReporter \<times> (bool \<times> string) list \<times> ClientTrackStat list"

fun inbound_track ::
    "wire \<Rightarrow> TrackMappingEntry list \<Rightarrow> string set \<Rightarrow> f64 \<Rightarrow> InboundRtpStats \<Rightarrow> track_state \<Rightarrow> track_state" where
  "inbound_track w mapping paused now s (r, seen, stats) =
     (case resolve_stream w mapping Recvonly (in_mid s) (in_codec_mime_type s) of
        None \<Rightarrow> (r, seen, stats)
      | Some (track, codec) \<Rightarrow>
          if (True, tm_mid track) \<in> set seen then (r, seen, stats)
          else
            let (bitrate, r) = csr_bitrate (True, in_ssrc s) (in_bytes_received s) now r;
                m = inbound_metrics (tm_kind track) s bitrate;
                (stages, r) = inbound_stages (tm_kind track) s r
            in (r, (True, tm_mid track) # seen,
                stats @ [track_stat w track codec (in_decoder_implementation s) (in_power_efficient_decoder s)
                  paused m stages now]))"

fun outbound_track ::
    "wire \<Rightarrow> TrackMappingEntry list \<Rightarrow> string set \<Rightarrow> f64 \<Rightarrow> OutboundRtpStats \<Rightarrow> track_state \<Rightarrow> track_state" where
  "outbound_track w mapping paused now s (r, seen, stats) =
     (case resolve_stream w mapping Sendonly (out_mid s) (out_codec_mime_type s) of
        None \<Rightarrow> (r, seen, stats)
      | Some (track, codec) \<Rightarrow>
          if (False, tm_mid track) \<in> set seen then (r, seen, stats)
          else
            let (bitrate, r) = csr_bitrate (False, out_ssrc s) (out_bytes_sent s) now r;
                m = outbound_metrics (tm_kind track) s bitrate;
                (stages, r) = outbound_stages (tm_kind track) s r
            in (r, (False, tm_mid track) # seen,
                stats @ [track_stat w track codec (out_encoder_implementation s) (out_power_efficient_encoder s)
                  paused m stages now]))"

definition track_stats ::
    "wire \<Rightarrow> TransportStats \<Rightarrow> TrackMappingEntry list \<Rightarrow> string set \<Rightarrow> f64 \<Rightarrow> ClientStatsReporter \<Rightarrow>
       ClientTrackStat list \<times> ClientStatsReporter" where
  "track_stats w raw mapping paused now r =
     (let r = r\<lparr>pending_bytes := [], pending_stage_totals := [], pending_timing_frames := []\<rparr>;
          (r, seen, stats) = fold (inbound_track w mapping paused now) (inbound raw) (r, [], []);
          (r, seen, stats) = fold (outbound_track w mapping paused now) (outbound raw) (r, seen, stats)
      in (stats, r))"

section \<open>The connection's reading\<close>

definition client_connection_stat ::
    "TransportStats \<Rightarrow> f64 option \<Rightarrow> ClientEnvironment \<Rightarrow> f64 \<Rightarrow> ClientConnectionStat" where
  "client_connection_stat raw time_to_connect_ms environment now =
     (let m = (case live_pair (candidate_pairs raw) of
            Some pair \<Rightarrow>
              put_measured ''connection_rtt_ms'' (round_ms (f64_mul (cp_current_round_trip_time_s pair) (Fin 1000)))
              (put_measured ''available_incoming_bitrate_bps'' (cp_available_incoming_bitrate_bps pair)
              (put_measured ''available_outgoing_bitrate_bps'' (cp_available_outgoing_bitrate_bps pair) []))
          | None \<Rightarrow> [])
      in \<lparr> ccs_timestamp = f64_as_i64 now,
           ccs_metrics = put ''time_to_connect_ms'' (map_option round_ms time_to_connect_ms) m,
           ccs_environment = Some environment, ccs_message_stages = [] \<rparr>)"

section \<open>Names keep within the limit\<close>

lemma back_to_boundary_spec:
  "back_to_boundary s n \<le> n \<and> is_char_boundary s (back_to_boundary s n)
   \<and> (\<forall>k. k \<le> n \<and> is_char_boundary s k \<longrightarrow> k \<le> back_to_boundary s n)"
proof (induction n)
  case (Suc n)
  then show ?case by (auto simp: le_Suc_eq)
qed (simp add: is_char_boundary_def)

lemma bounded_name_length: "length (bounded_name value) \<le> MAX_NAME_BYTES"
proof -
  let ?v = "trim_with (whitespace_seqs @ [[CHR 0x00]]) value"
  have "back_to_boundary ?v (min (length ?v) MAX_NAME_BYTES) \<le> MAX_NAME_BYTES"
    using back_to_boundary_spec [of ?v "min (length ?v) MAX_NAME_BYTES"] by simp
  then show ?thesis by (simp add: bounded_name_def Let_def)
qed

section \<open>The contract of a reporter\<close>

text \<open>
  A reporter's batch depends on its baselines alone, which only a batch that went out moves: building
  another batch in between leaves no trace in the next one.
\<close>

locale batch_reporter =
  fixes report :: "'i \<Rightarrow> 'r \<Rightarrow> 'o \<times> 'r"
  assumes overwritten: "report x (snd (report y r)) = report x r"
begin

lemma unsent_run: "report x (fold (\<lambda>y r. snd (report y r)) ys r) = report x r"
  by (induction ys arbitrary: r) (simp_all add: overwritten)

end

abbreviation clear_pending :: "ClientStatsReporter \<Rightarrow> ClientStatsReporter" where
  "clear_pending r \<equiv> r\<lparr>pending_bytes := [], pending_stage_totals := [], pending_timing_frames := []\<rparr>"

lemma csr_parts_keep:
  "clear_pending (snd (csr_stage key seconds frames r)) = clear_pending r"
  "clear_pending (snd (csr_bitrate bkey bytes now r)) = clear_pending r"
  "clear_pending (snd (timing_frame_stages ssrc timing r)) = clear_pending r"
  by (auto simp: csr_stage_def csr_bitrate_def timing_frame_stages_def split: option.split)

lemma stream_stages_keep:
  "clear_pending (snd (inbound_stages kind s r)) = clear_pending r"
  "clear_pending (snd (outbound_stages kind t r)) = clear_pending r"
  by (simp_all add: inbound_stages_def outbound_stages_def Let_def case_prod_unfold csr_parts_keep)

lemma track_loops_keep:
  "clear_pending (fst (inbound_track w mapping paused now s acc)) = clear_pending (fst acc)"
  "clear_pending (fst (outbound_track w mapping paused now t acc)) = clear_pending (fst acc)"
  by (cases acc; simp add: Let_def case_prod_unfold csr_parts_keep stream_stages_keep split: option.split)+

lemma track_stats_keep: "clear_pending (snd (track_stats w raw mapping paused now r)) = clear_pending r"
proof -
  let ?i = "fold (inbound_track w mapping paused now) (inbound raw) (clear_pending r, [], [])"
  have "clear_pending (fst (fold (outbound_track w mapping paused now) (outbound raw) ?i)) = clear_pending r"
    using fold_fst_keeps [of clear_pending "outbound_track w mapping paused now" "outbound raw" ?i]
      fold_fst_keeps [of clear_pending "inbound_track w mapping paused now" "inbound raw" "(clear_pending r, [], [])"]
    by (simp add: track_loops_keep)
  then show ?thesis by (simp add: track_stats_def Let_def case_prod_unfold)
qed

lemma track_stats_cong:
  "clear_pending r = clear_pending r' \<Longrightarrow> track_stats w raw mapping paused now r = track_stats w raw mapping paused now r'"
  by (simp add: track_stats_def)

interpretation csr: batch_reporter "\<lambda>(raw, mapping, paused, now). track_stats w raw mapping paused now"
  by unfold_locales (auto intro!: track_stats_cong simp: track_stats_keep split: prod.split)

lemma engine_stages_pending:
  "\<exists>p. snd (engine_stages chunking m) = m\<lparr>msr_pending := p\<rparr>"
  "engine_stages chunking (m\<lparr>msr_pending := p\<rparr>) = engine_stages chunking m"
  by (auto simp: engine_stages_def Let_def split: prod.split option.split)

interpretation msr: batch_reporter engine_stages
proof
  fix x y m
  show "engine_stages x (snd (engine_stages y m)) = engine_stages x m"
    using engine_stages_pending(1) [of y m] by (auto simp: engine_stages_pending(2))
qed

text \<open>
  C33: a batch that does not go out loses nothing. However many batches were built and not sent before
  it, the next one is the batch that would have been built had they never been: the same readings over
  the whole window, for the tracks and for the data channel.
\<close>

theorem unsent_batches:
  "track_stats w raw mapping paused now
      (fold (\<lambda>(raw, mapping, paused, now) r. snd (track_stats w raw mapping paused now r)) unsent r)
    = track_stats w raw mapping paused now r
   \<and> engine_stages chunking (fold (\<lambda>c m. snd (engine_stages c m)) others m) = engine_stages chunking m"
  using csr.unsent_run [of w "(raw, mapping, paused, now)" unsent r] msr.unsent_run [of chunking others m]
  by (simp add: case_prod_unfold)

section \<open>Windows of a stage\<close>

text \<open>The batches of a connection, as one stage of one stream sees them: its totals, and whether the batch went out.\<close>

definition csr_batch ::
    "StageKey \<Rightarrow> ClientStatsReporter \<Rightarrow> (rat \<times> u64) \<times> bool \<Rightarrow> FrameStage list \<times> ClientStatsReporter" where
  "csr_batch key r b =
     (case b of ((seconds, frames), sent) \<Rightarrow>
      case csr_stage key (Fin seconds) frames (clear_pending r) of (stages, r) \<Rightarrow>
        if sent then (stages, csr_commit r) else ([], r))"

lemma csr_batch_step:
  assumes "hm_get (last_stage_totals r) key = Some (Fin x0, f0)" and "x0 \<le> x" and "f0 \<le> f"
    and "csr_batch key r ((x, f), sent) = (stages, r')"
  shows "hm_get (last_stage_totals r') key = Some (if sent then (Fin x, f) else (Fin x0, f0))
    \<and> sum_list (map (\<lambda>s. unat (fs_frames s)) stages) = (if sent then unat f - unat f0 else 0)"
  using assms
  by (auto simp: csr_batch_def csr_stage_def csr_commit_def unat_sub word_le_nat_alt split: if_splits)

text \<open>
  C34: every frame is counted once. While a stage's totals do not go back, the frames the batches that
  went out report for it add up to what its total grew by, from the baseline to the last batch sent,
  whichever of the batches between were not sent.
\<close>

theorem frames_counted_once:
  assumes "hm_get (last_stage_totals r) key = Some (Fin x0, f0)"
    and "sorted (x0 # map (\<lambda>b. fst (fst b)) batches)" and "sorted (f0 # map (\<lambda>b. snd (fst b)) batches)"
    and "run_ops (csr_batch key) r batches = (stages, r')"
  shows "\<exists>x f. hm_get (last_stage_totals r') key = Some (Fin x, f) \<and> f0 \<le> f
    \<and> sum_list (map (\<lambda>s. unat (fs_frames s)) stages) = unat f - unat f0
    \<and> (x, f) = last ((x0, f0) # map fst (filter snd batches))"
  using assms
proof (induction batches arbitrary: r x0 f0 stages)
  case (Cons b bs)
  obtain x f sent where b: "b = ((x, f), sent)" by (metis surj_pair)
  obtain st r1 st' where run: "csr_batch key r b = (st, r1)" "run_ops (csr_batch key) r1 bs = (st', r')" "stages = st @ st'"
    using Cons.prems(4) by (auto split: prod.splits)
  have le: "x0 \<le> x" "f0 \<le> f" using Cons.prems(2,3) b by auto
  define x1 f1 where "x1 = (if sent then x else x0)" and "f1 = (if sent then f else f0)"
  have base: "hm_get (last_stage_totals r1) key = Some (Fin x1, f1)"
    and sum: "sum_list (map (\<lambda>s. unat (fs_frames s)) st) = unat f1 - unat f0"
    using csr_batch_step [OF Cons.prems(1) le run(1) [unfolded b]] by (auto simp: x1_def f1_def)
  have "sorted (x1 # map (\<lambda>b. fst (fst b)) bs)" "sorted (f1 # map (\<lambda>b. snd (fst b)) bs)" and f1: "f0 \<le> f1"
    using Cons.prems(2,3) b le by (auto simp: x1_def f1_def)
  from Cons.IH [OF base this(1,2) run(2)] obtain x' f' where
    "hm_get (last_stage_totals r') key = Some (Fin x', f')" "f1 \<le> f'"
    "sum_list (map (\<lambda>s. unat (fs_frames s)) st') = unat f' - unat f1"
    "(x', f') = last ((x1, f1) # map fst (filter snd bs))" by blast
  with sum f1 run(3) b show ?case
    by (intro exI [of _ x'] exI [of _ f']) (auto simp: x1_def f1_def word_le_nat_alt)
qed simp

theorem frames_counted_once_witness:
  "sum_list (map (\<lambda>s. unat (fs_frames s)) (fst (run_ops (csr_batch (True, 1, ''decode''))
     (ClientStatsReporter_new\<lparr>last_stage_totals := [((True, 1, ''decode''), (Fin 0, 0))]\<rparr>)
     [((1, 10), True), ((2, 20), False), ((3, 30), True)]))) = 30"
proof -
  let ?r = "ClientStatsReporter_new\<lparr>last_stage_totals := [((True, 1, ''decode''), (Fin 0, 0))]\<rparr>"
  let ?bs = "[((1, 10), True), ((2, 20), False), ((3, 30), True)] :: ((rat \<times> u64) \<times> bool) list"
  let ?m = "run_ops (csr_batch (True, 1, ''decode'')) ?r ?bs"
  have "hm_get (last_stage_totals ?r) (True, 1, ''decode'') = Some (Fin 0, 0)" by (simp add: hm_get_def)
  from frames_counted_once [OF this, of ?bs "fst ?m" "snd ?m"] show ?thesis by auto
qed

end
