(* ===== verification/Reactor_Stats.thy ===== *)
theory Reactor_Stats
  imports Reactor_Lifecycle Client_Stats
begin

text \<open>
  The reactor's statistics (\<^verbatim>\<open>reactor.rs\<close>): \<open>get_stats\<close>, and the task that reports client stats to the
  runtime for the lifetime of a connection.
\<close>

section \<open>Reading statistics\<close>

definition get_stats :: "'w env \<Rightarrow> ('w reactor, ConnectionStats) io" where
  "get_stats e =
     bindE (readE s_status) (\<lambda>st.
     if st \<noteq> Ready_s
     then failE (InvalidState (''no connection to read statistics from (status: '' @ ReactorStatus_as_str st @ '')''))
     else
       bindE (peer_get_stats (e_peer e)) (\<lambda>raw.
       (\<lambda>r. case sample raw (now_ms (e_host e) r) (r_stats r) of (stats, baseline) \<Rightarrow>
          (Inr stats, r\<lparr>r_stats := baseline\<rparr>))))"

definition client_environment :: "'w env \<Rightarrow> ClientEnvironment" where
  "client_environment e =
     (let client = cfg_client_info (e_coordinator e); platform = platform_info (e_peer e)
      in \<lparr> env_sdk_type = bounded_name (sdk_type client), env_sdk_version = bounded_name (sdk_version client),
           env_os = bounded_name (pi_os platform), env_os_version = bounded_name (pi_os_version platform),
           env_arch = bounded_name (pi_arch platform), env_device_model = bounded_name (pi_device_model platform) \<rparr>)"

section \<open>The report\<close>

text \<open>The stages of a track with no reading in the batch are returned, for a batch that has one.\<close>

fun add_sdk_stages ::
    "ClientTrackStat list \<Rightarrow> (string, FrameStage list) hmap \<Rightarrow> ClientTrackStat list \<times> (string, FrameStage list) hmap" where
  "add_sdk_stages [] sdk = ([], sdk)"
| "add_sdk_stages (stat # stats) sdk =
     (case hm_get sdk (cts_track_name stat) of
        Some stages \<Rightarrow>
          (case add_sdk_stages stats (hm_remove (cts_track_name stat) sdk) of (stats, sdk) \<Rightarrow>
            (stat\<lparr>cts_frame_stages := sort_stages (cts_frame_stages stat @ stages)\<rparr> # stats, sdk))
      | None \<Rightarrow> (case add_sdk_stages stats sdk of (stats, sdk) \<Rightarrow> (stat # stats, sdk)))"

text \<open>The orders in which the maps of stage times are listed, and the variables of the reporting task.\<close>

record stats_orders =
  so_stages :: "(string \<times> f64 \<times> u64) iter"
  so_tracks :: "(string \<times> FrameStage list) iter"
  so_messages :: "(string \<times> f64 \<times> u64) iter"

record reporting =
  rp_reporter :: ClientStatsReporter
  rp_message_reporter :: MessageStageReporter
  rp_sent_connect_time :: bool
  rp_sent_environment :: bool

definition give_back_stages ::
    "stats_orders \<Rightarrow> u64 \<Rightarrow> u64 \<Rightarrow> (string, FrameStage list) hmap \<Rightarrow> MessageStage list \<Rightarrow> 'w reactor \<Rightarrow> 'w reactor" where
  "give_back_stages ord gen mgen sdk_stages sdk_messages r =
     r\<lparr>r_stage_times := st_give_back (so_tracks ord) gen sdk_stages (r_stage_times r),
       r_message_times := mt_give_back mgen sdk_messages (r_message_times r)\<rparr>"

text \<open>
  The batch built from one reading of the engine, with the stages already taken: what to send, the
  reporters as the batch leaves them, and the stages no track of it carries.
\<close>

definition build_batch ::
    "'w env \<Rightarrow> ClientEnvironment \<Rightarrow> TransportStats \<Rightarrow> f64 option \<Rightarrow> f64 \<Rightarrow> (string, FrameStage list) hmap \<Rightarrow>
       MessageStage list \<Rightarrow> reporting \<Rightarrow> State \<Rightarrow>
       ClientTrackStat list \<times> ClientConnectionStat \<times> (string, FrameStage list) hmap \<times> reporting" where
  "build_batch e environment raw time_to_connect_ms now sdk_stages sdk_messages p s =
     (let (ts, reporter) = track_stats (e_wire e) raw (s_track_mapping s) (s_paused_tracks s) now (rp_reporter p);
          (ts, unmatched) = add_sdk_stages ts sdk_stages;
          (engine, message_reporter) = engine_stages (data_chunking raw) (rp_message_reporter p);
          cs = (client_connection_stat raw time_to_connect_ms environment now)
                 \<lparr>ccs_message_stages := sort_message_stages (engine @ sdk_messages)\<rparr>
      in (ts, cs, unmatched, p\<lparr>rp_reporter := reporter, rp_message_reporter := message_reporter\<rparr>))"

definition batch_sent :: "bool \<Rightarrow> reporting \<Rightarrow> reporting" where
  "batch_sent with_connect_time p = p\<lparr>rp_reporter := csr_commit (rp_reporter p),
     rp_message_reporter := msr_commit (rp_message_reporter p),
     rp_sent_connect_time := rp_sent_connect_time p \<or> with_connect_time, rp_sent_environment := True\<rparr>"

text \<open>One batch, from the readings on: \<^const>\<open>None\<close> ends the task.\<close>

definition client_stats_batch ::
    "stats_orders \<Rightarrow> 'w env \<Rightarrow> u64 \<Rightarrow> u64 \<Rightarrow> ClientEnvironment \<Rightarrow> TransportStats \<Rightarrow> reporting \<Rightarrow>
       ('w reactor, reporting option) io" where
  "client_stats_batch ord e gen mgen environment raw p = (\<lambda>r.
     let connect_ms = (if rp_sent_connect_time p then None else s_time_to_connect_ms (r_state r));
         now = now_ms (e_host e) r
     in case st_take_from (so_stages ord) gen (r_stage_times r) of
          None \<Rightarrow> (Inr None, r)
        | Some (sdk_stages, st) \<Rightarrow>
            (case mt_take_from (so_messages ord) mgen (r_message_times r) of
               None \<Rightarrow> (Inr None, r\<lparr>r_stage_times := st_give_back (so_tracks ord) gen sdk_stages st\<rparr>)
             | Some (sdk_messages, mt) \<Rightarrow>
                 (case build_batch e environment raw connect_ms now sdk_stages sdk_messages p (r_state r) of
                    (ts, cs, unmatched, p) \<Rightarrow>
                      let r = r\<lparr>r_stage_times := st, r_message_times := mt\<rparr>
                      in if ts = [] \<and> ccs_metrics cs = [] \<and> ccs_message_stages cs = [] \<and> rp_sent_environment p
                         then (Inr (Some p), give_back_stages ord gen mgen sdk_stages sdk_messages r)
                         else bindE (attemptE (client_stats e ts (Some cs))) (\<lambda>outcome.
                           case outcome of
                             Inr _ \<Rightarrow>
                               bindE (modifyE (\<lambda>r. r\<lparr>r_stage_times := st_give_back (so_tracks ord) gen unmatched (r_stage_times r)\<rparr>)) (\<lambda>_.
                               retE (Some (batch_sent (connect_ms \<noteq> None) p)))
                           | Inl _ \<Rightarrow>
                               bindE (modifyE (give_back_stages ord gen mgen sdk_stages sdk_messages)) (\<lambda>_.
                               retE (Some p))) r)))"

definition client_stats_pass ::
    "stats_orders \<Rightarrow> 'w env \<Rightarrow> u64 \<Rightarrow> u64 \<Rightarrow> u64 \<Rightarrow> ClientEnvironment \<Rightarrow> reporting \<Rightarrow> ('w reactor, reporting option) io" where
  "client_stats_pass ord e epoch gen mgen environment p =
     bindE (modifyE (sleep (e_host e) (opt_client_stats_interval (e_options e)))) (\<lambda>_.
     bindE (readE (heartbeat_current epoch)) (\<lambda>current.
     if \<not> current then retE None
     else
       bindE (attemptE (peer_get_stats (e_peer e))) (\<lambda>read.
       case read of
         Inl _ \<Rightarrow> retE (Some p)
       | Inr raw \<Rightarrow>
           bindE (readE (heartbeat_current epoch)) (\<lambda>current.
           if \<not> current then retE None
           else client_stats_batch ord e gen mgen environment raw p))))"

partial_function (option) client_stats_loop ::
    "stats_orders \<Rightarrow> 'w env \<Rightarrow> u64 \<Rightarrow> u64 \<Rightarrow> u64 \<Rightarrow> ClientEnvironment \<Rightarrow> reporting \<Rightarrow> 'w reactor \<Rightarrow> 'w reactor option" where
  [code]: "client_stats_loop ord e epoch gen mgen environment p r =
     (case client_stats_pass ord e epoch gen mgen environment p r of
        (Inr (Some p'), r') \<Rightarrow> client_stats_loop ord e epoch gen mgen environment p' r'
      | (_, r') \<Rightarrow> Some r')"

definition run_client_stats :: "stats_orders \<Rightarrow> 'w env \<Rightarrow> 'w reactor \<Rightarrow> 'w reactor option" where
  "run_client_stats ord e r =
     (if opt_client_stats_interval (e_options e) = 0 then Some r
      else client_stats_loop ord e (s_heartbeat_epoch (r_state r)) (st_generation (r_stage_times r))
        (mt_generation (r_message_times r)) (client_environment e)
        \<lparr> rp_reporter = ClientStatsReporter_new, rp_message_reporter = MessageStageReporter_new,
          rp_sent_connect_time = False, rp_sent_environment = False \<rparr> r)"

section \<open>The task among the others\<close>

lemma runs_get_stats: "rely e \<Longrightarrow> preserves (get_stats e) (trace e r0)"
  unfolding get_stats_def
  by (intro inv_intros) (auto intro!: runs_step trace_beside simp: beside_def case_prod_unfold)

lemma runs_stats_batch: "rely e \<Longrightarrow> preserves (client_stats_batch ord e gen mgen environment raw p) (trace e r0)"
proof (rule runs_step)
  fix r assume "rely e"
  have given: "trace e r (give_back_stages ord gen mgen ws ms r)" for ws ms r
    by (rule trace_beside) (simp add: give_back_stages_def beside_def)
  have "preserves (bindE (attemptE (client_stats e ts (Some cs))) (\<lambda>outcome.
      case outcome of
        Inr _ \<Rightarrow> bindE (modifyE (\<lambda>r. r\<lparr>r_stage_times := st_give_back (so_tracks ord) gen unmatched (r_stage_times r)\<rparr>)) (\<lambda>_. retE (Some q))
      | Inl _ \<Rightarrow> bindE (modifyE (give_back_stages ord gen mgen ws ms)) (\<lambda>_. retE (Some q')))) (trace e r0)"
    for ts cs unmatched ws ms q q' r0
    by (intro inv_intros runs_control_ops [OF \<open>rely e\<close>] runs_modify given)
      (rule trace_beside, simp add: beside_def)
  then have send: "trace e r' (snd (bindE (attemptE (client_stats e ts (Some cs))) (\<lambda>outcome.
      case outcome of
        Inr _ \<Rightarrow> bindE (modifyE (\<lambda>r. r\<lparr>r_stage_times := st_give_back (so_tracks ord) gen unmatched (r_stage_times r)\<rparr>)) (\<lambda>_. retE (Some q))
      | Inl _ \<Rightarrow> bindE (modifyE (give_back_stages ord gen mgen ws ms)) (\<lambda>_. retE (Some q'))) r'))"
    for ts cs unmatched ws ms q q' r' by (rule run_trace)
  have "trace e r (r\<lparr>r_stage_times := st, r_message_times := mt\<rparr>)" for st mt
    by (rule trace_beside) (simp add: beside_def)
  then show "trace e r (snd (client_stats_batch ord e gen mgen environment raw p r))"
    by (auto simp: client_stats_batch_def Let_def intro: trace_trans [OF _ send] trace_trans [OF _ given]
        trace_beside [of r] simp: beside_def split: option.split prod.split)
qed

lemma runs_stats_pass:
  "rely e \<Longrightarrow> preserves (client_stats_pass ord e epoch gen mgen environment p) (trace e r0)"
  unfolding client_stats_pass_def by (intro inv_intros runs_stats_batch)

section \<open>Stages are sent or kept\<close>

lemma mset_concat_remove:
  "hm_ok m \<Longrightarrow> hm_get m k = Some v \<Longrightarrow>
   mset (concat (map snd m)) = mset v + mset (concat (map snd (hm_remove k m)))"
proof (induction m)
  case (Cons kv m)
  have "hm_remove k m = m" if "k \<notin> fst ` set m"
    using that by (force simp: hm_remove_def intro!: filter_True)
  with Cons show ?case by (cases kv) (auto simp: hm_ok_def hm_get_def hm_remove_def)
qed simp

lemma add_sdk_stages_conserve:
  assumes "hm_ok sdk" and "add_sdk_stages ts sdk = (ts', unmatched)"
  shows "mset (concat (map cts_frame_stages ts')) + mset (concat (map snd unmatched))
      = mset (concat (map cts_frame_stages ts)) + mset (concat (map snd sdk))
    \<and> set (map fst unmatched) \<inter> set (map cts_track_name ts) = {} \<and> set (map fst unmatched) \<subseteq> set (map fst sdk)"
  using assms
proof (induction ts arbitrary: sdk ts')
  case (Cons t ts)
  show ?case
  proof (cases "hm_get sdk (cts_track_name t)")
    case None
    then have fresh: "cts_track_name t \<notin> set (map fst sdk)" by (simp add: hm_get_def map_of_eq_None_iff)
    obtain ts'' where rest: "add_sdk_stages ts sdk = (ts'', unmatched)" "ts' = t # ts''"
      using Cons.prems(2) None by (auto split: prod.splits)
    with Cons.IH [OF Cons.prems(1) rest(1)] fresh show ?thesis by auto
  next
    case (Some stages)
    let ?sdk = "hm_remove (cts_track_name t) sdk"
    obtain ts'' where rest: "add_sdk_stages ts ?sdk = (ts'', unmatched)"
      "ts' = t\<lparr>cts_frame_stages := sort_stages (cts_frame_stages t @ stages)\<rparr> # ts''"
      using Cons.prems(2) Some by (auto split: prod.splits)
    have keys: "set (map fst ?sdk) = set (map fst sdk) - {cts_track_name t}" by (force simp: hm_remove_def)
    show ?thesis
      using Cons.IH [OF hm_ok_remove [OF Cons.prems(1)] rest(1)] mset_concat_remove [OF Cons.prems(1) Some] keys
      by (auto simp: rest(2) sort_stages_def)
  qed
qed simp

lemma taken_stages_ok:
  "st_good t \<Longrightarrow> st_take_from it gen t = Some (ws, t') \<Longrightarrow> hm_ok ws"
  by (auto simp: st_take_from_def st_good_def hm_ok_def comp_def case_prod_unfold split: if_splits)

lemma attempt_client_stats:
  "attemptE (client_stats e ts cs) r =
     (case peer_send_control (e_peer e) (control_notification (e_wire e) (CC_ClientStats ts cs)) (r_world r) of
        (res, w) \<Rightarrow> (Inr res, r\<lparr>r_world := w\<rparr>))"
  by (simp add: client_stats_def notificationE_def world_resultE_def worldE_def attemptE_def bindE_def liftE_def retE_def failE_def
      split: prod.split sum.split)

text \<open>The batch a reporting task would build from a reading.\<close>

abbreviation next_batch :: "wire \<Rightarrow> TransportStats \<Rightarrow> TrackMappingEntry list \<Rightarrow> string set \<Rightarrow> f64 \<Rightarrow> reporting \<Rightarrow>
    ClientTrackStat list \<times> MessageStage list" where
  "next_batch w raw mapping paused now p \<equiv>
     (fst (track_stats w raw mapping paused now (rp_reporter p)), fst (engine_stages (data_chunking raw) (rp_message_reporter p)))"

lemma build_batch_reporters:
  assumes "build_batch e environment raw connect_ms now ws ms p s = (ts, cs, unmatched, p')"
  shows "next_batch w raw' mapping paused now' p' = next_batch w raw' mapping paused now' p"
    and "rp_sent_connect_time p' = rp_sent_connect_time p" and "rp_sent_environment p' = rp_sent_environment p"
    and "\<exists>ts0. add_sdk_stages ts0 ws = (ts, unmatched)"
proof -
  let ?t = "track_stats (e_wire e) raw (s_track_mapping s) (s_paused_tracks s) now (rp_reporter p)"
  let ?m = "engine_stages (data_chunking raw) (rp_message_reporter p)"
  have p': "rp_reporter p' = snd ?t" "rp_message_reporter p' = snd ?m"
    and "rp_sent_connect_time p' = rp_sent_connect_time p" "rp_sent_environment p' = rp_sent_environment p"
    and "add_sdk_stages (fst ?t) ws = (ts, unmatched)"
    using assms by (auto simp: build_batch_def Let_def split: prod.splits)
  then show "rp_sent_connect_time p' = rp_sent_connect_time p" "rp_sent_environment p' = rp_sent_environment p"
    "\<exists>ts0. add_sdk_stages ts0 ws = (ts, unmatched)" by blast+
  have "track_stats w raw' mapping paused now' (snd ?t) = track_stats w raw' mapping paused now' (rp_reporter p)"
    by (rule track_stats_cong) (rule track_stats_keep)
  then show "next_batch w raw' mapping paused now' p' = next_batch w raw' mapping paused now' p"
    using msr.overwritten by (simp add: p')
qed

text \<open>
  C32: no stage time is lost between two batches. Each pass that goes on either leaves everything as it
  was, the stage times the SDK keeps and what the next batch will report, or the runtime's channel took
  a batch that carries every frame stage taken for it but those of tracks it has no reading for, which
  are kept for the next one.
\<close>

theorem stages_sent_or_kept:
  assumes "st_good (r_stage_times r)" and "mt_good (r_message_times r)"
    and "client_stats_batch ord e gen mgen environment raw p r = (Inr (Some p'), r')"
  shows "(st_reading (r_stage_times r') = st_reading (r_stage_times r)
        \<and> mt_reading (r_message_times r') = mt_reading (r_message_times r)
        \<and> next_batch w raw' mapping paused now p' = next_batch w raw' mapping paused now p
        \<and> rp_sent_connect_time p' = rp_sent_connect_time p \<and> rp_sent_environment p' = rp_sent_environment p)
    \<or> (\<exists>ts cs ws st unmatched.
        peer_send_control (e_peer e) (control_notification (e_wire e) (CC_ClientStats ts (Some cs))) (r_world r)
          = (Inr (), r_world r')
        \<and> st_take_from (so_stages ord) gen (r_stage_times r) = Some (ws, st)
        \<and> mset (concat (map snd ws)) \<subseteq># mset (concat (map cts_frame_stages ts)) + mset (concat (map snd unmatched))
        \<and> set (map fst unmatched) \<inter> set (map cts_track_name ts) = {}
        \<and> r_stage_times r' = st_give_back (so_tracks ord) gen unmatched st \<and> rp_sent_environment p')"
proof -
  let ?ms = "if rp_sent_connect_time p then None else s_time_to_connect_ms (r_state r)"
  obtain ws st ms mt where took: "st_take_from (so_stages ord) gen (r_stage_times r) = Some (ws, st)"
    "mt_take_from (so_messages ord) mgen (r_message_times r) = Some (ms, mt)"
    using assms(3) by (auto simp: client_stats_batch_def Let_def split: option.splits)
  obtain ts cs unmatched q where built:
    "build_batch e environment raw ?ms (now_ms (e_host e) r) ws ms p (r_state r) = (ts, cs, unmatched, q)"
    by (metis surj_pair)
  note restored = st_restore [OF assms(1) took(1), of "so_tracks ord"] mt_restore [OF assms(2) took(2)]
  note q = build_batch_reporters [OF built]
  obtain ts0 where added: "add_sdk_stages ts0 ws = (ts, unmatched)" using q(4) by blast
  note conserve = add_sdk_stages_conserve [OF taken_stages_ok [OF assms(1) took(1)] added]
  have names: "map cts_track_name ts = map cts_track_name ts0"
    using added by (induction ts0 arbitrary: ws ts) (auto split: option.splits prod.splits)
  show ?thesis
  proof (cases "ts = [] \<and> ccs_metrics cs = [] \<and> ccs_message_stages cs = [] \<and> rp_sent_environment q")
    case True
    then show ?thesis using assms(3) took built restored q
      by (auto simp: client_stats_batch_def Let_def give_back_stages_def)
  next
    case False
    obtain res w' where res: "peer_send_control (e_peer e) (control_notification (e_wire e) (CC_ClientStats ts (Some cs)))
        (r_world r) = (res, w')" by fastforce
    show ?thesis
    proof (cases res)
      case (Inl err)
      then show ?thesis using assms(3) took built restored q False res
        by (auto simp: client_stats_batch_def Let_def give_back_stages_def bindE_def attempt_client_stats modifyE_def retE_def)
    next
      case (Inr u)
      then have "peer_send_control (e_peer e) (control_notification (e_wire e) (CC_ClientStats ts (Some cs))) (r_world r)
          = (Inr (), r_world r')" "r_stage_times r' = st_give_back (so_tracks ord) gen unmatched st" "rp_sent_environment p'"
        using assms(3) took built False res
        by (auto simp: client_stats_batch_def Let_def bindE_def attempt_client_stats modifyE_def retE_def batch_sent_def)
      moreover have "mset (concat (map snd ws)) \<subseteq># mset (concat (map cts_frame_stages ts)) + mset (concat (map snd unmatched))"
        using conserve by simp
      ultimately show ?thesis using took(1) conserve names by metis
    qed
  qed
qed

definition refusing_env :: "nat env" where
  "refusing_env = (quick_env Streamed)\<lparr>e_peer := quick_peer\<lparr>peer_send_control := (\<lambda>_ w. (Inl Aborted, w))\<rparr>\<rparr>"

definition timed_reactor :: "nat reactor" where
  "timed_reactor = quick_reactor\<lparr>r_stage_times := st_add ''cam'' SUBMIT (Fin 1) StageTimes_new\<rparr>"

definition list_orders :: stats_orders where
  "list_orders = \<lparr> so_stages = in_order, so_tracks = in_order, so_messages = in_order \<rparr>"

definition new_reporting :: reporting where
  "new_reporting = \<lparr> rp_reporter = ClientStatsReporter_new, rp_message_reporter = MessageStageReporter_new,
     rp_sent_connect_time = False, rp_sent_environment = False \<rparr>"

lemma timed_reactor_times:
  "r_stage_times timed_reactor = \<lparr> st_totals = [(''cam'', [(SUBMIT, Fin 1, 1)])], st_generation = 0 \<rparr>"
  "r_message_times timed_reactor = MessageTimes_new"
  by (simp_all add: timed_reactor_def quick_reactor_def Reactor_new_def st_add_def StageTimes_new_def add_to_def add_entry_def
      hm_insert_def)

theorem stages_sent_or_kept_witness:
  "st_reading (r_stage_times (snd (client_stats_batch list_orders refusing_env 0 0 (client_environment refusing_env)
     (sample_transport 0) new_reporting timed_reactor))) (''cam'', SUBMIT) = Some (Fin 1, 1)"
proof -
  let ?m = "client_stats_batch list_orders refusing_env 0 0 (client_environment refusing_env)
     (sample_transport 0) new_reporting timed_reactor"
  have "st_good (r_stage_times timed_reactor)" "mt_good (r_message_times timed_reactor)"
    by (simp_all add: timed_reactor_times st_good_def mt_good_def entries_good_def hm_ok_def valid_ms_def STAGES_def
        MessageTimes_new_def)
  moreover have "\<exists>q. fst ?m = Inr (Some q)"
    by (auto simp: client_stats_batch_def timed_reactor_times list_orders_def st_take_from_def mt_take_from_def
        MessageTimes_new_def bindE_def attempt_client_stats modifyE_def retE_def refusing_env_def new_reporting_def
        Let_def split: prod.split)
  then obtain q where "?m = (Inr (Some q), snd ?m)" by (metis prod.collapse)
  moreover have "peer_send_control (e_peer refusing_env) payload w \<noteq> (Inr (), w')" for payload w w'
    by (simp add: refusing_env_def)
  ultimately have "st_reading (r_stage_times (snd ?m)) = st_reading (r_stage_times timed_reactor)"
    using stages_sent_or_kept [of timed_reactor list_orders refusing_env 0 0 _ _ _ q "snd ?m"] by metis
  then show ?thesis by (simp add: timed_reactor_times st_reading_def hm_get_def)
qed

end
