(* ===== verification/Audio_Input.thy ===== *)
theory Audio_Input
  imports Prelude
begin

text \<open>
  The assembly of captured PCM into the 10 ms blocks the audio device module takes
  (\<^verbatim>\<open>reactor-ffi/src/audio_input.rs\<close>). Samples are 16 bits wide, the format is kept at the
  width of the source, and a push returns the blocks it delivered in order, each with its
  format. \<^const>\<open>None\<close> is a panic: the subtraction that fills a partial block underflows, or a
  slice is cut into chunks of no samples. Both are shown never to happen.
\<close>

section \<open>Definitions\<close>

type_synonym pcm = "u16 list"
type_synonym audio_format = "u32 \<times> u32"
type_synonym audio_block = "pcm \<times> u32 \<times> u32"

definition supported_format :: "u32 \<Rightarrow> u32 \<Rightarrow> bool" where
  "supported_format sample_rate channels \<longleftrightarrow>
     sample_rate \<in> {8000, 16000, 24000, 32000, 44100, 48000} \<and> channels \<in> {1, 2}"

record AudioInput =
  ai_format :: "audio_format option"
  ai_pending :: pcm

definition AudioInput_default :: AudioInput where
  "AudioInput_default = \<lparr> ai_format = None, ai_pending = [] \<rparr>"

text \<open>The standard library's \<^verbatim>\<open>chunks_exact\<close> with its \<^verbatim>\<open>remainder\<close>; it panics on chunks of no elements.\<close>

fun chunks_exact :: "nat \<Rightarrow> 'a list \<Rightarrow> 'a list list \<times> 'a list" where
  "chunks_exact n xs =
     (if n = 0 \<or> length xs < n then ([], xs)
      else let (bs, r) = chunks_exact n (drop n xs) in (take n xs # bs, r))"

declare chunks_exact.simps [simp del]

definition block_samples :: "u32 \<Rightarrow> u32 \<Rightarrow> nat" where
  "block_samples sample_rate channels = unat (sample_rate div 100 * channels)"

definition switch_format :: "audio_format \<Rightarrow> AudioInput \<Rightarrow> AudioInput" where
  "switch_format fmt self =
     (if ai_format self \<noteq> Some fmt then self\<lparr> ai_format := Some fmt, ai_pending := [] \<rparr> else self)"

definition fill_pending :: "nat \<Rightarrow> pcm \<Rightarrow> AudioInput \<Rightarrow> (AudioInput \<times> pcm \<times> pcm list) option" where
  "fill_pending block samples self =
     (if ai_pending self = [] then Some (self, samples, [])
      else if block < length (ai_pending self) then None
      else let n = min (block - length (ai_pending self)) (length samples);
               filled = ai_pending self @ take n samples
           in if length filled = block then Some (self\<lparr> ai_pending := [] \<rparr>, drop n samples, [filled])
              else Some (self\<lparr> ai_pending := filled \<rparr>, drop n samples, []))"

definition audio_push :: "pcm \<Rightarrow> u32 \<Rightarrow> u32 \<Rightarrow> AudioInput \<Rightarrow> (AudioInput \<times> audio_block list) option" where
  "audio_push samples sample_rate channels self =
     (if \<not> supported_format sample_rate channels \<or> length samples mod unat channels \<noteq> 0 then Some (self, [])
      else if samples = [] then Some (self, [])
      else let block = block_samples sample_rate channels;
               self = switch_format (sample_rate, channels) self
           in case fill_pending block samples self of
                None \<Rightarrow> None
              | Some (self, samples, filled) \<Rightarrow>
                  if block = 0 then None
                  else let (blocks, remainder) = chunks_exact block samples
                       in Some (self\<lparr> ai_pending := ai_pending self @ remainder \<rparr>,
                                map (\<lambda>b. (b, sample_rate, channels)) (filled @ blocks)))"

text \<open>A host pushing one buffer after the other, with the blocks delivered on the way.\<close>

type_synonym audio_call = "pcm \<times> u32 \<times> u32"

fun audio_pushes :: "audio_call list \<Rightarrow> AudioInput \<Rightarrow> (AudioInput \<times> audio_block list) option" where
  "audio_pushes [] self = Some (self, [])"
| "audio_pushes ((samples, sample_rate, channels) # cs) self =
     (case audio_push samples sample_rate channels self of
        None \<Rightarrow> None
      | Some (self, out) \<Rightarrow>
          (case audio_pushes cs self of
             None \<Rightarrow> None
           | Some (self, later) \<Rightarrow> Some (self, out @ later)))"

section \<open>Specification\<close>

text \<open>
  What the host said: the accepted buffers, joined as long as the format stays the same. A
  buffer is accepted if its format is supported and it holds whole interleaved frames.
\<close>

definition accepted :: "audio_call \<Rightarrow> bool" where
  "accepted c = (case c of (samples, r, ch) \<Rightarrow>
     supported_format r ch \<and> length samples mod unat ch = 0 \<and> samples \<noteq> [])"

definition add_call :: "(audio_format \<times> pcm) list \<Rightarrow> audio_call \<Rightarrow> (audio_format \<times> pcm) list" where
  "add_call ss c = (case c of (samples, fmt) \<Rightarrow>
     if \<not> accepted c then ss
     else if ss \<noteq> [] \<and> fst (last ss) = fmt then butlast ss @ [(fmt, snd (last ss) @ samples)]
     else ss @ [(fmt, samples)])"

definition streams :: "audio_call list \<Rightarrow> (audio_format \<times> pcm) list" where
  "streams cs = foldl add_call [] cs"

definition stream_blocks :: "audio_format \<times> pcm \<Rightarrow> audio_block list" where
  "stream_blocks s = (case s of ((r, ch), samples) \<Rightarrow>
     map (\<lambda>b. (b, r, ch)) (fst (chunks_exact (block_samples r ch) samples)))"

definition stream_rest :: "audio_format \<times> pcm \<Rightarrow> pcm" where
  "stream_rest s = (case s of ((r, ch), samples) \<Rightarrow> snd (chunks_exact (block_samples r ch) samples))"

section \<open>Chunks\<close>

lemma chunks_exact_concat: "concat (fst (chunks_exact n xs)) @ snd (chunks_exact n xs) = xs"
  by (induction n xs rule: chunks_exact.induct) (subst (1 2) chunks_exact.simps, auto simp: split_beta Let_def)

lemma chunks_exact_length: "b \<in> set (fst (chunks_exact n xs)) \<Longrightarrow> length b = n"
  by (induction n xs rule: chunks_exact.induct)
    (subst (asm) (2) chunks_exact.simps, auto simp: split_beta Let_def split: if_splits)

lemma chunks_exact_rest: "0 < n \<Longrightarrow> length (snd (chunks_exact n xs)) < n"
  by (induction n xs rule: chunks_exact.induct) (subst chunks_exact.simps, auto simp: split_beta Let_def)

lemma chunks_exact_short: "length xs < n \<Longrightarrow> chunks_exact n xs = ([], xs)"
  by (subst chunks_exact.simps) simp

lemma chunks_exact_one: "length xs = n \<Longrightarrow> 0 < n \<Longrightarrow> chunks_exact n (xs @ ys) =
  (let (bs, r) = chunks_exact n ys in (xs # bs, r))"
  by (subst chunks_exact.simps) simp

text \<open>Cutting a longer list starts from the remainder of the shorter one.\<close>

lemma chunks_exact_append:
  assumes "0 < n"
  shows "chunks_exact n (xs @ ys) =
    (fst (chunks_exact n xs) @ fst (chunks_exact n (snd (chunks_exact n xs) @ ys)),
     snd (chunks_exact n (snd (chunks_exact n xs) @ ys)))"
  using assms
proof (induction n xs rule: chunks_exact.induct)
  case (1 n xs)
  show ?case
  proof (cases "length xs < n")
    case True
    then show ?thesis by (simp add: chunks_exact_short)
  next
    case False
    have x: "xs = take n xs @ drop n xs" and l: "length (take n xs) = n" using False by auto
    have e: "chunks_exact n (xs @ ys) = (let (bs, r) = chunks_exact n (drop n xs @ ys) in (take n xs # bs, r))"
      using chunks_exact_one [OF l "1.prems", of "drop n xs @ ys"] x by (metis append.assoc)
    have e': "chunks_exact n xs = (let (bs, r) = chunks_exact n (drop n xs) in (take n xs # bs, r))"
      using chunks_exact_one [OF l "1.prems", of "drop n xs"] x by metis
    show ?thesis
      using "1.IH" False "1.prems" unfolding e e' by (simp add: split_beta Let_def)
  qed
qed

section \<open>Pushes refine the streams\<close>

lemma block_samples_pos: "supported_format r ch \<Longrightarrow> 0 < block_samples r ch"
  by (auto simp: supported_format_def block_samples_def)

lemma fill_then_chunk:
  assumes "0 < n" and "length (ai_pending self) < n"
  shows "\<exists>self' rest filled. fill_pending n samples self = Some (self', rest, filled)
     \<and> ai_format self' = ai_format self
     \<and> (filled @ fst (chunks_exact n rest), ai_pending self' @ snd (chunks_exact n rest))
         = chunks_exact n (ai_pending self @ samples)"
proof -
  let ?p = "ai_pending self" and ?k = "min (n - length (ai_pending self)) (length samples)"
  consider "?p = []" | "?p \<noteq> []" "length samples < n - length ?p" | "?p \<noteq> []" "n - length ?p \<le> length samples"
    by linarith
  then show ?thesis
  proof cases
    case 1
    then show ?thesis by (simp add: fill_pending_def)
  next
    case 2
    then show ?thesis using assms by (auto simp: fill_pending_def Let_def chunks_exact_short)
  next
    case 3
    have l: "length (?p @ take (n - length ?p) samples) = n" using 3 assms by simp
    have "chunks_exact n (?p @ samples) = (let (bs, r) = chunks_exact n (drop (n - length ?p) samples)
        in ((?p @ take (n - length ?p) samples) # bs, r))"
      using chunks_exact_one [OF l assms(1), of "drop (n - length ?p) samples"] by simp
    then show ?thesis using 3 assms by (simp add: fill_pending_def Let_def split_beta min_absorb1)
  qed
qed

text \<open>The input holds the part of the last stream that does not fill a block yet.\<close>

definition holds_rest :: "AudioInput \<Rightarrow> (audio_format \<times> pcm) list \<Rightarrow> bool" where
  "holds_rest ai ss \<longleftrightarrow>
     (if ss = [] then ai = AudioInput_default
      else ai_format ai = Some (fst (last ss)) \<and> ai_pending ai = stream_rest (last ss)
        \<and> supported_format (fst (fst (last ss))) (snd (fst (last ss))))"

lemma audio_push_accepted:
  assumes "accepted (samples, r, ch)"
    and p: "if ai_format ai = Some (r, ch) then ai_pending ai = p \<and> length p < block_samples r ch else p = []"
  shows "audio_push samples r ch ai =
    Some (\<lparr> ai_format = Some (r, ch), ai_pending = snd (chunks_exact (block_samples r ch) (p @ samples)) \<rparr>,
          map (\<lambda>b. (b, r, ch)) (fst (chunks_exact (block_samples r ch) (p @ samples))))"
proof -
  let ?n = "block_samples r ch" and ?ai = "switch_format (r, ch) ai"
  have n: "0 < ?n" using assms(1) block_samples_pos by (auto simp: accepted_def)
  have ai: "ai_format ?ai = Some (r, ch)" "ai_pending ?ai = p"
    using p by (auto simp: switch_format_def split: if_splits)
  have l: "length (ai_pending ?ai) < ?n" using p n ai by (auto split: if_splits)
  obtain ai' rest filled where f: "fill_pending ?n samples ?ai = Some (ai', rest, filled)"
    and ai': "ai_format ai' = Some (r, ch)"
    and c: "(filled @ fst (chunks_exact ?n rest), ai_pending ai' @ snd (chunks_exact ?n rest)) = chunks_exact ?n (p @ samples)"
    using fill_then_chunk [OF n l] ai by metis
  have g: "supported_format r ch" "length samples mod unat ch = 0" "samples \<noteq> []"
    using assms(1) by (auto simp: accepted_def)
  show ?thesis
    using g f n ai' unfolding c [symmetric] by (cases ai') (simp add: audio_push_def Let_def split_beta)
qed

lemma push_streams:
  assumes "holds_rest ai ss"
  shows "\<exists>ai' out. audio_push samples r ch ai = Some (ai', out) \<and> holds_rest ai' (add_call ss (samples, r, ch))
    \<and> concat (map stream_blocks ss) @ out = concat (map stream_blocks (add_call ss (samples, r, ch)))"
proof (cases "accepted (samples, r, ch)")
  case False
  then have "audio_push samples r ch ai = Some (ai, [])" by (auto simp: accepted_def audio_push_def)
  then show ?thesis using assms False by (simp add: add_call_def)
next
  case True
  then have sup: "supported_format r ch" by (simp add: accepted_def)
  let ?n = "block_samples r ch"
  have n: "0 < ?n" using sup block_samples_pos by blast
  show ?thesis
  proof (cases "ss \<noteq> [] \<and> fst (last ss) = (r, ch)")
    case False
    then have "ai_format ai \<noteq> Some (r, ch)" using assms by (auto simp: holds_rest_def AudioInput_default_def split: if_splits)
    then have "audio_push samples r ch ai =
      Some (\<lparr> ai_format = Some (r, ch), ai_pending = snd (chunks_exact ?n samples) \<rparr>,
          map (\<lambda>b. (b, r, ch)) (fst (chunks_exact ?n samples)))"
      using audio_push_accepted [OF True, of ai "[]"] by simp
    moreover have "add_call ss (samples, r, ch) = ss @ [((r, ch), samples)]"
      using True False by (auto simp: add_call_def)
    ultimately show ?thesis using sup by (simp add: holds_rest_def stream_rest_def stream_blocks_def)
  next
    case same: True
    then obtain ps s where ss: "ss = ps @ [((r, ch), s)]"
      by (metis append_butlast_last_id prod.collapse)
    have h: "ai_format ai = Some (r, ch)" "ai_pending ai = snd (chunks_exact ?n s)"
      using assms ss by (auto simp: holds_rest_def stream_rest_def)
    have "audio_push samples r ch ai =
      Some (\<lparr> ai_format = Some (r, ch), ai_pending = snd (chunks_exact ?n (s @ samples)) \<rparr>,
          map (\<lambda>b. (b, r, ch)) (fst (chunks_exact ?n (snd (chunks_exact ?n s) @ samples))))"
      using audio_push_accepted [OF True, of ai "snd (chunks_exact ?n s)"] h chunks_exact_rest [OF n, of s]
      by (simp add: chunks_exact_append [OF n, of s samples])
    moreover have "add_call ss (samples, r, ch) = ps @ [((r, ch), s @ samples)]"
      using True by (simp add: add_call_def ss)
    ultimately show ?thesis
      using sup by (simp add: ss holds_rest_def stream_rest_def stream_blocks_def chunks_exact_append [OF n, of s samples])
  qed
qed

lemma pushes_streams:
  "holds_rest ai ss \<Longrightarrow> \<exists>ai' out. audio_pushes cs ai = Some (ai', out) \<and> holds_rest ai' (foldl add_call ss cs)
    \<and> concat (map stream_blocks ss) @ out = concat (map stream_blocks (foldl add_call ss cs))"
proof (induction cs arbitrary: ai ss)
  case (Cons c cs)
  obtain samples r ch where c: "c = (samples, r, ch)" by (cases c)
  obtain ai1 out1 where 1: "audio_push samples r ch ai = Some (ai1, out1)" "holds_rest ai1 (add_call ss c)"
    "concat (map stream_blocks ss) @ out1 = concat (map stream_blocks (add_call ss c))"
    using push_streams [OF Cons.prems] c by metis
  obtain ai2 out2 where 2: "audio_pushes cs ai1 = Some (ai2, out2)" "holds_rest ai2 (foldl add_call (add_call ss c) cs)"
    "concat (map stream_blocks (add_call ss c)) @ out2 = concat (map stream_blocks (foldl add_call (add_call ss c) cs))"
    using Cons.IH [OF 1(2)] by metis
  have "concat (map stream_blocks ss) @ out1 @ out2 = concat (map stream_blocks (foldl add_call (add_call ss c) cs))"
    using 1(3) 2(3) by (metis append.assoc)
  then show ?case using 1(1) 2(1,2) c by simp
qed simp

lemma streams_supported: "((r, ch), s) \<in> set (streams cs) \<Longrightarrow> supported_format r ch"
proof -
  have "\<forall>x \<in> set ss. supported_format (fst (fst x)) (snd (fst x)) \<Longrightarrow>
    \<forall>x \<in> set (foldl add_call ss cs). supported_format (fst (fst x)) (snd (fst x))" for ss
  proof (induction cs arbitrary: ss)
    case (Cons c cs)
    have "\<forall>x \<in> set (butlast ss). supported_format (fst (fst x)) (snd (fst x))"
      using Cons.prems by (meson in_set_butlastD)
    then have "\<forall>x \<in> set (add_call ss c). supported_format (fst (fst x)) (snd (fst x))"
      using Cons.prems by (cases c) (simp add: add_call_def accepted_def)
    then show ?case using Cons.IH by simp
  qed simp
  from this [of "[]"] show "((r, ch), s) \<in> set (streams cs) \<Longrightarrow> supported_format r ch"
    by (auto simp: streams_def)
qed

lemma stream_cut:
  "concat (map fst (stream_blocks ((r, ch), s))) @ stream_rest ((r, ch), s) = s"
  "supported_format r ch \<Longrightarrow> length (stream_rest ((r, ch), s)) < block_samples r ch"
  "(b, f) \<in> set (stream_blocks ((r, ch), s)) \<Longrightarrow> length b = block_samples r ch"
  "(b, f) \<in> set (stream_blocks ((r, ch), s)) \<Longrightarrow> f = (r, ch)"
  using chunks_exact_concat [of "block_samples r ch" s] chunks_exact_rest [OF block_samples_pos, of r ch s]
  by (auto simp: stream_blocks_def stream_rest_def comp_def chunks_exact_length)

section \<open>Properties\<close>

text \<open>
  C18: The audio input never panics, and whatever buffers the host pushes, in whatever
  sizes and formats, the blocks it delivered are exactly the consecutive 10 ms blocks of each stream
  of the same format, in order and with that format; what it still holds is the rest of the last
  stream, less than a block, so no sample is lost, repeated or reordered within a stream, and of a
  stream that ended only an unfilled block is dropped. Refused buffers leave no trace.
\<close>

theorem audio_blocks_of_streams:
  "\<exists>ai out. audio_pushes cs AudioInput_default = Some (ai, out)
     \<and> out = concat (map stream_blocks (streams cs))
     \<and> ai_pending ai = (if streams cs = [] then [] else stream_rest (last (streams cs)))
     \<and> (\<forall>(r, ch) \<in> fst ` set (streams cs). supported_format r ch)
     \<and> (\<forall>((r, ch), s) \<in> set (streams cs).
          concat (map fst (stream_blocks ((r, ch), s))) @ stream_rest ((r, ch), s) = s
          \<and> length (stream_rest ((r, ch), s)) < block_samples r ch
          \<and> (\<forall>(b, f) \<in> set (stream_blocks ((r, ch), s)). length b = block_samples r ch \<and> f = (r, ch)))"
proof -
  have "holds_rest AudioInput_default []" by (simp add: holds_rest_def)
  from pushes_streams [OF this, of cs] obtain ai out where
    p: "audio_pushes cs AudioInput_default = Some (ai, out)" "holds_rest ai (streams cs)"
      "out = concat (map stream_blocks (streams cs))"
    by (auto simp: streams_def)
  have "ai_pending ai = (if streams cs = [] then [] else stream_rest (last (streams cs)))"
    using p(2) by (auto simp: holds_rest_def AudioInput_default_def split: if_splits)
  moreover have "\<forall>((r, ch), s) \<in> set (streams cs).
          concat (map fst (stream_blocks ((r, ch), s))) @ stream_rest ((r, ch), s) = s
          \<and> length (stream_rest ((r, ch), s)) < block_samples r ch
          \<and> (\<forall>(b, f) \<in> set (stream_blocks ((r, ch), s)). length b = block_samples r ch \<and> f = (r, ch))"
    using streams_supported by (auto intro!: stream_cut)
  moreover have "\<forall>(r, ch) \<in> fst ` set (streams cs). supported_format r ch"
    using streams_supported by auto
  ultimately show ?thesis using p by (intro exI [of _ ai] exI [of _ out] conjI) assumption+
qed

definition sample_calls :: "audio_call list" where
  "sample_calls = [(replicate 50 1, 8000, 1), (replicate 200 2, 8000, 1), (replicate 7 3, 7000, 1),
     (replicate 480 4, 48000, 2), (replicate 500 5, 48000, 2)]"

theorem audio_blocks_of_streams_witness:
  "\<exists>ai. audio_pushes sample_calls AudioInput_default =
     Some (ai, [(replicate 50 1 @ replicate 30 2, 8000, 1), (replicate 80 2, 8000, 1), (replicate 80 2, 8000, 1),
                (replicate 480 4 @ replicate 480 5, 48000, 2)])
   \<and> ai_pending ai = replicate 20 5"
proof -
  have s: "streams sample_calls = [((8000, 1), replicate 50 1 @ replicate 200 2), ((48000, 2), replicate 480 4 @ replicate 500 5)]"
    by code_simp
  have b: "concat (map stream_blocks (streams sample_calls)) =
    [(replicate 50 1 @ replicate 30 2, 8000, 1), (replicate 80 2, 8000, 1), (replicate 80 2, 8000, 1),
     (replicate 480 4 @ replicate 480 5, 48000, 2)]"
    and r: "stream_rest (last (streams sample_calls)) = replicate 20 5" by code_simp+
  show ?thesis using audio_blocks_of_streams [of sample_calls] s b r by auto
qed

end
