(* ===== verification/Callbacks.thy ===== *)
theory Callbacks
  imports Prelude
begin

text \<open>
  The gate in front of the host's callback pointers (\<^verbatim>\<open>CallbackGate\<close> of
  \<^verbatim>\<open>reactor-ffi/src/callbacks.rs\<close>). Any number of threads enter the gate to run a callback, drop
  the guard when it returned, and retire the gate to learn whether the pointers may be released.
  The model is a machine whose steps are the points at which the threads can interleave: taking the
  mutex, the accesses to the atomic flag, which is read under the mutex and cleared without it, the
  changes of the counts, waiting on the condition variable, which releases the mutex, and waking
  up again. A wait ends by a notification, by its timeout or for no reason at all. A step that has
  to wait for the mutex is not enabled.

  \<open>guards\<close> (the guards each thread holds) and \<open>results\<close> (what the calls of \<^verbatim>\<open>retire\<close> returned) record
  what the threads did; no step depends on them but that a guard must exist to be dropped. A guard
  is dropped on the thread that entered. Counts are natural numbers: each stands for a callback on a
  thread's stack. A subtraction below zero is the section \<open>Panicked\<close>, shown never to be reached.
\<close>

section \<open>Definitions\<close>

type_synonym tid = nat

datatype Quiescence = Complete | Incomplete

datatype gate_section =
    Running
  | Enter_Load | Enter_Add
  | Leave_Sub | Leave_Notify
  | Retire_Lock | Retire_Check nat | Retire_Waiting nat | Retire_Notified nat | Retire_Timed_Out nat
  | Panicked

record CallbackGate =
  gate_open :: bool
  gate_lock :: "tid option"
  in_flight :: "(tid, nat) hmap"
  at_section :: "tid \<Rightarrow> gate_section"
  guards :: "tid \<Rightarrow> nat"
  results :: "(tid \<times> Quiescence) list"

definition CallbackGate_new :: CallbackGate where
  "CallbackGate_new = \<lparr> gate_open = True, gate_lock = None, in_flight = [],
     at_section = (\<lambda>_. Running), guards = (\<lambda>_. 0), results = [] \<rparr>"

definition total_in_flight :: "(tid, nat) hmap \<Rightarrow> nat" where
  "total_in_flight m = sum_list (map snd m)"

definition own_count :: "tid \<Rightarrow> (tid, nat) hmap \<Rightarrow> nat" where
  "own_count t m = (case hm_get m t of Some n \<Rightarrow> n | None \<Rightarrow> 0)"

text \<open>The mutex: a thread goes on in a section that holds it, or releases it.\<close>

definition go :: "tid \<Rightarrow> gate_section \<Rightarrow> CallbackGate \<Rightarrow> CallbackGate" where
  "go t s g = g\<lparr> at_section := (at_section g)(t := s) \<rparr>"

definition lock_gate :: "tid \<Rightarrow> gate_section \<Rightarrow> CallbackGate \<Rightarrow> CallbackGate option" where
  "lock_gate t s g = (if gate_lock g = None then Some (go t s (g\<lparr> gate_lock := Some t \<rparr>)) else None)"

definition unlock_gate :: "tid \<Rightarrow> gate_section \<Rightarrow> CallbackGate \<Rightarrow> CallbackGate" where
  "unlock_gate t s g = go t s (g\<lparr> gate_lock := None \<rparr>)"

text \<open>\<^verbatim>\<open>enter\<close>: the flag is loaded under the mutex, then the thread is counted in.\<close>

definition enter_load :: "tid \<Rightarrow> CallbackGate \<Rightarrow> CallbackGate" where
  "enter_load t g = (if \<not> gate_open g then unlock_gate t Running g else go t Enter_Add g)"

definition enter_add :: "tid \<Rightarrow> CallbackGate \<Rightarrow> CallbackGate" where
  "enter_add t g = unlock_gate t Running
     (g\<lparr> in_flight := hm_insert t (own_count t (in_flight g) + 1) (in_flight g),
        guards := (guards g)(t := guards g t + 1) \<rparr>)"

text \<open>\<^verbatim>\<open>drop\<close> of a guard: counted out under the mutex, then every waiting thread is notified.\<close>

definition leave_sub :: "tid \<Rightarrow> CallbackGate \<Rightarrow> CallbackGate" where
  "leave_sub t g = (let g' = g\<lparr> guards := (guards g)(t := guards g t - 1) \<rparr> in
     case hm_get (in_flight g) t of
       None \<Rightarrow> unlock_gate t Leave_Notify g'
     | Some n \<Rightarrow>
         if n = 0 then go t Panicked g'
         else unlock_gate t Leave_Notify
           (g'\<lparr> in_flight := (if n - 1 = 0 then hm_remove t (in_flight g) else hm_insert t (n - 1) (in_flight g)) \<rparr>))"

definition notified :: "gate_section \<Rightarrow> gate_section" where
  "notified s = (case s of Retire_Waiting own \<Rightarrow> Retire_Notified own | _ \<Rightarrow> s)"

definition leave_notify :: "tid \<Rightarrow> CallbackGate \<Rightarrow> CallbackGate" where
  "leave_notify t g = go t Running (g\<lparr> at_section := notified \<circ> at_section g \<rparr>)"

text \<open>\<^verbatim>\<open>retire\<close>: the flag is cleared, then the thread waits until only its own callbacks are in flight.\<close>

definition retire_close :: "tid \<Rightarrow> CallbackGate \<Rightarrow> CallbackGate" where
  "retire_close t g = go t Retire_Lock (g\<lparr> gate_open := False \<rparr>)"

definition retire_return :: "tid \<Rightarrow> Quiescence \<Rightarrow> CallbackGate \<Rightarrow> CallbackGate" where
  "retire_return t q g = unlock_gate t Running (g\<lparr> results := (t, q) # results g \<rparr>)"

definition retire_check :: "tid \<Rightarrow> nat \<Rightarrow> CallbackGate \<Rightarrow> CallbackGate" where
  "retire_check t own g =
     (if own < total_in_flight (in_flight g) then unlock_gate t (Retire_Waiting own) g
      else if own > 0 then retire_return t Incomplete g
      else retire_return t Complete g)"

definition retire_timed_out :: "tid \<Rightarrow> nat \<Rightarrow> CallbackGate \<Rightarrow> CallbackGate" where
  "retire_timed_out t own g =
     (if total_in_flight (in_flight g) < own then go t Panicked g else retire_return t Incomplete g)"

text \<open>What a thread may do next: call into the gate, go on in a call, or wake up from a wait.\<close>

datatype gate_act = Call_Enter | Drop_Guard | Call_Retire | Go | Wake_Early | Time_Out

definition gate_step :: "tid \<Rightarrow> gate_act \<Rightarrow> CallbackGate \<Rightarrow> CallbackGate option" where
  "gate_step t a g = (case at_section g t of
     Running \<Rightarrow>
       (if a = Call_Enter then lock_gate t Enter_Load g
        else if a = Drop_Guard \<and> guards g t > 0 then lock_gate t Leave_Sub g
        else if a = Call_Retire then Some (retire_close t g)
        else None)
   | Enter_Load \<Rightarrow> if a = Go then Some (enter_load t g) else None
   | Enter_Add \<Rightarrow> if a = Go then Some (enter_add t g) else None
   | Leave_Sub \<Rightarrow> if a = Go then Some (leave_sub t g) else None
   | Leave_Notify \<Rightarrow> if a = Go then Some (leave_notify t g) else None
   | Retire_Lock \<Rightarrow> if a = Go then lock_gate t (Retire_Check (own_count t (in_flight g))) g else None
   | Retire_Check own \<Rightarrow> if a = Go then Some (retire_check t own g) else None
   | Retire_Waiting own \<Rightarrow>
       (if a = Wake_Early then lock_gate t (Retire_Check own) g
        else if a = Time_Out then lock_gate t (Retire_Timed_Out own) g
        else None)
   | Retire_Notified own \<Rightarrow>
       (if a = Go then lock_gate t (Retire_Check own) g
        else if a = Time_Out then lock_gate t (Retire_Timed_Out own) g
        else None)
   | Retire_Timed_Out own \<Rightarrow> if a = Go then Some (retire_timed_out t own g) else None
   | Panicked \<Rightarrow> None)"

inductive gate_reaches :: "CallbackGate \<Rightarrow> CallbackGate \<Rightarrow> bool" where
  gate_refl: "gate_reaches g g"
| gate_more: "gate_reaches g g1 \<Longrightarrow> gate_step t a g1 = Some g2 \<Longrightarrow> gate_reaches g g2"

fun gate_run :: "(tid \<times> gate_act) list \<Rightarrow> CallbackGate \<Rightarrow> CallbackGate option" where
  "gate_run [] g = Some g"
| "gate_run ((t, a) # as) g = (case gate_step t a g of None \<Rightarrow> None | Some g' \<Rightarrow> gate_run as g')"

section \<open>Counting the callbacks in flight\<close>

lemma total_insert: "total_in_flight (hm_insert k v m) + own_count k m = total_in_flight m + v"
  unfolding total_in_flight_def own_count_def hm_insert_def hm_get_def by (induction m) auto

lemma total_remove: "hm_ok m \<Longrightarrow> total_in_flight (hm_remove k m) + own_count k m = total_in_flight m"
proof -
  have *: "k \<notin> fst ` set m \<Longrightarrow> map_of m k = None" for m :: "(tid, nat) hmap"
    by (simp add: map_of_eq_None_iff)
  show "hm_ok m \<Longrightarrow> total_in_flight (hm_remove k m) + own_count k m = total_in_flight m"
    unfolding total_in_flight_def own_count_def hm_remove_def hm_get_def hm_ok_def by (induction m) (auto simp: *)
qed

lemma own_count_le: "hm_ok m \<Longrightarrow> own_count k m \<le> total_in_flight m"
  using total_remove [of m k] by simp

lemma own_count_others:
  assumes "hm_ok m" and "total_in_flight m \<le> own_count k m" and "j \<noteq> k"
  shows "own_count j m = 0"
proof -
  have "own_count j (hm_remove k m) \<le> total_in_flight (hm_remove k m)" using assms(1) by (intro own_count_le) simp
  moreover have "total_in_flight (hm_remove k m) = 0" using total_remove [OF assms(1), of k] assms(2) by simp
  ultimately show ?thesis using assms(3) by (simp add: own_count_def)
qed

section \<open>The invariant of the gate\<close>

definition holds_lock :: "gate_section \<Rightarrow> bool" where
  "holds_lock s = (case s of Enter_Load \<Rightarrow> True | Enter_Add \<Rightarrow> True | Leave_Sub \<Rightarrow> True
     | Retire_Check _ \<Rightarrow> True | Retire_Timed_Out _ \<Rightarrow> True | Panicked \<Rightarrow> True | _ \<Rightarrow> False)"

definition retiring :: "gate_section \<Rightarrow> bool" where
  "retiring s = (case s of Retire_Lock \<Rightarrow> True | Retire_Check _ \<Rightarrow> True | Retire_Waiting _ \<Rightarrow> True
     | Retire_Notified _ \<Rightarrow> True | Retire_Timed_Out _ \<Rightarrow> True | _ \<Rightarrow> False)"

definition own_of :: "gate_section \<Rightarrow> nat option" where
  "own_of s = (case s of Retire_Check own \<Rightarrow> Some own | Retire_Waiting own \<Rightarrow> Some own
     | Retire_Notified own \<Rightarrow> Some own | Retire_Timed_Out own \<Rightarrow> Some own | _ \<Rightarrow> None)"

definition counts_ok :: "CallbackGate \<Rightarrow> bool" where
  "counts_ok g \<longleftrightarrow> hm_ok (in_flight g)
     \<and> (\<forall>t. hm_get (in_flight g) t = (if guards g t = 0 then None else Some (guards g t)))"

definition section_ok :: "CallbackGate \<Rightarrow> tid \<Rightarrow> bool" where
  "section_ok g t \<longleftrightarrow> (holds_lock (at_section g t) \<longleftrightarrow> gate_lock g = Some t)
     \<and> at_section g t \<noteq> Panicked
     \<and> (retiring (at_section g t) \<longrightarrow> \<not> gate_open g)
     \<and> (\<forall>own. own_of (at_section g t) = Some own \<longrightarrow> own = guards g t)
     \<and> (at_section g t = Leave_Sub \<longrightarrow> guards g t > 0)"

definition wakes_ok :: "CallbackGate \<Rightarrow> bool" where
  "wakes_ok g \<longleftrightarrow> (\<forall>t own. at_section g t = Retire_Waiting own \<longrightarrow>
     own < total_in_flight (in_flight g) \<or> (\<exists>u. at_section g u = Leave_Notify))"

definition quiescent :: "CallbackGate \<Rightarrow> bool" where
  "quiescent g \<longleftrightarrow> \<not> gate_open g \<and> (\<forall>t. guards g t = 0 \<and> at_section g t \<noteq> Enter_Add)"

definition results_ok :: "CallbackGate \<Rightarrow> bool" where
  "results_ok g \<longleftrightarrow> (results g \<noteq> [] \<longrightarrow> \<not> gate_open g) \<and> ((\<exists>t. (t, Complete) \<in> set (results g)) \<longrightarrow> quiescent g)"

definition gate_ok :: "CallbackGate \<Rightarrow> bool" where
  "gate_ok g \<longleftrightarrow> counts_ok g \<and> (\<forall>t. section_ok g t) \<and> wakes_ok g \<and> results_ok g"

lemmas section_kinds = holds_lock_def retiring_def own_of_def notified_def

lemmas gate_parts = go_def lock_gate_def unlock_gate_def enter_load_def enter_add_def leave_sub_def
  leave_notify_def retire_close_def retire_return_def retire_check_def retire_timed_out_def Let_def

lemma counts_own: "counts_ok g \<Longrightarrow> own_count t (in_flight g) = guards g t"
  by (auto simp: counts_ok_def own_count_def)

lemma counts_enter: "counts_ok g \<Longrightarrow> counts_ok (enter_add t g)"
  by (auto simp: counts_ok_def gate_parts own_count_def)

lemma counts_leave: "counts_ok g \<Longrightarrow> counts_ok (leave_sub t g)"
  by (auto simp: counts_ok_def gate_parts split: option.splits)

lemma total_enter: "counts_ok g \<Longrightarrow> total_in_flight (in_flight (enter_add t g)) = total_in_flight (in_flight g) + 1"
  using total_insert [of t "guards g t + 1" "in_flight g"] by (simp add: gate_parts counts_own)

text \<open>The sections a thread can enter by taking the mutex.\<close>

definition may_lock :: "CallbackGate \<Rightarrow> tid \<Rightarrow> gate_section \<Rightarrow> bool" where
  "may_lock g t s \<longleftrightarrow> gate_lock g = None \<and> (case at_section g t of
     Running \<Rightarrow> s = Enter_Load \<or> s = Leave_Sub \<and> guards g t > 0
   | Retire_Lock \<Rightarrow> s = Retire_Check (own_count t (in_flight g))
   | Retire_Waiting own \<Rightarrow> s = Retire_Check own \<or> s = Retire_Timed_Out own
   | Retire_Notified own \<Rightarrow> s = Retire_Check own \<or> s = Retire_Timed_Out own
   | _ \<Rightarrow> False)"

lemma gate_step_cases [consumes 1, case_names locks closes loads adds subs notifies checks gives_up]:
  assumes "gate_step t a g = Some g'"
  obtains s where "may_lock g t s" "g' = go t s (g\<lparr> gate_lock := Some t \<rparr>)"
  | "at_section g t = Running" "g' = retire_close t g"
  | "at_section g t = Enter_Load" "g' = enter_load t g"
  | "at_section g t = Enter_Add" "g' = enter_add t g"
  | "at_section g t = Leave_Sub" "g' = leave_sub t g"
  | "at_section g t = Leave_Notify" "g' = leave_notify t g"
  | own where "at_section g t = Retire_Check own" "g' = retire_check t own g"
  | own where "at_section g t = Retire_Timed_Out own" "g' = retire_timed_out t own g"
  using assms that
  by (cases "at_section g t") (auto simp: gate_step_def lock_gate_def may_lock_def split: if_splits)

lemma counts_frame [simp]:
  "counts_ok (go t s g) = counts_ok g" "counts_ok (g\<lparr> gate_lock := l \<rparr>) = counts_ok g"
  "counts_ok (unlock_gate t s g) = counts_ok g" "counts_ok (enter_load t g) = counts_ok g"
  "counts_ok (leave_notify t g) = counts_ok g" "counts_ok (retire_close t g) = counts_ok g"
  "counts_ok (retire_check t own g) = counts_ok g" "counts_ok (retire_timed_out t own g) = counts_ok g"
  by (simp_all add: counts_ok_def gate_parts)

lemma step_counts: "gate_step t a g = Some g' \<Longrightarrow> counts_ok g \<Longrightarrow> counts_ok g'"
  by (cases rule: gate_step_cases, assumption) (auto intro: counts_enter counts_leave)

text \<open>A guard that is dropped is counted, so its count goes down by one.\<close>

lemma leave_sub_eq:
  assumes "counts_ok g" and "guards g t > 0"
  obtains m where "leave_sub t g = unlock_gate t Leave_Notify (g\<lparr> guards := (guards g)(t := guards g t - 1), in_flight := m \<rparr>)"
    and "total_in_flight m + 1 = total_in_flight (in_flight g)"
proof -
  have n: "hm_get (in_flight g) t = Some (guards g t)" "hm_ok (in_flight g)" "own_count t (in_flight g) = guards g t"
    using assms counts_own by (auto simp: counts_ok_def)
  show ?thesis
    using n assms(2) total_insert [of t "guards g t - 1" "in_flight g"] total_remove [OF n(2), of t]
    by (intro that [of "if guards g t - 1 = 0 then hm_remove t (in_flight g) else hm_insert t (guards g t - 1) (in_flight g)"])
      (auto simp: leave_sub_def)
qed

lemmas moves = go_def unlock_gate_def retire_return_def

text \<open>A step of one thread leaves the sections of the others in order.\<close>

lemma section_ok_other:
  assumes "section_ok g u" and "at_section g' u = at_section g u \<or> at_section g' u = notified (at_section g u)"
    and "guards g' u = guards g u" and "gate_open g' \<longrightarrow> gate_open g"
    and "gate_lock g' = Some u \<longleftrightarrow> gate_lock g = Some u"
  shows "section_ok g' u"
  using assms by (cases "at_section g u") (auto simp: section_ok_def section_kinds)

lemma step_other:
  assumes "gate_step t a g = Some g'" and "section_ok g t" and "u \<noteq> t"
  shows "at_section g' u = at_section g u \<or> at_section g' u = notified (at_section g u)"
    and "guards g' u = guards g u" and "gate_open g' \<longrightarrow> gate_open g"
    and "gate_lock g' = Some u \<longleftrightarrow> gate_lock g = Some u"
  using assms
  by (cases rule: gate_step_cases;
      auto simp: may_lock_def gate_parts section_ok_def section_kinds split: option.splits)+

lemma locks_section:
  assumes "counts_ok g" and "section_ok g t" and "may_lock g t s"
  shows "section_ok (go t s (g\<lparr> gate_lock := Some t \<rparr>)) t"
  using assms counts_own [OF assms(1), of t]
  by (cases "at_section g t") (auto simp: section_ok_def may_lock_def moves section_kinds)

lemma step_own:
  assumes "gate_step t a g = Some g'" and c: "counts_ok g" and ok: "section_ok g t"
  shows "section_ok g' t"
  using assms(1)
proof (cases rule: gate_step_cases)
  case (locks s)
  then show ?thesis using locks_section [OF c ok] by simp
next
  case subs
  then obtain m where "g' = unlock_gate t Leave_Notify (g\<lparr> guards := (guards g)(t := guards g t - 1), in_flight := m \<rparr>)"
    using leave_sub_eq [OF c] ok by (metis section_ok_def)
  then show ?thesis by (simp add: section_ok_def moves section_kinds)
next
  case (gives_up own)
  then have "\<not> total_in_flight (in_flight g) < own"
    using ok counts_own [OF c, of t] own_count_le [of "in_flight g" t] c
    by (auto simp: section_ok_def section_kinds counts_ok_def)
  then show ?thesis using gives_up by (simp add: section_ok_def retire_timed_out_def moves section_kinds)
qed (use ok in \<open>auto simp: section_ok_def gate_parts section_kinds\<close>)

lemma step_sections:
  assumes "gate_step t a g = Some g'" and "counts_ok g" and "\<And>u. section_ok g u"
  shows "section_ok g' u"
  using step_own [OF assms(1,2)] section_ok_other [OF assms(3) step_other [OF assms(1) assms(3)]] assms(3)
  by (cases "u = t") auto

lemma wakes_move:
  assumes w: "wakes_ok g" and "at_section g' = (at_section g)(t := s)" and "at_section g t \<noteq> Leave_Notify"
    and l: "total_in_flight (in_flight g) \<le> total_in_flight (in_flight g')"
    and "\<And>own. s = Retire_Waiting own \<Longrightarrow> own < total_in_flight (in_flight g')"
  shows "wakes_ok g'"
  unfolding wakes_ok_def
proof (intro allI impI)
  fix u own assume u: "at_section g' u = Retire_Waiting own"
  show "own < total_in_flight (in_flight g') \<or> (\<exists>v. at_section g' v = Leave_Notify)"
  proof (cases "u = t")
    case False
    then have "own < total_in_flight (in_flight g) \<or> (\<exists>v. at_section g v = Leave_Notify)"
      using u w assms(2) unfolding wakes_ok_def by (metis fun_upd_apply)
    then show ?thesis using l assms(2,3) by (metis fun_upd_apply order_less_le_trans)
  qed (use u assms in auto)
qed

lemma step_wakes:
  assumes "gate_step t a g = Some g'" and c: "counts_ok g" and w: "wakes_ok g" and ok: "section_ok g t"
  shows "wakes_ok g'"
  using assms(1)
proof (cases rule: gate_step_cases)
  case (locks s)
  then have "s \<noteq> Retire_Waiting own" "at_section g t \<noteq> Leave_Notify" for own
    by (auto simp: may_lock_def split: gate_section.splits)
  then show ?thesis using locks(2) by (intro wakes_move [OF w, of _ t s]) (auto simp: moves)
next
  case adds
  then show ?thesis using total_enter [OF c, of t]
    by (intro wakes_move [OF w, of _ t Running]) (auto simp: enter_add_def moves)
next
  case subs
  then obtain m where "g' = unlock_gate t Leave_Notify (g\<lparr> guards := (guards g)(t := guards g t - 1), in_flight := m \<rparr>)"
    using leave_sub_eq [OF c] ok by (metis section_ok_def)
  then show ?thesis by (auto simp: wakes_ok_def moves)
next
  case notifies
  then show ?thesis
    by (auto simp: wakes_ok_def leave_notify_def moves notified_def split: gate_section.splits)
qed (auto simp: gate_parts intro!: wakes_move [OF w, of _ t])

text \<open>Whoever finds no callback in flight while holding the mutex sees the gate quiescent.\<close>

lemma check_quiescent:
  assumes "counts_ok g" and ok: "\<And>u. section_ok g u" and "at_section g t = Retire_Check 0" and "total_in_flight (in_flight g) = 0"
  shows "quiescent g"
proof -
  have "guards g u = 0" for u
    using counts_own [OF assms(1), of u] own_count_le [of "in_flight g" u] assms(1,4) by (simp add: counts_ok_def)
  moreover have "at_section g u \<noteq> Enter_Add" for u
    using ok [of u] ok [of t] assms(3) by (auto simp: section_ok_def section_kinds)
  moreover have "\<not> gate_open g" using ok [of t] assms(3) by (auto simp: section_ok_def section_kinds)
  ultimately show ?thesis by (simp add: quiescent_def)
qed

lemma step_quiescent:
  "gate_step t a g = Some g' \<Longrightarrow> quiescent g \<Longrightarrow> section_ok g t \<Longrightarrow> quiescent g'"
  by (cases rule: gate_step_cases, assumption)
    (auto simp: quiescent_def gate_parts may_lock_def notified_def section_ok_def
      split: gate_section.splits option.splits)

lemma step_results:
  assumes "gate_step t a g = Some g'" and "counts_ok g" and "\<And>u. section_ok g u" and r: "results_ok g"
  shows "results_ok g'"
  using assms(1)
proof (cases rule: gate_step_cases)
  case (checks own)
  have "\<not> gate_open g" using assms(3) [of t] checks by (auto simp: section_ok_def section_kinds)
  moreover have "quiescent g'" if "(u, Complete) \<in> set (results g')" for u
  proof (cases "(u, Complete) \<in> set (results g)")
    case False
    then have "own = 0" "total_in_flight (in_flight g) = 0"
      using that checks by (auto simp: retire_check_def moves split: if_splits)
    then show ?thesis
      using check_quiescent [OF assms(2,3)] step_quiescent [OF assms(1) _ assms(3)] checks(1) by blast
  qed (use r step_quiescent [OF assms(1) _ assms(3)] in \<open>auto simp: results_ok_def\<close>)
  moreover have "gate_open g' = gate_open g" using checks by (simp add: gate_parts)
  ultimately show ?thesis unfolding results_ok_def by blast
next
  case (gives_up own)
  have "\<not> gate_open g" using assms(3) [of t] gives_up by (auto simp: section_ok_def section_kinds)
  then show ?thesis using r step_quiescent [OF assms(1) _ assms(3)] gives_up
    by (auto simp: results_ok_def retire_timed_out_def moves split: if_splits)
qed (use r step_quiescent [OF assms(1) _ assms(3)] in
      \<open>auto simp: results_ok_def gate_parts split: option.splits if_splits\<close>)

lemma step_gate_ok: "gate_step t a g = Some g' \<Longrightarrow> gate_ok g \<Longrightarrow> gate_ok g'"
  using step_counts step_sections step_wakes step_results unfolding gate_ok_def by blast

lemma reaches_gate_ok: "gate_reaches g g' \<Longrightarrow> gate_ok g \<Longrightarrow> gate_ok g'"
  by (induction rule: gate_reaches.induct) (auto intro: step_gate_ok)

lemma new_gate_ok: "gate_ok CallbackGate_new"
  by (auto simp: gate_ok_def counts_ok_def section_ok_def wakes_ok_def results_ok_def CallbackGate_new_def section_kinds)

lemma reaches_trans: "gate_reaches g1 g2 \<Longrightarrow> gate_reaches g g1 \<Longrightarrow> gate_reaches g g2"
  by (induction rule: gate_reaches.induct) (auto intro: gate_reaches.intros)

lemma run_reaches: "gate_run as g = Some g' \<Longrightarrow> gate_reaches g g'"
  by (induction as g rule: gate_run.induct)
    (auto split: option.splits intro: gate_refl reaches_trans [OF _ gate_more [OF gate_refl]])

lemma reaches_quiescent: "gate_reaches g g' \<Longrightarrow> gate_ok g \<Longrightarrow> quiescent g \<Longrightarrow> quiescent g'"
proof (induction rule: gate_reaches.induct)
  case (gate_more g g1 t a g2)
  then show ?case using step_quiescent [OF gate_more(2)] reaches_gate_ok [OF gate_more(1)] by (auto simp: gate_ok_def)
qed

lemma run_bystander:
  "gate_run as g = Some g' \<Longrightarrow> gate_ok g \<Longrightarrow> u \<notin> fst ` set as \<Longrightarrow> at_section g u = Running \<Longrightarrow>
    at_section g' u = Running \<and> guards g' u = guards g u"
proof (induction as g rule: gate_run.induct)
  case (2 t a as g)
  then obtain g1 where g1: "gate_step t a g = Some g1" "gate_run as g1 = Some g'" by (auto split: option.splits)
  have "at_section g1 u = Running" "guards g1 u = guards g u"
    using step_other [OF g1(1), of u] 2(3-5) by (auto simp: gate_ok_def notified_def)
  then show ?case using 2(1) [OF g1] step_gate_ok [OF g1(1)] 2(3,4) by auto
qed simp

text \<open>If more callbacks are in flight than one thread's, another thread has one.\<close>

lemma others_in_flight:
  assumes "counts_ok g" and "guards g t < total_in_flight (in_flight g)"
  shows "\<exists>u. u \<noteq> t \<and> guards g u > 0"
proof (rule ccontr)
  assume "\<not> ?thesis"
  then have "hm_get (in_flight g) u = None" if "u \<noteq> t" for u using that assms(1) by (auto simp: counts_ok_def)
  then have "map_of (hm_remove t (in_flight g)) u = None" for u
    by (metis hm_get_def hm_get_remove fun_upd_apply)
  then have "hm_remove t (in_flight g) = []" by (metis map_of_eq_empty_iff ext)
  then have "total_in_flight (in_flight g) = own_count t (in_flight g)"
    using total_remove [of "in_flight g" t] assms(1) by (simp add: counts_ok_def total_in_flight_def)
  then show False using assms counts_own by simp
qed

lemma waiting_notified:
  assumes "gate_ok g" and "at_section g t = Retire_Waiting own"
  shows "(\<exists>u. u \<noteq> t \<and> guards g u > 0) \<or> (\<exists>u. at_section g u = Leave_Notify)"
proof -
  have "own = guards g t" using assms by (auto simp: gate_ok_def section_ok_def section_kinds)
  then show ?thesis using assms others_in_flight [of g t] by (auto simp: gate_ok_def wakes_ok_def)
qed

section \<open>Properties\<close>

text \<open>
  C14: Once a call of retire returned Complete, the gate is closed, no thread is inside a
  callback and none ever enters one again, whatever the threads go on to do, so the host may release
  its callback pointers; in particular a call from inside a callback does not return Complete. And no
  step of the gate panics.
\<close>

theorem retired_gate_is_quiet:
  assumes "gate_reaches CallbackGate_new g"
  shows "at_section g u \<noteq> Panicked
    \<and> ((t, Complete) \<in> set (results g) \<and> gate_reaches g g' \<longrightarrow> \<not> gate_open g' \<and> guards g' u = 0)"
proof -
  have ok: "gate_ok g" using reaches_gate_ok [OF assms new_gate_ok] .
  then show ?thesis
    using reaches_quiescent [OF _ ok] by (auto simp: gate_ok_def section_ok_def results_ok_def quiescent_def)
qed

text \<open>A callback is in flight on thread 1 while thread 0 retires, waits and is woken.\<close>

definition sample_schedule :: "(tid \<times> gate_act) list" where
  "sample_schedule = [(1, Call_Enter), (1, Go), (0, Call_Retire), (1, Go), (0, Go), (0, Go), (1, Drop_Guard),
     (1, Go), (1, Go), (0, Go), (0, Go)]"

lemma map_option_reaches: "map_option f (gate_run as g) = Some y \<Longrightarrow> \<exists>g'. gate_reaches g g' \<and> f g' = y"
  by (auto dest: run_reaches)

theorem retired_gate_is_quiet_witness:
  "\<exists>g g'. gate_reaches CallbackGate_new g \<and> gate_reaches g g' \<and> results g = [(0, Complete)]
     \<and> at_section g 1 \<noteq> Panicked \<and> \<not> gate_open g' \<and> guards g' 1 = 0"
proof -
  have "map_option results (gate_run sample_schedule CallbackGate_new) = Some [(0, Complete)]" by code_simp
  then obtain g where g: "gate_reaches CallbackGate_new g" "results g = [(0, Complete)]"
    using map_option_reaches [of results] by metis
  have "(0, Complete) \<in> set (results g)" using g(2) by simp
  then have "at_section g 1 \<noteq> Panicked" "\<not> gate_open g" "guards g 1 = 0"
    using retired_gate_is_quiet [OF g(1), of 1 0 g] gate_refl [of g] by simp_all
  then show ?thesis using g gate_refl [of g] by (intro exI [of _ g] conjI) simp_all
qed

text \<open>
  C15: No wakeup of a retiring thread is lost. A thread that is retiring the gate and has
  not timed out, while every other thread is done with its callbacks, returns in at most two steps
  of its own, with no need of its timeout: Complete, or Incomplete if it is inside a callback itself.
\<close>

theorem retire_returns:
  assumes "gate_reaches CallbackGate_new g" and "retiring (at_section g t)"
    and "\<And>own. at_section g t \<noteq> Retire_Timed_Out own"
    and others: "\<And>u. u \<noteq> t \<Longrightarrow> at_section g u = Running \<and> guards g u = 0"
  shows "\<exists>n \<le> 2. \<exists>g'. gate_run (replicate n (t, Go)) g = Some g' \<and> at_section g' t = Running
     \<and> results g' = (t, if guards g t = 0 then Complete else Incomplete) # results g"
proof -
  have ok: "gate_ok g" using reaches_gate_ok [OF assms(1) new_gate_ok] .
  then have c: "counts_ok g" and sec: "section_ok g u" for u by (auto simp: gate_ok_def)
  have l: "gate_lock g \<noteq> Some u" if "u \<noteq> t" for u using sec [of u] others [OF that] by (auto simp: section_ok_def section_kinds)
  have tot: "\<not> guards g t < total_in_flight (in_flight g)" using others_in_flight [OF c, of t] others by force
  have own: "own_count t (in_flight g) = guards g t" using counts_own [OF c] .
  show ?thesis
  proof (cases "at_section g t")
    case Retire_Lock
    then have "gate_lock g = None" using sec [of t] l by (cases "gate_lock g") (auto simp: section_ok_def section_kinds)
    then show ?thesis using Retire_Lock tot own
      by (intro exI [of _ 2]) (auto simp: numeral_2_eq_2 gate_step_def gate_parts)
  next
    case (Retire_Check x)
    then have "x = guards g t" using sec [of t] by (auto simp: section_ok_def section_kinds)
    then show ?thesis using Retire_Check tot
      by (intro exI [of _ 1]) (auto simp: gate_step_def gate_parts)
  next
    case (Retire_Notified x)
    then have "gate_lock g = None" "x = guards g t"
      using sec [of t] l by (cases "gate_lock g"; auto simp: section_ok_def section_kinds)+
    then show ?thesis using Retire_Notified tot
      by (intro exI [of _ 2]) (auto simp: numeral_2_eq_2 gate_step_def gate_parts)
  next
    case (Retire_Waiting x)
    then show ?thesis using waiting_notified [OF ok Retire_Waiting] others
      by (metis gate_section.distinct(1) gate_section.simps less_irrefl)
  qed (use assms(2,3) in \<open>auto simp: retiring_def\<close>)
qed

theorem retire_returns_witness:
  "\<exists>g. gate_reaches CallbackGate_new g \<and> at_section g 0 = Retire_Notified 0 \<and> guards g 0 = 0
     \<and> (\<exists>n \<le> 2. \<exists>g'. gate_run (replicate n (0, Go)) g = Some g' \<and> at_section g' 0 = Running
     \<and> results g' = (0, Complete) # results g)"
proof -
  let ?as = "take 9 sample_schedule"
  have "map_option (\<lambda>g. (at_section g 0, guards g 0, at_section g 1, guards g 1)) (gate_run ?as CallbackGate_new)
      = Some (Retire_Notified 0, 0, Running, 0)" by code_simp
  then obtain g where g: "gate_run ?as CallbackGate_new = Some g" "at_section g 0 = Retire_Notified 0" "guards g 0 = 0"
    "at_section g 1 = Running" "guards g 1 = 0" by auto
  have "at_section g u = Running \<and> guards g u = 0" if "u \<noteq> 0" for u
  proof (cases "u = 1")
    case False
    have "u \<notin> fst ` set ?as" using that False by (auto simp: sample_schedule_def)
    then show ?thesis using run_bystander [OF g(1) new_gate_ok] by (simp add: CallbackGate_new_def)
  qed (use g in simp)
  then have "\<exists>n \<le> 2. \<exists>g'. gate_run (replicate n (0, Go)) g = Some g' \<and> at_section g' 0 = Running
     \<and> results g' = (0, if guards g 0 = 0 then Complete else Incomplete) # results g"
    using g by (intro retire_returns [OF run_reaches [OF g(1)]]) (auto simp: retiring_def)
  then show ?thesis using g run_reaches [OF g(1)] by auto
qed

end
