(* ===== verification/Host_Thread.thy ===== *)
theory Host_Thread
  imports Callbacks
begin

text \<open>
  The threads that call the host (\<^verbatim>\<open>Queue\<close>, \<^verbatim>\<open>HostThread\<close> and \<^verbatim>\<open>HostSender\<close> of
  \<^verbatim>\<open>reactor-ffi/src/callbacks.rs\<close>) and the teardown that stops them (\<^verbatim>\<open>reactor_destroy\<close> of
  \<^verbatim>\<open>reactor-ffi/src/lib.rs\<close>). A queue operation runs under the queue's mutex as a whole, so it is one
  step. The worker pops an item, enters the gate with it, delivers it and drops the guard; its passage
  through the gate is made of the gate's own steps, and between any two of them other threads may
  send, close the queue or act on the gate, and what is delivered may enter the gate again, as events
  and completions do, or retire it. \<open>h_sent\<close> and
  \<open>h_delivered\<close> record the items the open queue was offered and those whose delivery started.
\<close>

section \<open>The queue\<close>

datatype Overflow = DropOldest | DropNewest

record 'a Queue =
  q_items :: "'a list"
  q_closed :: bool
  q_capacity :: "nat option"
  q_overflow :: Overflow
  q_dropped :: u64

definition Queue_new :: "nat option \<Rightarrow> Overflow \<Rightarrow> 'a Queue" where
  "Queue_new capacity overflow = \<lparr> q_items = [], q_closed = False, q_capacity = capacity,
     q_overflow = overflow, q_dropped = 0 \<rparr>"

definition count_drop :: "'a Queue \<Rightarrow> 'a Queue" where
  "count_drop q = q\<lparr> q_dropped := q_dropped q + 1 \<rparr>"

definition queue_push :: "'a \<Rightarrow> 'a Queue \<Rightarrow> 'a Queue" where
  "queue_push item q =
     (if q_closed q then q
      else case q_capacity q of
        None \<Rightarrow> q\<lparr> q_items := q_items q @ [item] \<rparr>
      | Some capacity \<Rightarrow>
          if length (q_items q) \<ge> capacity
          then (case q_overflow q of
                  DropOldest \<Rightarrow> count_drop (q\<lparr> q_items := tl (q_items q) @ [item] \<rparr>)
                | DropNewest \<Rightarrow> count_drop q)
          else q\<lparr> q_items := q_items q @ [item] \<rparr>)"

datatype 'a popped = Popped 'a | No_More | Waits

definition queue_pop :: "'a Queue \<Rightarrow> 'a popped \<times> 'a Queue" where
  "queue_pop q = (case q_items q of
     item # rest \<Rightarrow> (Popped item, q\<lparr> q_items := rest \<rparr>)
   | [] \<Rightarrow> if q_closed q then (No_More, q) else (Waits, q))"

definition queue_close :: "'a Queue \<Rightarrow> 'a Queue" where
  "queue_close q = q\<lparr> q_closed := True, q_items := [] \<rparr>"

section \<open>The worker\<close>

datatype 'a worker = Popping | Admitting 'a | Delivering 'a | Returning | Ended

record 'a delivery_thread =
  h_gate :: CallbackGate
  h_thread :: tid
  h_queue :: "'a Queue"
  h_worker :: "'a worker"
  h_sent :: "'a list"
  h_delivered :: "'a list"

definition spawn :: "tid \<Rightarrow> nat option \<Rightarrow> Overflow \<Rightarrow> 'a delivery_thread" where
  "spawn w capacity overflow = \<lparr> h_gate = CallbackGate_new, h_thread = w,
     h_queue = Queue_new capacity overflow, h_worker = Popping, h_sent = [], h_delivered = [] \<rparr>"

definition send :: "'a \<Rightarrow> 'a delivery_thread \<Rightarrow> 'a delivery_thread" where
  "send item h = h\<lparr> h_queue := queue_push item (h_queue h),
     h_sent := (if q_closed (h_queue h) then h_sent h else h_sent h @ [item]) \<rparr>"

text \<open>The worker's next step through the gate, and where it is after it.\<close>

definition through_gate :: "gate_act \<Rightarrow> (CallbackGate \<Rightarrow> 'a delivery_thread \<Rightarrow> 'a delivery_thread) \<Rightarrow> 'a delivery_thread \<Rightarrow> 'a delivery_thread option" where
  "through_gate a k h = map_option (\<lambda>g. k g (h\<lparr> h_gate := g \<rparr>)) (gate_step (h_thread h) a (h_gate h))"

definition worker_step :: "'a delivery_thread \<Rightarrow> 'a delivery_thread option" where
  "worker_step h = (let w = h_thread h; here = at_section (h_gate h) w in case h_worker h of
     Popping \<Rightarrow>
       (case queue_pop (h_queue h) of
          (Popped item, q) \<Rightarrow> Some (h\<lparr> h_queue := q, h_worker := Admitting item \<rparr>)
        | (No_More, q) \<Rightarrow> Some (h\<lparr> h_worker := Ended \<rparr>)
        | (Waits, q) \<Rightarrow> None)
   | Admitting item \<Rightarrow>
       through_gate (if here = Running then Call_Enter else Go)
         (\<lambda>g h'. if at_section g w \<noteq> Running then h'
                 else if guards g w > guards (h_gate h) w
                 then h'\<lparr> h_worker := Delivering item, h_delivered := h_delivered h @ [item] \<rparr>
                 else h'\<lparr> h_worker := Ended \<rparr>) h
   | Delivering item \<Rightarrow>
       if here = Running \<and> guards (h_gate h) w = 1 then through_gate Drop_Guard (\<lambda>g h'. h'\<lparr> h_worker := Returning \<rparr>) h else None
   | Returning \<Rightarrow>
       through_gate Go (\<lambda>g h'. if at_section g w = Running then h'\<lparr> h_worker := Popping \<rparr> else h') h
   | Ended \<Rightarrow> None)"

datatype 'a host_act = Send 'a | Close_Queue | Work | In_Callback gate_act | Others tid gate_act

fun host_step :: "'a host_act \<Rightarrow> 'a delivery_thread \<Rightarrow> 'a delivery_thread option" where
  "host_step (Send item) h = Some (send item h)"
| "host_step Close_Queue h = Some (h\<lparr> h_queue := queue_close (h_queue h) \<rparr>)"
| "host_step Work h = worker_step h"
| "host_step (In_Callback a) h =
     (case h_worker h of
        Delivering _ \<Rightarrow> if a = Drop_Guard \<and> guards (h_gate h) (h_thread h) = 1 then None
                         else through_gate a (\<lambda>g h'. h') h
      | _ \<Rightarrow> None)"
| "host_step (Others t a) h =
     (if t = h_thread h then None
      else map_option (\<lambda>g. h\<lparr> h_gate := g \<rparr>) (gate_step t a (h_gate h)))"

inductive host_reaches :: "'a delivery_thread \<Rightarrow> 'a delivery_thread \<Rightarrow> bool" where
  host_refl: "host_reaches h h"
| host_more: "host_reaches h h1 \<Longrightarrow> host_step a h1 = Some h2 \<Longrightarrow> host_reaches h h2"

fun host_run :: "'a host_act list \<Rightarrow> 'a delivery_thread \<Rightarrow> 'a delivery_thread option" where
  "host_run [] h = Some h"
| "host_run (a # as) h = (case host_step a h of None \<Rightarrow> None | Some h' \<Rightarrow> host_run as h')"

section \<open>Teardown\<close>

record 'a HostThread =
  ht_queue :: "'a Queue"
  ht_join :: "tid option"

definition host_abandon :: "'a HostThread \<Rightarrow> 'a HostThread" where
  "host_abandon ht = ht\<lparr> ht_queue := queue_close (ht_queue ht), ht_join := None \<rparr>"

text \<open>Dropping a host thread on thread \<open>me\<close>: the queue it leaves behind and the thread it joined.\<close>

definition host_drop :: "tid \<Rightarrow> 'a HostThread \<Rightarrow> 'a HostThread \<times> tid option" where
  "host_drop me ht = (ht\<lparr> ht_queue := queue_close (ht_queue ht), ht_join := None \<rparr>,
     case ht_join ht of Some w \<Rightarrow> if w \<noteq> me then Some w else None | None \<Rightarrow> None)"

record ('j, 'v, 'a) HostThreads =
  control :: "'j HostThread"
  video :: "'v HostThread option"
  audio :: "'a HostThread option"

definition hosts_abandon :: "('j, 'v, 'a) HostThreads \<Rightarrow> ('j, 'v, 'a) HostThreads" where
  "hosts_abandon hs = \<lparr> control = host_abandon (control hs), video = map_option host_abandon (video hs),
     audio = map_option host_abandon (audio hs) \<rparr>"

record ('t, 'j, 'v, 'a) ReactorHandle =
  tasks :: "'t list"
  hosts :: "('j, 'v, 'a) HostThreads"

text \<open>
  \<^verbatim>\<open>reactor_destroy\<close> on thread \<open>me\<close>, whose retirement of the gate had the given result: the hosts as
  they are left, the tasks aborted, the threads joined in the order of the fields, and the code
  returned to the host. A null handle is \<^const>\<open>None\<close>.
\<close>

definition reactor_destroy ::
  "tid \<Rightarrow> Quiescence \<Rightarrow> ('t, 'j, 'v, 'a) ReactorHandle option \<Rightarrow> ('j, 'v, 'a) HostThreads option \<times> 't list \<times> tid list \<times> int" where
  "reactor_destroy me quiescence handle = (case handle of None \<Rightarrow> (None, [], [], 0)
   | Some rh \<Rightarrow>
     (let hs = (if quiescence = Incomplete then hosts_abandon (hosts rh) else hosts rh);
          c = host_drop me (control hs); v = map_option (host_drop me) (video hs); a = map_option (host_drop me) (audio hs);
          joined = List.map_filter id [snd c, Option.bind v snd, Option.bind a snd]
      in (Some \<lparr> control = fst c, video = map_option fst v, audio = map_option fst a \<rparr>, tasks rh, joined,
          case quiescence of Complete \<Rightarrow> 0 | Incomplete \<Rightarrow> -1)))"

section \<open>A queue that may lose items keeps their order\<close>

text \<open>
  What the worker relies on: a push adds the item behind the others and may discard some, and the
  items are taken from the front. Whatever the policy, items come out in the order they went in.
\<close>

locale lossy_queue =
  fixes contents :: "'q \<Rightarrow> 'a list"
    and put :: "'a \<Rightarrow> 'q \<Rightarrow> 'q"
    and take_one :: "'q \<Rightarrow> ('a \<times> 'q) option"
    and empty_out :: "'q \<Rightarrow> 'q"
  assumes put_kept: "subseq (contents (put x q)) (contents q @ [x])"
    and take_front: "take_one q = Some (x, q') \<Longrightarrow> contents q = x # contents q'"
    and emptied: "contents (empty_out q) = []"
begin

lemma put_in_order: "subseq (out @ contents q) sent \<Longrightarrow> subseq (out @ contents (put x q)) (sent @ [x])"
proof -
  assume "subseq (out @ contents q) sent"
  then have "subseq ((out @ contents q) @ [x]) (sent @ [x])" by (simp only: subseq_append)
  moreover have "subseq (out @ contents (put x q)) ((out @ contents q) @ [x])"
    using put_kept [of x q] by (simp add: subseq_append')
  ultimately show ?thesis by (rule subseq_order.order_trans [rotated])
qed

lemma take_in_order: "take_one q = Some (x, q') \<Longrightarrow> out @ contents q = (out @ [x]) @ contents q'"
  by (simp add: take_front)

lemma empty_in_order: "subseq (out @ contents q) sent \<Longrightarrow> subseq (out @ contents (empty_out q)) sent"
  using list_emb_append_mono [of "(=)" out out "[]" "contents q"] by (auto simp: emptied intro: subseq_order.order_trans)

end

definition pop_item :: "'a Queue \<Rightarrow> ('a \<times> 'a Queue) option" where
  "pop_item q = (case queue_pop q of (Popped x, q') \<Rightarrow> Some (x, q') | _ \<Rightarrow> None)"

lemma subseq_tl: "subseq (tl xs @ ys) (xs @ ys)"
  by (cases xs) auto

interpretation hq: lossy_queue q_items queue_push pop_item queue_close
  by unfold_locales
    (auto simp: queue_push_def count_drop_def pop_item_def queue_pop_def queue_close_def subseq_tl
       split: option.splits Overflow.splits list.splits if_splits popped.splits)

section \<open>The invariant of a host thread\<close>

definition in_hand :: "'a worker \<Rightarrow> 'a list" where
  "in_hand s = (case s of Admitting item \<Rightarrow> [item] | _ \<Rightarrow> [])"

text \<open>Where the worker is in the gate, and the guard it holds there.\<close>

definition worker_ok :: "'a delivery_thread \<Rightarrow> bool" where
  "worker_ok h \<longleftrightarrow> (let here = at_section (h_gate h) (h_thread h); held = guards (h_gate h) (h_thread h) in
     case h_worker h of
       Popping \<Rightarrow> here = Running \<and> held = 0
     | Admitting _ \<Rightarrow> here \<in> {Running, Enter_Load, Enter_Add} \<and> held = 0
     | Delivering _ \<Rightarrow> held > 0 \<and> (here = Leave_Sub \<longrightarrow> held > 1)
     | Returning \<Rightarrow> here = Leave_Sub \<and> held = 1 \<or> here = Leave_Notify \<and> held = 0
     | Ended \<Rightarrow> here = Running \<and> held = 0)"

text \<open>What left the queue to be delivered.\<close>

definition taken :: "'a delivery_thread \<Rightarrow> 'a list" where
  "taken h = h_delivered h @ in_hand (h_worker h)"

definition queue_bounded :: "'a Queue \<Rightarrow> bool" where
  "queue_bounded q \<longleftrightarrow> (q_closed q \<longrightarrow> q_items q = []) \<and> (case q_capacity q of None \<Rightarrow> True
     | Some c \<Rightarrow> length (q_items q) \<le> (case q_overflow q of DropOldest \<Rightarrow> max 1 c | DropNewest \<Rightarrow> c))"

definition delivery_ok :: "'a delivery_thread \<Rightarrow> bool" where
  "delivery_ok h \<longleftrightarrow> subseq (taken h @ q_items (h_queue h)) (h_sent h)
     \<and> queue_bounded (h_queue h)
     \<and> (q_overflow (h_queue h) = DropOldest \<and> \<not> q_closed (h_queue h) \<longrightarrow> suffix (q_items (h_queue h)) (h_sent h))"

text \<open>Every item is delivered, in the worker's hand, queued, or counted as dropped.\<close>

definition drops_ok :: "'a delivery_thread \<Rightarrow> bool" where
  "drops_ok h \<longleftrightarrow> q_closed (h_queue h) \<or> h_worker h = Ended \<or> q_capacity (h_queue h) = Some 0 \<or>
     (\<exists>k. q_dropped (h_queue h) = of_nat k \<and> (q_capacity (h_queue h) = None \<longrightarrow> k = 0)
        \<and> length (taken h) + length (q_items (h_queue h)) + k = length (h_sent h))"

definition host_ok :: "'a delivery_thread \<Rightarrow> bool" where
  "host_ok h \<longleftrightarrow> gate_ok (h_gate h) \<and> worker_ok h \<and> delivery_ok h \<and> drops_ok h"

lemma notified_worker: "notified Running = Running" "notified Enter_Load = Enter_Load" "notified Enter_Add = Enter_Add"
  "notified Leave_Sub = Leave_Sub" "notified Leave_Notify = Leave_Notify" "notified s = Leave_Sub \<longleftrightarrow> s = Leave_Sub"
  by (auto simp: section_kinds split: gate_section.splits)

text \<open>The gate only moves by its own steps.\<close>

lemma host_gate_step:
  assumes "host_step a h = Some h'"
  shows "h_gate h' = h_gate h \<or> (\<exists>t b. gate_step t b (h_gate h) = Some (h_gate h'))" and "h_thread h' = h_thread h"
  using assms
  by (cases a; auto simp: send_def worker_step_def through_gate_def Let_def split: worker.splits if_splits popped.splits prod.splits)+

lemma host_gate_ok: "host_step a h = Some h' \<Longrightarrow> gate_ok (h_gate h) \<Longrightarrow> gate_ok (h_gate h')"
  using host_gate_step(1) step_gate_ok by metis

text \<open>The worker's own steps in the gate.\<close>

lemma enter_step:
  assumes "gate_step t (if at_section g t = Running then Call_Enter else Go) g = Some g'"
    and "at_section g t \<in> {Running, Enter_Load, Enter_Add}"
  shows "at_section g' t = Enter_Load \<and> guards g' t = guards g t \<or> at_section g' t = Enter_Add \<and> guards g' t = guards g t
     \<or> at_section g' t = Running \<and> guards g' t = guards g t \<and> \<not> gate_open g
     \<or> at_section g' t = Running \<and> guards g' t = guards g t + 1 \<and> at_section g t = Enter_Add"
  using assms by (auto simp: gate_step_def gate_parts split: if_splits)

lemma callback_step:
  assumes "gate_step t a g = Some g'" and c: "counts_ok g" and "guards g t > 0"
    and "at_section g t = Leave_Sub \<longrightarrow> guards g t > 1" and "a = Drop_Guard \<longrightarrow> guards g t \<noteq> 1"
  shows "guards g' t > 0 \<and> (at_section g' t = Leave_Sub \<longrightarrow> guards g' t > 1)"
proof (cases "at_section g t = Running \<or> at_section g t = Leave_Sub")
  case False
  with assms(1) show ?thesis
  proof (cases rule: gate_step_cases)
    case (locks s)
    then show ?thesis using False assms(3) by (auto simp: may_lock_def moves split: gate_section.splits)
  qed (use assms(3) in \<open>auto simp: gate_parts\<close>)
next
  case True
  show ?thesis
  proof (cases "at_section g t = Running")
    case True
    then show ?thesis using assms by (auto simp: gate_step_def lock_gate_def retire_close_def moves split: if_splits)
  next
    case False
    then have "g' = leave_sub t g" "guards g t > 1" using True assms(1,4) by (auto simp: gate_step_def split: if_splits)
    then obtain m where "g' = unlock_gate t Leave_Notify (g\<lparr> guards := (guards g)(t := guards g t - 1), in_flight := m \<rparr>)"
      using leave_sub_eq [OF c] assms(3) by metis
    then show ?thesis using \<open>guards g t > 1\<close> by (simp add: moves)
  qed
qed

lemma leave_step:
  assumes "gate_step t Go g = Some g'" and "counts_ok g"
    and "at_section g t = Leave_Sub \<and> guards g t = 1 \<or> at_section g t = Leave_Notify \<and> guards g t = 0"
  shows "guards g' t = 0 \<and> (at_section g' t = Leave_Notify \<or> at_section g' t = Running)"
proof (cases "at_section g t = Leave_Sub")
  case True
  then have "g' = leave_sub t g" "guards g t > 0" using assms by (auto simp: gate_step_def)
  then obtain m where "g' = unlock_gate t Leave_Notify (g\<lparr> guards := (guards g)(t := guards g t - 1), in_flight := m \<rparr>)"
    using leave_sub_eq [OF assms(2)] by metis
  then show ?thesis using True assms(3) by (simp add: moves)
next
  case False
  then show ?thesis using assms by (auto simp: gate_step_def leave_notify_def moves)
qed

lemma work_worker_ok:
  assumes "worker_step h = Some h'" and g: "gate_ok (h_gate h)" and w: "worker_ok h"
  shows "worker_ok h'"
proof (cases "h_worker h")
  case Popping
  then show ?thesis using assms by (auto simp: worker_step_def worker_ok_def Let_def split: popped.splits prod.splits)
next
  case (Admitting item)
  then obtain g' where g': "gate_step (h_thread h) (if at_section (h_gate h) (h_thread h) = Running then Call_Enter else Go) (h_gate h) = Some g'"
    and h': "h' = (if at_section g' (h_thread h) \<noteq> Running then h\<lparr> h_gate := g' \<rparr>
       else if guards g' (h_thread h) > guards (h_gate h) (h_thread h)
       then h\<lparr> h_gate := g', h_worker := Delivering item, h_delivered := h_delivered h @ [item] \<rparr>
       else h\<lparr> h_gate := g', h_worker := Ended \<rparr>)"
    using assms(1) by (auto simp: worker_step_def through_gate_def Let_def)
  then show ?thesis using enter_step [OF g'] w Admitting by (auto simp: worker_ok_def Let_def)
next
  case (Delivering item)
  then show ?thesis using assms(1) w
    by (auto simp: worker_step_def through_gate_def worker_ok_def Let_def gate_step_def lock_gate_def moves split: if_splits)
next
  case Returning
  then obtain g' where g': "gate_step (h_thread h) Go (h_gate h) = Some g'"
    and h': "h' = (if at_section g' (h_thread h) = Running then h\<lparr> h_gate := g', h_worker := Popping \<rparr> else h\<lparr> h_gate := g' \<rparr>)"
    using assms(1) by (auto simp: worker_step_def through_gate_def Let_def)
  then show ?thesis using leave_step [OF g'] w g Returning by (auto simp: worker_ok_def Let_def gate_ok_def)
next
  case Ended
  then show ?thesis using assms(1) by (simp add: worker_step_def)
qed

lemma step_worker_ok:
  assumes "host_step a h = Some h'" and g: "gate_ok (h_gate h)" and w: "worker_ok h"
  shows "worker_ok h'"
proof (cases a)
  case (In_Callback b)
  then obtain item g' where g': "gate_step (h_thread h) b (h_gate h) = Some g'" "h' = h\<lparr> h_gate := g' \<rparr>"
    "h_worker h = Delivering item" "b = Drop_Guard \<longrightarrow> guards (h_gate h) (h_thread h) \<noteq> 1"
    using assms(1) by (auto simp: through_gate_def split: worker.splits if_splits)
  then show ?thesis using callback_step [OF g'(1) _ _ _ g'(4)] w g by (auto simp: worker_ok_def Let_def gate_ok_def)
next
  case (Others t b)
  then obtain g' where g': "gate_step t b (h_gate h) = Some g'" "h' = h\<lparr> h_gate := g' \<rparr>" "h_thread h \<noteq> t"
    using assms(1) by (auto split: if_splits)
  have "section_ok (h_gate h) t" using g by (simp add: gate_ok_def)
  then show ?thesis using step_other(1,2) [OF g'(1) _ g'(3)] w g'(2)
    by (auto simp: worker_ok_def Let_def notified_worker split: worker.splits)
qed (use assms work_worker_ok [OF _ g w] in \<open>auto simp: worker_ok_def send_def\<close>)

lemma push_bounded: "queue_bounded q \<Longrightarrow> queue_bounded (queue_push x q)"
  by (auto simp: queue_bounded_def queue_push_def count_drop_def split: option.splits Overflow.splits)

lemma close_bounded: "queue_bounded (queue_close q)"
  by (auto simp: queue_bounded_def queue_close_def split: option.splits Overflow.splits)

lemma push_fixed [simp]: "q_closed (queue_push x q) = q_closed q" "q_capacity (queue_push x q) = q_capacity q"
  "q_overflow (queue_push x q) = q_overflow q"
  by (auto simp: queue_push_def count_drop_def split: option.splits Overflow.splits)

lemma close_fixed [simp]: "q_closed (queue_close q)" "q_capacity (queue_close q) = q_capacity q"
  "q_overflow (queue_close q) = q_overflow q" "q_items (queue_close q) = []"
  by (auto simp: queue_close_def)

lemma push_suffix:
  assumes "q_overflow q = DropOldest" and "\<not> q_closed q" and "suffix (q_items q) sent"
  shows "suffix (q_items (queue_push x q)) (sent @ [x])"
proof -
  have "suffix (tl (q_items q)) sent" using assms(3) by (cases "q_items q") (auto dest: suffix_ConsD)
  then show ?thesis using assms by (auto simp: queue_push_def count_drop_def split: option.splits)
qed

lemma push_counted:
  assumes "\<not> q_closed q" and "q_capacity q \<noteq> Some 0"
  obtains d where "q_dropped (queue_push x q) = q_dropped q + of_nat d" "q_capacity q = None \<longrightarrow> d = 0"
    "length (q_items (queue_push x q)) + d = length (q_items q) + 1"
proof -
  have "\<exists>d. q_dropped (queue_push x q) = q_dropped q + of_nat d \<and> (q_capacity q = None \<longrightarrow> d = 0)
    \<and> length (q_items (queue_push x q)) + d = length (q_items q) + 1"
  proof (cases "q_capacity q")
    case None
    then show ?thesis using assms by (intro exI [of _ 0]) (simp add: queue_push_def)
  next
    case (Some c)
    then have "0 < c" using assms(2) by simp
    then show ?thesis using Some assms
      by (intro exI [of _ "if length (q_items q) < c then 0 else 1"])
        (auto simp: queue_push_def count_drop_def split: Overflow.splits)
  qed
  then show ?thesis by (elim exE conjE) (rule that)
qed

lemma work_items [consumes 1, case_names pops stays refused]:
  assumes "worker_step h = Some h'"
  obtains x where "pop_item (h_queue h) = Some (x, h_queue h')" "h_sent h' = h_sent h" "taken h' = taken h @ [x]" "h_worker h \<noteq> Ended"
  | "h_queue h' = h_queue h" "h_sent h' = h_sent h" "taken h' = taken h" "h_worker h \<noteq> Ended"
  | x where "h_queue h' = h_queue h" "h_sent h' = h_sent h" "taken h = taken h' @ [x]" "h_worker h' = Ended"
proof (cases "h_worker h")
  case Popping
  then show ?thesis using assms that
    by (auto simp: worker_step_def taken_def in_hand_def pop_item_def Let_def split: popped.splits prod.splits)
next
  case (Admitting item)
  then obtain g' where h': "h' = (if at_section g' (h_thread h) \<noteq> Running then h\<lparr> h_gate := g' \<rparr>
       else if guards g' (h_thread h) > guards (h_gate h) (h_thread h)
       then h\<lparr> h_gate := g', h_worker := Delivering item, h_delivered := h_delivered h @ [item] \<rparr>
       else h\<lparr> h_gate := g', h_worker := Ended \<rparr>)"
    using assms by (auto simp: worker_step_def through_gate_def Let_def)
  then show ?thesis using that Admitting by (auto simp: taken_def in_hand_def split: if_splits)
next
  case Ended
  then show ?thesis using assms by (simp add: worker_step_def)
qed (use assms that in \<open>auto simp: worker_step_def through_gate_def taken_def in_hand_def Let_def split: if_splits\<close>)

lemma host_items [consumes 1, case_names sends closes pops stays refused]:
  assumes "host_step a h = Some h'"
  obtains x where "h' = send x h"
  | "h' = h\<lparr> h_queue := queue_close (h_queue h) \<rparr>"
  | x where "pop_item (h_queue h) = Some (x, h_queue h')" "h_sent h' = h_sent h" "taken h' = taken h @ [x]" "h_worker h \<noteq> Ended"
  | "h_queue h' = h_queue h" "h_sent h' = h_sent h" "taken h' = taken h" "h_worker h = Ended \<longrightarrow> h_worker h' = Ended"
  | x where "h_queue h' = h_queue h" "h_sent h' = h_sent h" "taken h = taken h' @ [x]" "h_worker h' = Ended"
proof (cases a)
  case Work
  then have "worker_step h = Some h'" using assms by simp
  then show ?thesis by (cases rule: work_items) (use that in auto)
next
  case (In_Callback b)
  then obtain g where "h' = h\<lparr> h_gate := g \<rparr>"
    using assms by (auto simp: through_gate_def split: worker.splits if_splits)
  then show ?thesis using that(4) by (simp add: taken_def)
next
  case (Others t b)
  then obtain g where "h' = h\<lparr> h_gate := g \<rparr>" using assms by (auto split: if_splits)
  then show ?thesis using that(4) by (simp add: taken_def)
qed (use assms that(1,2) in auto)

lemma pop_item_cases:
  assumes "pop_item q = Some (x, q')"
  shows "q_items q = x # q_items q'" "q_closed q' = q_closed q" "q_capacity q' = q_capacity q"
    "q_overflow q' = q_overflow q" "q_dropped q' = q_dropped q"
  using assms by (auto simp: pop_item_def queue_pop_def split: list.splits if_splits)

lemma pop_bounded: "pop_item q = Some (x, q') \<Longrightarrow> queue_bounded q \<Longrightarrow> queue_bounded q'"
  using pop_item_cases [of q x q'] by (auto simp: queue_bounded_def split: option.splits Overflow.splits)

lemma step_delivery_ok:
  assumes "host_step a h = Some h'" and ok: "delivery_ok h"
  shows "delivery_ok h'"
  using assms(1)
proof (cases rule: host_items)
  case (sends x)
  have "q_items (queue_push x (h_queue h)) = q_items (h_queue h)" if "q_closed (h_queue h)"
    using that by (simp add: queue_push_def)
  then show ?thesis
    using sends ok hq.put_in_order [of "taken h" "h_queue h" "h_sent h" x] push_bounded [of "h_queue h" x]
      push_suffix [of "h_queue h" "h_sent h" x]
    by (auto simp: delivery_ok_def send_def taken_def)
next
  case closes
  then show ?thesis using ok hq.empty_in_order [of "taken h" "h_queue h" "h_sent h"] close_bounded
    by (auto simp: delivery_ok_def taken_def)
next
  case (pops x)
  then show ?thesis using ok hq.take_in_order [OF pops(1), of "taken h"] pop_bounded [OF pops(1)] pop_item_cases [OF pops(1)]
    by (auto simp: delivery_ok_def dest: suffix_ConsD)
next
  case (refused x)
  have "subseq (taken h' @ q_items (h_queue h')) (taken h @ q_items (h_queue h))"
    using refused by (simp add: subseq_append' list_emb_Cons)
  then have "subseq (taken h' @ q_items (h_queue h')) (h_sent h')"
    using ok refused(2) subseq_order.order_trans unfolding delivery_ok_def by metis
  then show ?thesis using ok refused(1,2) by (simp add: delivery_ok_def)
qed (use ok in \<open>auto simp: delivery_ok_def\<close>)

lemma step_drops_ok:
  assumes "host_step a h = Some h'" and ok: "drops_ok h"
  shows "drops_ok h'"
  using assms(1)
proof (cases rule: host_items)
  case (sends x)
  show ?thesis
  proof (cases "q_closed (h_queue h) \<or> h_worker h = Ended \<or> q_capacity (h_queue h) = Some 0")
    case False
    then obtain k where k: "q_dropped (h_queue h) = of_nat k" "q_capacity (h_queue h) = None \<longrightarrow> k = 0"
      "length (taken h) + length (q_items (h_queue h)) + k = length (h_sent h)" using ok by (auto simp: drops_ok_def)
    obtain d where d: "q_dropped (queue_push x (h_queue h)) = q_dropped (h_queue h) + of_nat d" "q_capacity (h_queue h) = None \<longrightarrow> d = 0"
      "length (q_items (queue_push x (h_queue h))) + d = length (q_items (h_queue h)) + 1"
      using push_counted [of "h_queue h" x] False by blast
    have "q_dropped (h_queue h') = of_nat (k + d)" "length (taken h') = length (taken h)" "length (h_sent h') = length (h_sent h) + 1"
      "h_queue h' = queue_push x (h_queue h)"
      using sends k(1) d(1) False by (auto simp: send_def taken_def)
    then show ?thesis unfolding drops_ok_def using k d by (intro disjI2 exI [of _ "k + d"]) auto
  qed (use sends in \<open>auto simp: drops_ok_def send_def\<close>)
next
  case (pops x)
  then show ?thesis using ok pop_item_cases [OF pops(1)] by (auto simp: drops_ok_def)
qed (use ok in \<open>auto simp: drops_ok_def\<close>)

lemma step_host_ok: "host_step a h = Some h' \<Longrightarrow> host_ok h \<Longrightarrow> host_ok h'"
  using host_gate_ok step_worker_ok step_delivery_ok step_drops_ok unfolding host_ok_def by blast

lemma reaches_host_ok: "host_reaches h h' \<Longrightarrow> host_ok h \<Longrightarrow> host_ok h'"
  by (induction rule: host_reaches.induct) (auto intro: step_host_ok)

lemma spawn_ok: "host_ok (spawn w c ov)"
  using new_gate_ok
  by (auto simp: host_ok_def spawn_def worker_ok_def delivery_ok_def drops_ok_def queue_bounded_def Queue_new_def
      taken_def in_hand_def CallbackGate_new_def split: option.splits)

lemma step_fixed:
  assumes "host_step a h = Some h'"
  shows "q_capacity (h_queue h') = q_capacity (h_queue h)" and "q_overflow (h_queue h') = q_overflow (h_queue h)"
  using assms by (cases rule: host_items; auto simp: send_def dest: pop_item_cases)+

lemma reaches_fixed:
  "host_reaches h h' \<Longrightarrow> q_capacity (h_queue h') = q_capacity (h_queue h) \<and> q_overflow (h_queue h') = q_overflow (h_queue h)"
  by (induction rule: host_reaches.induct) (auto simp: step_fixed)

lemma run_host_reaches: "host_run as h = Some h' \<Longrightarrow> host_reaches h h'"
proof -
  have "host_run as h1 = Some h' \<Longrightarrow> host_reaches h h1 \<Longrightarrow> host_reaches h h'" for h1
    by (induction as arbitrary: h1) (auto split: option.splits intro: host_more)
  then show "host_run as h = Some h' \<Longrightarrow> host_reaches h h'" using host_refl by blast
qed

text \<open>A delivery starts only by a count that went up, so none starts behind a quiescent gate.\<close>

lemma step_quiet:
  assumes "host_step a h = Some h'" and "host_ok h" and q: "quiescent (h_gate h)"
  shows "quiescent (h_gate h')" and "h_delivered h' = h_delivered h"
proof -
  have ok: "section_ok (h_gate h) t" for t using assms(2) by (auto simp: host_ok_def gate_ok_def)
  show q': "quiescent (h_gate h')"
    using host_gate_step(1) [OF assms(1)] step_quiescent [OF _ q ok] q by auto
  then have "guards (h_gate h') t = 0" for t by (simp add: quiescent_def)
  then show "h_delivered h' = h_delivered h"
    using assms(1)
    by (cases a) (auto simp: send_def worker_step_def through_gate_def Let_def split: worker.splits if_splits popped.splits prod.splits)
qed

lemma reaches_quiet:
  "host_reaches h h' \<Longrightarrow> host_ok h \<Longrightarrow> quiescent (h_gate h) \<Longrightarrow> quiescent (h_gate h') \<and> h_delivered h' = h_delivered h"
proof (induction rule: host_reaches.induct)
  case (host_more h h1 a h2)
  then show ?case using step_quiet [OF host_more(2)] reaches_host_ok [OF host_more(1)] by auto
qed simp

lemma dropped_host [simp]:
  "snd (host_drop me ht) \<noteq> Some me" "snd (host_drop me (host_abandon ht)) = None" "q_closed (ht_queue (fst (host_drop me ht)))"
  by (auto simp: host_drop_def host_abandon_def split: option.splits)

lemma destroy_joined:
  assumes "reactor_destroy me q (Some rh) = (Some hs', aborted, joined, code)"
  shows "aborted = tasks rh" and "q = Incomplete \<Longrightarrow> joined = []" and "me \<notin> set joined" and "code = (if q = Complete then 0 else -1)"
    and "q_closed (ht_queue (control hs'))"
    and "\<forall>v \<in> set_option (video hs'). q_closed (ht_queue v)" and "\<forall>a \<in> set_option (audio hs'). q_closed (ht_queue a)"
  using assms
  by (cases q; cases "video (hosts rh)"; cases "audio (hosts rh)";
      auto simp: reactor_destroy_def hosts_abandon_def map_filter_simps Let_def split: option.splits)+

text \<open>Behind a quiescent gate a worker whose queue is closed is at most two steps from its end.\<close>

lemma worker_ends:
  assumes "host_reaches (spawn w c ov) h" and "(t, Complete) \<in> set (results (h_gate h))"
    and "q_closed (h_queue h)" and "gate_lock (h_gate h) = None"
  shows "\<exists>n \<le> 2. \<exists>h'. host_run (replicate n Work) h = Some h' \<and> h_worker h' = Ended \<and> h_delivered h' = h_delivered h"
proof -
  have ok: "host_ok h" using reaches_host_ok [OF assms(1) spawn_ok] .
  then have q: "\<not> gate_open (h_gate h)" "guards (h_gate h) u = 0" "at_section (h_gate h) u \<noteq> Enter_Add" for u
    using assms(2) by (auto simp: host_ok_def gate_ok_def results_ok_def quiescent_def)
  have i: "q_items (h_queue h) = []" using ok assms(3) by (simp add: host_ok_def delivery_ok_def queue_bounded_def)
  have s: "section_ok (h_gate h) (h_thread h)" and w: "worker_ok h" using ok by (auto simp: host_ok_def gate_ok_def)
  show ?thesis
  proof (cases "h_worker h")
    case Popping
    then show ?thesis using i assms(3) by (intro exI [of _ 1]) (simp add: worker_step_def queue_pop_def)
  next
    case (Admitting item)
    then have "at_section (h_gate h) (h_thread h) = Running"
      using w q(3) s assms(4) by (auto simp: worker_ok_def Let_def section_ok_def section_kinds)
    then show ?thesis using Admitting assms(4) q(1,2)
      by (intro exI [of _ 2]) (simp add: numeral_2_eq_2 worker_step_def through_gate_def gate_step_def gate_parts)
  next
    case (Delivering item)
    then show ?thesis using w q(2) by (simp add: worker_ok_def Let_def)
  next
    case Returning
    then have "at_section (h_gate h) (h_thread h) = Leave_Notify" using w q(2) by (simp add: worker_ok_def Let_def)
    then show ?thesis using Returning i assms(3)
      by (intro exI [of _ 2]) (simp add: numeral_2_eq_2 worker_step_def through_gate_def gate_step_def leave_notify_def moves queue_pop_def)
  next
    case Ended
    then show ?thesis by (intro exI [of _ 0]) simp
  qed
qed

section \<open>Properties\<close>

text \<open>
  C16: A host thread delivers what was sent to it in order: what it delivered, the item in
  its hand and what is queued is a subsequence of what was sent while the queue was open. A bounded
  queue keeps within its capacity (a queue of capacity zero that drops the oldest holds one item), one
  that drops the oldest always holds the newest items, and as long as the queue is open and the gate
  refused no item, the number of items missing is the drop count, which an unbounded queue leaves at
  zero.
\<close>

theorem deliveries_in_order:
  assumes "host_reaches (spawn w c ov) h"
  shows "subseq (h_delivered h @ in_hand (h_worker h) @ q_items (h_queue h)) (h_sent h)
    \<and> (\<forall>n. c = Some n \<longrightarrow> length (q_items (h_queue h)) \<le> (if ov = DropOldest then max 1 n else n))
    \<and> (ov = DropOldest \<and> \<not> q_closed (h_queue h) \<longrightarrow> suffix (q_items (h_queue h)) (h_sent h))
    \<and> (\<not> q_closed (h_queue h) \<and> h_worker h \<noteq> Ended \<longrightarrow>
        (c \<noteq> Some 0 \<longrightarrow> (\<exists>k. q_dropped (h_queue h) = of_nat k \<and>
          length (h_delivered h @ in_hand (h_worker h) @ q_items (h_queue h)) + k = length (h_sent h)))
      \<and> (c = None \<longrightarrow> h_delivered h @ in_hand (h_worker h) @ q_items (h_queue h) = h_sent h))"
proof -
  have ok: "delivery_ok h" "drops_ok h" using reaches_host_ok [OF assms spawn_ok] by (auto simp: host_ok_def)
  have f: "q_capacity (h_queue h) = c" "q_overflow (h_queue h) = ov"
    using reaches_fixed [OF assms] by (auto simp: spawn_def Queue_new_def)
  have t: "h_delivered h @ in_hand (h_worker h) @ q_items (h_queue h) = taken h @ q_items (h_queue h)" by (simp add: taken_def)
  have "length (q_items (h_queue h)) \<le> (if ov = DropOldest then max 1 n else n)" if "c = Some n" for n
    using ok(1) f that by (cases ov) (auto simp: delivery_ok_def queue_bounded_def)
  moreover have "\<exists>k. q_dropped (h_queue h) = of_nat k \<and> length (taken h @ q_items (h_queue h)) + k = length (h_sent h) \<and> (c = None \<longrightarrow> k = 0)"
    if "\<not> q_closed (h_queue h)" "h_worker h \<noteq> Ended" "c \<noteq> Some 0"
    using ok(2) f that by (auto simp: drops_ok_def)
  moreover have "taken h @ q_items (h_queue h) = h_sent h" if "length (taken h @ q_items (h_queue h)) = length (h_sent h)"
    using ok(1) subseq_same_length that by (metis delivery_ok_def)
  ultimately show ?thesis using ok(1) f unfolding t delivery_ok_def by fastforce
qed

text \<open>A queue of one item that drops the oldest, with a slow worker.\<close>

definition sample_host :: "nat host_act list" where
  "sample_host = [Send 1, Work, Work, Work, Work, Send 2, Send 3, Others 5 Call_Retire, Others 5 Go, Others 5 Go]"

theorem deliveries_in_order_witness:
  "\<exists>h. host_reaches (spawn 0 (Some 1) DropOldest) h \<and> h_delivered h = [1] \<and> q_items (h_queue h) = [3] \<and> h_sent h = [1, 2, 3]
     \<and> subseq ([1] @ in_hand (h_worker h) @ [3]) [1, 2, 3::nat] \<and> suffix (q_items (h_queue h)) (h_sent h)"
proof -
  have "map_option (\<lambda>h. (h_delivered h, q_items (h_queue h), h_sent h, q_closed (h_queue h))) (host_run sample_host (spawn 0 (Some 1) DropOldest))
      = Some ([1], [3], [1, 2, 3], False)" by code_simp
  then obtain h where h: "host_run sample_host (spawn 0 (Some 1) DropOldest) = Some h"
    "h_delivered h = [1]" "q_items (h_queue h) = [3]" "h_sent h = [1, 2, 3]" "\<not> q_closed (h_queue h)" by auto
  have r: "host_reaches (spawn 0 (Some 1) DropOldest) h" using run_host_reaches [OF h(1)] .
  have "subseq (h_delivered h @ in_hand (h_worker h) @ q_items (h_queue h)) (h_sent h) \<and> suffix (q_items (h_queue h)) (h_sent h)"
    using deliveries_in_order [OF r] h(5) by simp
  then show ?thesis using r h by (intro exI [of _ h]) simp
qed

text \<open>
  Behind a retired gate nothing is delivered. Once a call of retire returned Complete, no
  delivery is in progress, and none starts, whatever is still queued, sent or done on other threads.
\<close>

theorem no_delivery_after_retire:
  assumes "host_reaches (spawn w c ov) h" and "(t, Complete) \<in> set (results (h_gate h))" and "host_reaches h h'"
  shows "h_delivered h' = h_delivered h \<and> (\<forall>item. h_worker h' \<noteq> Delivering item)"
proof -
  have ok: "host_ok h" using reaches_host_ok [OF assms(1) spawn_ok] .
  then have "quiescent (h_gate h)" using assms(2) by (auto simp: host_ok_def gate_ok_def results_ok_def)
  then have q: "quiescent (h_gate h')" "h_delivered h' = h_delivered h" using reaches_quiet [OF assms(3) ok] by auto
  have "worker_ok h'" using reaches_host_ok [OF assms(3) ok] by (simp add: host_ok_def)
  then show ?thesis using q by (auto simp: worker_ok_def quiescent_def Let_def split: worker.splits)
qed

theorem no_delivery_after_retire_witness:
  "\<exists>h. host_reaches (spawn 0 None DropNewest) h \<and> h_delivered h = [1] \<and> q_items (h_queue h) = [2]
     \<and> (\<forall>h'. host_reaches h h' \<longrightarrow> h_delivered h' = [1::nat])"
proof -
  let ?as = "[Send 1, Work, Work, Work, Work, Send 2, Work, Work, Work, Others 5 Call_Retire, Others 5 Go, Others 5 Go] :: nat host_act list"
  have "map_option (\<lambda>h. (h_delivered h, q_items (h_queue h), results (h_gate h))) (host_run ?as (spawn 0 None DropNewest))
      = Some ([1], [2], [(5, Complete)])" by code_simp
  then obtain h where h: "host_run ?as (spawn 0 None DropNewest) = Some h"
    "h_delivered h = [1]" "q_items (h_queue h) = [2]" "results (h_gate h) = [(5, Complete)]" by auto
  have r: "host_reaches (spawn 0 None DropNewest) h" using run_host_reaches [OF h(1)] .
  have "(5, Complete) \<in> set (results (h_gate h))" using h(4) by simp
  from no_delivery_after_retire [OF r this] show ?thesis using r h by (intro exI [of _ h]) auto
qed

text \<open>
  C17: Destroying a handle never waits for a callback. Every queue is closed and
  every task aborted. If the gate
  could not be retired, no thread is joined and the host is told by -1 to keep its pointers. If it was
  retired, the caller does not join itself, and a worker it joins, whose queue is closed, ends in at
  most two steps of its own when the gate's mutex is free, running no callback.
\<close>

theorem destroy_ends:
  assumes d: "reactor_destroy me q (Some rh) = (Some hs', aborted, joined, code)"
    and h: "host_reaches (spawn w c ov) h" "(me, q) \<in> set (results (h_gate h))" "q_closed (h_queue h)"
      "gate_lock (h_gate h) = None"
  shows "code = (if q = Complete then 0 else -1) \<and> aborted = tasks rh \<and> me \<notin> set joined \<and> (q = Incomplete \<longrightarrow> joined = [])
     \<and> q_closed (ht_queue (control hs')) \<and> (\<forall>v \<in> set_option (video hs'). q_closed (ht_queue v))
     \<and> (\<forall>a \<in> set_option (audio hs'). q_closed (ht_queue a))
     \<and> (w \<in> set joined \<longrightarrow> (\<exists>n \<le> 2. \<exists>h'. host_run (replicate n Work) h = Some h' \<and> h_worker h' = Ended
          \<and> h_delivered h' = h_delivered h))"
proof -
  have j: "q = Complete" if "w \<in> set joined" using destroy_joined(2) [OF d] that by (cases q) auto
  show ?thesis using destroy_joined [OF d] worker_ends [OF h(1) _ h(3,4)] h(2) j by blast
qed

theorem destroy_ends_witness:
  "\<exists>h. host_reaches (spawn 7 None DropNewest) h \<and> (\<exists>n \<le> 2. \<exists>h'. host_run (replicate n Work) h = Some h'
     \<and> h_worker h' = Ended \<and> h_delivered h' = [1::nat])"
proof -
  let ?as = "[Send 1, Work, Work, Work, Work, Send 2, Work, Work, Work, Work, Others 5 Call_Retire, Others 5 Go, Others 5 Go,
    Close_Queue] :: nat host_act list"
  let ?t = "\<lparr> ht_queue = Queue_new None DropNewest, ht_join = Some 7 \<rparr> :: nat HostThread"
  let ?rh = "\<lparr> tasks = [()], hosts = \<lparr> control = ?t, video = None, audio = None \<rparr> \<rparr> :: (unit, nat, nat, nat) ReactorHandle"
  have "map_option (\<lambda>h. (h_delivered h, q_closed (h_queue h), results (h_gate h), gate_lock (h_gate h)))
      (host_run ?as (spawn 7 None DropNewest)) = Some ([1], True, [(5, Complete)], None)" by code_simp
  then obtain h where h: "host_run ?as (spawn 7 None DropNewest) = Some h" "h_delivered h = [1]"
    "q_closed (h_queue h)" "results (h_gate h) = [(5, Complete)]" "gate_lock (h_gate h) = None" by auto
  have r: "host_reaches (spawn 7 None DropNewest) h" using run_host_reaches [OF h(1)] .
  obtain hs' code where d: "reactor_destroy 5 Complete (Some ?rh) = (Some hs', [()], [7], code)"
    by (simp add: reactor_destroy_def host_drop_def map_filter_simps)
  have "(5, Complete) \<in> set (results (h_gate h))" using h(4) by simp
  from destroy_ends [OF d r this h(3,5)] show ?thesis using r h(2) by auto
qed

end
