(* ===== verification/Clip_Download.thy ===== *)
theory Clip_Download
  imports Recording
begin

text \<open>
  Downloading a clip to a file (\<^verbatim>\<open>download_clip_to_file\<close> and \<^verbatim>\<open>write_segments\<close> of
  \<^verbatim>\<open>reactor-ffi/src/lib.rs\<close>), on top of the requests of \<open>Recording\<close>. The file system is tokio's and a
  parameter: \<open>files\<close> holds the operations the code calls, each of which may fail with a message.
  \<open>clip_env_ok\<close> states what is relied on of it and of the host: creating truncates, writing appends, and
  nothing else touches the file. The progress callback is any function on the state. As in
  \<open>Recording\<close>, \<^const>\<open>None\<close> is a wait for the playlist that never ends.
\<close>

section \<open>Definitions\<close>

record ('s, 'f) files =
  fs_create :: "string \<Rightarrow> 's \<Rightarrow> (string, 'f) result \<times> 's"
  fs_write_all :: "'f \<Rightarrow> string \<Rightarrow> 's \<Rightarrow> (string, unit) result \<times> 's"
  fs_flush :: "'f \<Rightarrow> 's \<Rightarrow> (string, unit) result \<times> 's"
  fs_remove_file :: "string \<Rightarrow> 's \<Rightarrow> (string, unit) result \<times> 's"

definition cannot_write :: "string \<Rightarrow> string \<Rightarrow> CoreError" where
  "cannot_write out_path e = Http (''cannot write '' @ out_path @ '': '' @ e)"

definition writing :: "string \<Rightarrow> ('s \<Rightarrow> (string, 'a) result \<times> 's) \<Rightarrow> ('s, 'a) io" where
  "writing out_path m = (\<lambda>s. case m s of
     (Inl e, s') \<Rightarrow> (Inl (Fail (cannot_write out_path e)), s')
   | (Inr x, s') \<Rightarrow> (Inr x, s'))"

definition report :: "(u32 \<Rightarrow> u32 \<Rightarrow> 's \<Rightarrow> 's) option \<Rightarrow> u32 \<Rightarrow> u32 \<Rightarrow> ('s, unit) io" where
  "report progress n whole = (case progress of None \<Rightarrow> retE () | Some f \<Rightarrow> modifyE (f n whole))"

text \<open>The loop over the requests: the index, and the bytes written so far.\<close>

primrec segment_loop ::
    "'s host \<Rightarrow> ('s, 'f) files \<Rightarrow> string \<Rightarrow> (u32 \<Rightarrow> u32 \<Rightarrow> 's \<Rightarrow> 's) option \<Rightarrow> 'f \<Rightarrow> u32 \<Rightarrow>
       HttpRequest list \<Rightarrow> u32 \<Rightarrow> u64 \<Rightarrow> ('s, u64) io" where
  "segment_loop h fs out_path progress file whole [] index written = retE written"
| "segment_loop h fs out_path progress file whole (request # requests) index written =
     bindE (http_request h request) (\<lambda>response.
     bindE (liftE (check_status response (''fetch clip segment '' @ req_url request))) (\<lambda>_.
     bindE (writing out_path (fs_write_all fs file (resp_body response))) (\<lambda>_.
     bindE (report progress (index + 1) whole) (\<lambda>_.
       segment_loop h fs out_path progress file whole requests (index + 1)
         (written + of_nat (length (resp_body response)))))))"

definition clip_summary :: "string \<Rightarrow> u64 \<Rightarrow> u32 \<Rightarrow> json" where
  "clip_summary out_path written whole =
     JObject [(''bytes'', JNumber (PosInt written)), (''path'', JString out_path), (''segments'', JNumber (PosInt (ucast whole)))]"

definition write_segments ::
    "'s host \<Rightarrow> ('s, 'f) files \<Rightarrow> string \<Rightarrow> string option \<Rightarrow> string \<Rightarrow> 's Readiness \<Rightarrow>
       (u32 \<Rightarrow> u32 \<Rightarrow> 's \<Rightarrow> 's) option \<Rightarrow> 'f \<Rightarrow> 's \<Rightarrow> ((failure, json) result \<times> 's) option" where
  "write_segments h fs playlist_url jwt out_path readiness progress file s =
     (case clip_segment_requests h playlist_url jwt readiness s of
        None \<Rightarrow> None
      | Some (Inl f, s) \<Rightarrow> Some (Inl f, s)
      | Some (Inr requests, s) \<Rightarrow>
          let whole = of_nat (length requests) in
          Some (bindE (segment_loop h fs out_path progress file whole requests 0 0) (\<lambda>written.
                bindE (writing out_path (fs_flush fs file)) (\<lambda>_.
                  retE (clip_summary out_path written whole))) s))"

definition download_clip_to_file ::
    "'s host \<Rightarrow> ('s, 'f) files \<Rightarrow> string \<Rightarrow> string option \<Rightarrow> string \<Rightarrow> 's Readiness \<Rightarrow>
       (u32 \<Rightarrow> u32 \<Rightarrow> 's \<Rightarrow> 's) option \<Rightarrow> 's \<Rightarrow> ((failure, json) result \<times> 's) option" where
  "download_clip_to_file h fs playlist_url jwt out_path readiness progress s =
     (case writing out_path (fs_create fs out_path) s of
        (Inl f, s) \<Rightarrow> Some (Inl f, s)
      | (Inr file, s) \<Rightarrow>
          (case write_segments h fs playlist_url jwt out_path readiness progress file s of
             None \<Rightarrow> None
           | Some (Inr result, s) \<Rightarrow> Some (Inr result, s)
           | Some (Inl (Fail error), s) \<Rightarrow> Some (Inl (Fail error), snd (fs_remove_file fs out_path s))
           | Some (Inl Panic, s) \<Rightarrow> Some (Inl Panic, s)))"

text \<open>
  What is relied on, of an observation of the file's contents and of the responses served so far.
\<close>

definition host_beside ::
    "'s host \<Rightarrow> ('s \<Rightarrow> string option) \<Rightarrow> ('s \<Rightarrow> (HttpRequest \<times> HttpResponse) list) \<Rightarrow> bool" where
  "host_beside h contents served \<longleftrightarrow>
     (\<forall>r s. contents (snd (http_request h r s)) = contents s)
   \<and> (\<forall>r s p s'. http_request h r s = (Inr p, s') \<longrightarrow> served s' = served s @ [(r, p)])
   \<and> (\<forall>d s. contents (sleep h d s) = contents s)"

definition progress_beside ::
    "(u32 \<Rightarrow> u32 \<Rightarrow> 's \<Rightarrow> 's) option \<Rightarrow> ('s \<Rightarrow> string option) \<Rightarrow> ('s \<Rightarrow> (HttpRequest \<times> HttpResponse) list) \<Rightarrow> bool" where
  "progress_beside progress contents served \<longleftrightarrow>
     (\<forall>f n t s. progress = Some f \<longrightarrow> contents (f n t s) = contents s \<and> served (f n t s) = served s)"

definition file_ok ::
    "('s, 'f) files \<Rightarrow> 'f \<Rightarrow> ('s \<Rightarrow> string option) \<Rightarrow> ('s \<Rightarrow> (HttpRequest \<times> HttpResponse) list) \<Rightarrow> bool" where
  "file_ok fs file contents served \<longleftrightarrow>
     (\<forall>d t t'. fs_write_all fs file d t = (Inr (), t') \<longrightarrow>
        contents t' = map_option (\<lambda>c. c @ d) (contents t) \<and> served t' = served t)
   \<and> (\<forall>t t'. fs_flush fs file t = (Inr (), t') \<longrightarrow> contents t' = contents t \<and> served t' = served t)"

definition clip_env_ok ::
    "'s host \<Rightarrow> ('s, 'f) files \<Rightarrow> (u32 \<Rightarrow> u32 \<Rightarrow> 's \<Rightarrow> 's) option \<Rightarrow> string \<Rightarrow>
       ('s \<Rightarrow> string option) \<Rightarrow> ('s \<Rightarrow> (HttpRequest \<times> HttpResponse) list) \<Rightarrow> bool" where
  "clip_env_ok h fs progress out_path contents served \<longleftrightarrow> host_beside h contents served \<and> progress_beside progress contents served
   \<and> (\<forall>s s' file. fs_create fs out_path s = (Inr file, s') \<longrightarrow> contents s' = Some [] \<and> file_ok fs file contents served)
   \<and> (\<forall>s s'. fs_remove_file fs out_path s = (Inr (), s') \<longrightarrow> contents s' = None)"

section \<open>What a download leaves in the file\<close>

text \<open>Waiting for the playlist does not touch the file.\<close>

lemma poll_playlist_contents:
  assumes "host_beside h contents served"
  shows "contents (snd (poll_playlist h url jwt readiness remaining polls s)) = contents s"
proof -
  obtain r s1 where r: "http_request h (playlist_request url jwt) s = (r, s1)" by (cases "http_request h (playlist_request url jwt) s")
  have "contents s1 = contents s" using assms r unfolding host_beside_def by (metis snd_conv)
  moreover have "contents (sleep h d s1) = contents s1" for d using assms by (simp add: host_beside_def)
  ultimately show ?thesis using r by (simp add: poll_playlist_def split: sum.splits option.splits)
qed

lemma fetch_loop_contents:
  assumes ok: "host_beside h contents served"
  shows "fetch_loop h url jwt readiness remaining polls s = Some r \<Longrightarrow> contents (snd r) = contents s"
proof -
  have "fetch_loop h url jwt readiness remaining polls s = Some r \<Longrightarrow> host_beside h contents served \<longrightarrow> contents (snd r) = contents s"
  proof (rule fetch_loop.raw_induct [where P = "\<lambda>h url jwt readiness remaining polls s r.
      host_beside h contents served \<longrightarrow> contents (snd r) = contents s"])
    fix f :: "'a host \<Rightarrow> string \<Rightarrow> string option \<Rightarrow> 'a Readiness \<Rightarrow> duration option \<Rightarrow> nat \<Rightarrow> 'a \<Rightarrow> ((failure, string) result \<times> 'a) option"
      and h url jwt readiness remaining polls s r
    assume IH: "\<And>h url jwt readiness remaining polls s r. f h url jwt readiness remaining polls s = Some r \<Longrightarrow>
        host_beside h contents served \<longrightarrow> contents (snd r) = contents s"
      and b: "(case poll_playlist h url jwt readiness remaining polls s of (Inl r, s') \<Rightarrow> Some (r, s')
        | (Inr remaining', s') \<Rightarrow> f h url jwt readiness remaining' (Suc polls) s') = Some r"
    obtain o' s1 where p: "poll_playlist h url jwt readiness remaining polls s = (o', s1)"
      by (cases "poll_playlist h url jwt readiness remaining polls s")
    show "host_beside h contents served \<longrightarrow> contents (snd r) = contents s"
    proof
      assume h: "host_beside h contents served"
      have "contents s1 = contents s" using poll_playlist_contents [OF h, of url jwt readiness remaining polls s] p by simp
      then show "contents (snd r) = contents s" using b p IH h by (cases o') auto
    qed
  qed
  then show "fetch_loop h url jwt readiness remaining polls s = Some r \<Longrightarrow> contents (snd r) = contents s" using ok by blast
qed

lemma clip_requests_contents:
  assumes "host_beside h contents served" and "clip_segment_requests h url jwt readiness s = Some (r, s')"
  shows "contents s' = contents s"
  using assms(2) fetch_loop_contents [OF assms(1)]
  by (fastforce simp: clip_segment_requests_def fetch_playlist_def split: option.splits prod.splits sum.splits)

text \<open>A loop that succeeds appends the bodies of the responses, in the order of the requests.\<close>

definition appended where
  "appended contents served requests resps s s' \<longleftrightarrow> length resps = length requests
     \<and> served s' = served s @ zip requests resps \<and> contents s' = map_option (\<lambda>c. c @ concat (map resp_body resps)) (contents s)
     \<and> list_all is_success resps"

lemma bindE_Inr_iff: "bindE m f s = (Inr x, s') \<longleftrightarrow> (\<exists>y s1. m s = (Inr y, s1) \<and> f y s1 = (Inr x, s'))"
  by (auto simp: bindE_def split: prod.splits sum.splits)

lemma liftE_Inr_iff: "liftE r s = (Inr x, s') \<longleftrightarrow> r = Inr x \<and> s' = s"
  by (auto simp: liftE_def failE_def retE_def split: sum.splits)

lemma writing_Inr_iff: "writing out_path m s = (Inr x, s') \<longleftrightarrow> m s = (Inr x, s')"
  by (auto simp: writing_def split: prod.splits sum.splits)

lemma check_status_ok: "check_status p ctx = Inr () \<Longrightarrow> is_success p"
  by (auto simp: check_status_def is_success_def Let_def split: if_splits)

lemma segment_loop_appends:
  assumes h: "host_beside h contents served" and f: "file_ok fs file contents served"
    and pr: "progress_beside progress contents served"
  shows "segment_loop h fs out_path progress file whole requests index written s = (Inr w, s') \<Longrightarrow>
    \<exists>resps. appended contents served requests resps s s' \<and> w = written + of_nat (length (concat (map resp_body resps)))"
proof (induction requests arbitrary: index written s)
  case Nil
  then show ?case by (simp add: retE_def appended_def option.map_ident)
next
  case (Cons q requests)
  then obtain p s1 s2 s3 where p: "http_request h q s = (Inr p, s1)"
    and c: "check_status p (''fetch clip segment '' @ req_url q) = Inr ()"
    and w: "fs_write_all fs file (resp_body p) s1 = (Inr (), s2)"
    and r: "report progress (index + 1) whole s2 = (Inr (), s3)"
    and l: "segment_loop h fs out_path progress file whole requests (index + 1) (written + of_nat (length (resp_body p))) s3 = (Inr w, s')"
    unfolding segment_loop.simps bindE_Inr_iff liftE_Inr_iff writing_Inr_iff by auto
  have r': "contents s3 = contents s2" "served s3 = served s2"
    using r pr by (cases progress; auto simp: progress_beside_def report_def retE_def modifyE_def)+
  from Cons.IH [OF l] obtain resps where ih: "appended contents served requests resps s3 s'"
    "w = written + of_nat (length (resp_body p)) + of_nat (length (concat (map resp_body resps)))" by blast
  have "contents s1 = contents s" "served s1 = served s @ [(q, p)]" using h p unfolding host_beside_def by (metis snd_conv)+
  moreover have "contents s2 = map_option (\<lambda>c. c @ resp_body p) (contents s1)" "served s2 = served s1"
    using f w by (auto simp: file_ok_def)
  ultimately have "appended contents served (q # requests) (p # resps) s s'"
    using ih(1) r' check_status_ok [OF c] by (simp add: appended_def option.map_comp comp_def)
  then show ?case using ih(2) by (intro exI [of _ "p # resps"]) simp
qed

section \<open>Properties\<close>

text \<open>
  C22: A clip that was downloaded is whole. When the download succeeds, the file holds the bodies of
  the segments, in the order of the playlist's requests and nothing else, every one of them fetched
  successfully, and the summary gives its length and the number of segments. When it fails, either the
  file could not be created or it was removed again, so that no truncated clip is left behind unless
  the removal itself failed.
\<close>

theorem clip_file_complete:
  assumes ok: "clip_env_ok h fs progress out_path contents served"
    and d: "download_clip_to_file h fs url jwt out_path readiness progress s = Some (res, s')"
  shows "case res of
     Inr summary \<Rightarrow> \<exists>fh s0 requests s1 resps. fs_create fs out_path s = (Inr fh, s0)
       \<and> clip_segment_requests h url jwt readiness s0 = Some (Inr requests, s1)
       \<and> length resps = length requests \<and> served s' = served s1 @ zip requests resps \<and> list_all is_success resps
       \<and> contents s' = Some (concat (map resp_body resps))
       \<and> summary = clip_summary out_path (of_nat (length (concat (map resp_body resps)))) (of_nat (length requests))
   | Inl (Fail e) \<Rightarrow> (\<exists>msg. fst (fs_create fs out_path s) = Inl msg \<and> e = cannot_write out_path msg)
       \<or> (\<exists>t. s' = snd (fs_remove_file fs out_path t) \<and> (fst (fs_remove_file fs out_path t) = Inr () \<longrightarrow> contents s' = None))
   | Inl Panic \<Rightarrow> True"
proof (cases res)
  case (Inr summary)
  from d Inr obtain fh s0 where c: "fs_create fs out_path s = (Inr fh, s0)"
    and w: "write_segments h fs url jwt out_path readiness progress fh s0 = Some (Inr summary, s')"
    by (auto simp: download_clip_to_file_def writing_def split: prod.splits sum.splits option.splits failure.splits)
  from w obtain requests s1 where q: "clip_segment_requests h url jwt readiness s0 = Some (Inr requests, s1)"
    and b: "bindE (segment_loop h fs out_path progress fh (of_nat (length requests)) requests 0 0) (\<lambda>written.
          bindE (writing out_path (fs_flush fs fh)) (\<lambda>_. retE (clip_summary out_path written (of_nat (length requests))))) s1
        = (Inr summary, s')"
    by (auto simp: write_segments_def Let_def split: option.splits prod.splits sum.splits)
  from b obtain n s2 where l: "segment_loop h fs out_path progress fh (of_nat (length requests)) requests 0 0 s1 = (Inr n, s2)"
    and fl: "fs_flush fs fh s2 = (Inr (), s')" and sm: "summary = clip_summary out_path n (of_nat (length requests))"
    by (auto simp: bindE_Inr_iff writing_Inr_iff retE_def)
  have e: "host_beside h contents served" "file_ok fs fh contents served" "contents s0 = Some []"
    "progress_beside progress contents served"
    using ok c by (auto simp: clip_env_ok_def)
  obtain resps where a: "appended contents served requests resps s1 s2" "n = of_nat (length (concat (map resp_body resps)))"
    using segment_loop_appends [OF e(1,2,4) l] by auto
  have "contents s' = contents s2" "served s' = served s2" using fl e(2) by (auto simp: file_ok_def)
  moreover have "contents s1 = Some []" using clip_requests_contents [OF e(1) q] e(3) by simp
  ultimately show ?thesis using c q a sm Inr by (auto simp: appended_def)
next
  case (Inl f)
  have "contents (snd (fs_remove_file fs out_path t)) = None" if "fst (fs_remove_file fs out_path t) = Inr ()" for t
    using ok that unfolding clip_env_ok_def by (metis prod.collapse)
  then show ?thesis using d Inl
    by (cases f) (auto simp: download_clip_to_file_def writing_def split: prod.splits sum.splits option.splits failure.splits)
qed

text \<open>A host that serves a playlist of two segments, and a file that is a field of the state.\<close>

type_synonym clip_state = "string option \<times> (HttpRequest \<times> HttpResponse) list"

definition clip_playlist :: string where
  "clip_playlist = ''#EXTM3U'' @ [CHR 0x0A] @ ''#EXT-X-MAP:URI='' @ [CHR 0x22] @ ''init.mp4'' @ [CHR 0x22, CHR 0x0A] @ ''a.m4s'' @ [CHR 0x0A]"

definition clip_host :: "clip_state host" where
  "clip_host = \<lparr> http_request = (\<lambda>r (c, l).
       let p = \<lparr> resp_status = 200, resp_headers = [],
                 resp_body = (if req_url r = ''https://h/p.m3u8'' then clip_playlist else drop 10 (req_url r)) \<rparr>
       in (Inr p, (c, l @ [(r, p)]))),
     auth_jwt = (\<lambda>_. retE None), sleep = (\<lambda>_ s. s), now_ms = (\<lambda>_. Fin 0) \<rparr>"

definition clip_files :: "(clip_state, unit) files" where
  "clip_files = \<lparr> fs_create = (\<lambda>_ (c, l). (Inr (), (Some [], l))),
     fs_write_all = (\<lambda>_ d (c, l). (Inr (), (map_option (\<lambda>x. x @ d) c, l))),
     fs_flush = (\<lambda>_ s. (Inr (), s)), fs_remove_file = (\<lambda>_ (c, l). (Inr (), (None, l))) \<rparr>"

lemma clip_env_sample: "clip_env_ok clip_host clip_files None path fst snd"
  by (auto simp: clip_env_ok_def host_beside_def progress_beside_def file_ok_def clip_host_def clip_files_def Let_def)

definition clip_readiness :: "clip_state Readiness" where
  "clip_readiness = \<lparr> rd_timeout = None, rd_predicted_ready_at_ms = Fin 0, session_is_live = (\<lambda>_. True) \<rparr>"

lemma clip_sample_requests:
  "\<exists>l'. clip_segment_requests clip_host ''https://h/p.m3u8'' None clip_readiness (c, l) =
     Some (Inr (map (segment_request ''https://h/p.m3u8'' None) [''init.mp4'', ''a.m4s'']), (c, l'))"
proof -
  have "from_utf8_lossy clip_playlist = clip_playlist" by code_simp
  moreover have "parse_playlist clip_playlist ''https://h/p.m3u8'' = Inr [''init.mp4'', ''a.m4s'']" by code_simp
  ultimately show ?thesis
    by (simp add: clip_segment_requests_def fetch_playlist_def wait_budget_def clip_readiness_def, subst fetch_loop.simps)
      (simp add: poll_playlist_def clip_host_def playlist_request_def check_status_def Let_def)
qed

theorem clip_file_complete_witness:
  "\<exists>res s'. download_clip_to_file clip_host clip_files ''https://h/p.m3u8'' None ''o'' clip_readiness None (None, []) = Some (Inr res, s')
     \<and> fst s' = Some ''init.mp4a.m4s'' \<and> (\<exists>resps. fst s' = Some (concat (map resp_body resps)) \<and> list_all is_success resps)"
proof -
  let ?d = "download_clip_to_file clip_host clip_files ''https://h/p.m3u8'' None ''o'' clip_readiness None (None, [])"
  have u: "segment_request ''https://h/p.m3u8'' None ''init.mp4'' = \<lparr> req_method = Get, req_url = ''https://h/init.mp4'', req_headers = [], req_body = None \<rparr>"
    "segment_request ''https://h/p.m3u8'' None ''a.m4s'' = \<lparr> req_method = Get, req_url = ''https://h/a.m4s'', req_headers = [], req_body = None \<rparr>"
    by code_simp+
  obtain res s' where r: "?d = Some (Inr res, s')" "fst s' = Some ''init.mp4a.m4s''"
    using clip_sample_requests [of "Some []" "[]"]
    by (auto simp: download_clip_to_file_def write_segments_def writing_def clip_files_def u bindE_def liftE_def retE_def
        check_status_def report_def clip_host_def Let_def)
  show ?thesis using clip_file_complete [OF clip_env_sample r(1)] r by auto
qed

end
