(* ===== verification/Ffi_Stats.thy ===== *)
theory Ffi_Stats
  imports Peer
begin

text \<open>
  The statistics of the engine in the core's vocabulary (\<^verbatim>\<open>map_stats\<close>, \<^verbatim>\<open>map_chunking\<close> and
  \<^verbatim>\<open>timing_frame\<close> of \<^verbatim>\<open>reactor-ffi/src/peer.rs\<close>). The engine's own types are those of the crate
  \<^verbatim>\<open>reactor_webrtc\<close>, with the fields and variants the source reads, under the prefix \<open>rw\<close>.
\<close>

section \<open>The engine's report\<close>

datatype RwPeerConnectionState = RwPC_New | RwPC_Connecting | RwPC_Connected | RwPC_Disconnected | RwPC_Failed | RwPC_Closed

datatype RwStreamKind = RwSK_Unknown | RwSK_Audio | RwSK_Video

datatype RwIceCandidateType = RwCT_Unknown | RwCT_Host | RwCT_Srflx | RwCT_Prflx | RwCT_Relay

datatype RwRelayProtocol = RwRP_NotRelayed | RwRP_Udp | RwRP_Tcp | RwRP_Tls

datatype IceCandidatePairState = RwCP_Waiting | RwCP_InProgress | RwCP_Failed | RwCP_Succeeded | RwCP_Cancelled

record TimingFrameSender =
  capture_ms :: i64
  encode_start_ms :: i64
  encode_finish_ms :: i64
  packetization_finish_ms :: i64
  pacer_exit_ms :: i64

record TimingFrameInfo =
  rw_rtp_timestamp :: u32
  rw_sender :: TimingFrameSender

record RwInboundRtpStats =
  rw_in_ssrc :: u32
  rw_in_kind :: RwStreamKind
  rw_in_mid :: "string option"
  rw_in_codec_mime_type :: "string option"
  rw_in_packets_received :: u32
  rw_in_bytes_received :: u64
  rw_in_jitter_s :: f64
  rw_in_packets_lost :: i32
  rw_in_nack_count :: u32
  rw_in_pli_count :: u32
  rw_in_fir_count :: u32
  rw_in_total_decode_time_s :: f64
  rw_in_frames_per_second :: f64
  rw_in_frames_decoded :: u32
  rw_in_frames_dropped :: u32
  rw_in_frame_width :: u32
  rw_in_frame_height :: u32
  rw_in_jitter_buffer_delay_s :: f64
  rw_in_jitter_buffer_emitted_count :: u64
  rw_in_timing_frame :: "TimingFrameInfo option"
  rw_in_decoder_implementation :: "string option"
  rw_in_power_efficient_decoder :: "bool option"
  rw_in_total_samples_received :: u64
  rw_in_concealed_samples :: u64

record RwOutboundRtpStats =
  rw_out_ssrc :: u32
  rw_out_kind :: RwStreamKind
  rw_out_mid :: "string option"
  rw_out_codec_mime_type :: "string option"
  rw_out_packets_sent :: u64
  rw_out_bytes_sent :: u64
  rw_out_target_bitrate_bps :: f64
  rw_out_round_trip_time_s :: f64
  rw_out_total_round_trip_time_s :: f64
  rw_out_fraction_lost :: f64
  rw_out_packets_lost :: i32
  rw_out_jitter_s :: f64
  rw_out_retransmitted_packets_sent :: u64
  rw_out_nack_count :: u32
  rw_out_pli_count :: u32
  rw_out_fir_count :: u32
  rw_out_frames_per_second :: f64
  rw_out_frames_sent :: u32
  rw_out_frame_width :: u32
  rw_out_frame_height :: u32
  rw_out_frames_encoded :: u32
  rw_out_total_encode_time_s :: f64
  rw_out_encoder_implementation :: "string option"
  rw_out_power_efficient_encoder :: "bool option"

record RwCandidatePairStats =
  rw_cp_current_round_trip_time_s :: f64
  rw_cp_total_round_trip_time_s :: f64
  rw_cp_priority :: u64
  rw_cp_state :: IceCandidatePairState
  rw_cp_nominated :: bool
  rw_cp_writable :: bool
  rw_cp_available_outgoing_bitrate_bps :: f64
  rw_cp_available_incoming_bitrate_bps :: f64
  rw_cp_bytes_sent :: u64
  rw_cp_bytes_received :: u64
  rw_cp_packets_sent :: u64
  rw_cp_packets_received :: u64
  rw_cp_local_candidate_type :: RwIceCandidateType
  rw_cp_local_relay_protocol :: RwRelayProtocol

record ChunkingStats =
  rw_messages_sent :: u64
  rw_queue_wait_s :: f64
  rw_send_s :: f64
  rw_stall_s :: f64
  rw_messages_received :: u64
  rw_reassembly_s :: f64
  rw_enqueue_s :: f64
  rw_first_check_s :: f64
  rw_first_build_s :: f64
  rw_first_native_s :: f64
  rw_native_send_s :: f64

record StatsReport =
  rw_inbound_rtp :: "RwInboundRtpStats list"
  rw_outbound_rtp :: "RwOutboundRtpStats list"
  rw_candidate_pairs :: "RwCandidatePairStats list"

section \<open>Translation\<close>

fun map_state :: "RwPeerConnectionState \<Rightarrow> PeerConnectionState" where
  "map_state RwPC_New = PC_New"
| "map_state RwPC_Connecting = PC_Connecting"
| "map_state RwPC_Connected = PC_Connected"
| "map_state RwPC_Disconnected = PC_Disconnected"
| "map_state RwPC_Failed = PC_Failed"
| "map_state RwPC_Closed = PC_Closed"

fun map_stream_kind :: "RwStreamKind \<Rightarrow> StreamKind" where
  "map_stream_kind RwSK_Unknown = SK_Unknown"
| "map_stream_kind RwSK_Audio = SK_Audio"
| "map_stream_kind RwSK_Video = SK_Video"

fun map_candidate_type :: "RwIceCandidateType \<Rightarrow> IceCandidateType" where
  "map_candidate_type RwCT_Unknown = CT_Unknown"
| "map_candidate_type RwCT_Host = CT_Host"
| "map_candidate_type RwCT_Srflx = CT_Srflx"
| "map_candidate_type RwCT_Prflx = CT_Prflx"
| "map_candidate_type RwCT_Relay = CT_Relay"

fun map_relay_protocol :: "RwRelayProtocol \<Rightarrow> RelayProtocol" where
  "map_relay_protocol RwRP_NotRelayed = RP_NotRelayed"
| "map_relay_protocol RwRP_Udp = RP_Udp"
| "map_relay_protocol RwRP_Tcp = RP_Tcp"
| "map_relay_protocol RwRP_Tls = RP_Tls"

fun map_pair_state :: "IceCandidatePairState \<Rightarrow> CandidatePairState" where
  "map_pair_state RwCP_Waiting = CP_Waiting"
| "map_pair_state RwCP_InProgress = CP_InProgress"
| "map_pair_state RwCP_Failed = CP_Failed"
| "map_pair_state RwCP_Succeeded = CP_Succeeded"
| "map_pair_state RwCP_Cancelled = CP_Cancelled"

text \<open>
  The stamps a timing frame took: one that falls before the latest stamp so far was not taken. A
  difference wraps at 64 bits, as in a release build.
\<close>

fun stamps_taken :: "i64 \<Rightarrow> i64 list \<Rightarrow> bool list" where
  "stamps_taken latest [] = []"
| "stamps_taken latest (stamp # stamps) =
     (if stamp < latest then False # stamps_taken latest stamps else True # stamps_taken stamp stamps)"

definition wrap_i64 :: "int \<Rightarrow> i64" where
  "wrap_i64 n = (n + 2 ^ 63) mod 2 ^ 64 - 2 ^ 63"

definition stage_ms :: "i64 list \<Rightarrow> nat \<Rightarrow> nat \<Rightarrow> f64" where
  "stage_ms stamps from_i to_i =
     (let taken = (True # stamps_taken (stamps ! 0) (tl stamps)) in
      if taken ! from_i \<and> taken ! to_i then f64_of_int (wrap_i64 (stamps ! to_i - stamps ! from_i)) else Fin (- 1))"

definition timing_frame :: "TimingFrameInfo \<Rightarrow> TimingFrame" where
  "timing_frame t =
     (let s = rw_sender t;
          stamps = [capture_ms s, encode_start_ms s, encode_finish_ms s, packetization_finish_ms s, pacer_exit_ms s]
      in \<lparr> rtp_timestamp = rw_rtp_timestamp t, encode_wait_ms = stage_ms stamps 0 1,
           packetize_ms = stage_ms stamps 2 3, pacer_ms = stage_ms stamps 3 4 \<rparr>)"

definition map_inbound :: "RwInboundRtpStats \<Rightarrow> InboundRtpStats" where
  "map_inbound s =
     \<lparr> in_ssrc = rw_in_ssrc s, in_kind = map_stream_kind (rw_in_kind s), in_mid = rw_in_mid s,
       in_codec_mime_type = rw_in_codec_mime_type s, in_packets_received = rw_in_packets_received s,
       in_bytes_received = rw_in_bytes_received s, in_jitter_s = rw_in_jitter_s s,
       in_packets_lost = rw_in_packets_lost s, in_nack_count = rw_in_nack_count s,
       in_pli_count = rw_in_pli_count s, in_fir_count = rw_in_fir_count s,
       in_total_decode_time_s = rw_in_total_decode_time_s s,
       in_frames_per_second = rw_in_frames_per_second s, in_frames_decoded = rw_in_frames_decoded s,
       in_frames_dropped = rw_in_frames_dropped s, in_frame_width = rw_in_frame_width s,
       in_frame_height = rw_in_frame_height s, in_jitter_buffer_delay_s = rw_in_jitter_buffer_delay_s s,
       in_jitter_buffer_emitted_count = rw_in_jitter_buffer_emitted_count s,
       in_timing_frame = map_option timing_frame (rw_in_timing_frame s),
       in_decoder_implementation = rw_in_decoder_implementation s,
       in_power_efficient_decoder = rw_in_power_efficient_decoder s,
       in_total_samples_received = rw_in_total_samples_received s,
       in_concealed_samples = rw_in_concealed_samples s \<rparr>"

definition map_outbound :: "RwOutboundRtpStats \<Rightarrow> OutboundRtpStats" where
  "map_outbound s =
     \<lparr> out_ssrc = rw_out_ssrc s, out_kind = map_stream_kind (rw_out_kind s), out_mid = rw_out_mid s,
       out_codec_mime_type = rw_out_codec_mime_type s, out_packets_sent = rw_out_packets_sent s,
       out_bytes_sent = rw_out_bytes_sent s, out_target_bitrate_bps = rw_out_target_bitrate_bps s,
       out_round_trip_time_s = rw_out_round_trip_time_s s,
       out_total_round_trip_time_s = rw_out_total_round_trip_time_s s,
       out_fraction_lost = rw_out_fraction_lost s, out_packets_lost = rw_out_packets_lost s,
       out_jitter_s = rw_out_jitter_s s,
       out_retransmitted_packets_sent = rw_out_retransmitted_packets_sent s,
       out_nack_count = rw_out_nack_count s, out_pli_count = rw_out_pli_count s,
       out_fir_count = rw_out_fir_count s, out_frames_per_second = rw_out_frames_per_second s,
       out_frames_sent = rw_out_frames_sent s, out_frame_width = rw_out_frame_width s,
       out_frame_height = rw_out_frame_height s, out_frames_encoded = rw_out_frames_encoded s,
       out_total_encode_time_s = rw_out_total_encode_time_s s,
       out_encoder_implementation = rw_out_encoder_implementation s,
       out_power_efficient_encoder = rw_out_power_efficient_encoder s \<rparr>"

definition map_pair :: "RwCandidatePairStats \<Rightarrow> CandidatePairStats" where
  "map_pair s =
     \<lparr> cp_current_round_trip_time_s = rw_cp_current_round_trip_time_s s,
       cp_total_round_trip_time_s = rw_cp_total_round_trip_time_s s, cp_priority = rw_cp_priority s,
       cp_state = map_pair_state (rw_cp_state s), cp_nominated = rw_cp_nominated s,
       cp_writable = rw_cp_writable s,
       cp_available_outgoing_bitrate_bps = rw_cp_available_outgoing_bitrate_bps s,
       cp_available_incoming_bitrate_bps = rw_cp_available_incoming_bitrate_bps s,
       cp_bytes_sent = rw_cp_bytes_sent s, cp_bytes_received = rw_cp_bytes_received s,
       cp_packets_sent = rw_cp_packets_sent s, cp_packets_received = rw_cp_packets_received s,
       cp_local_candidate_type = map_candidate_type (rw_cp_local_candidate_type s),
       cp_local_relay_protocol = map_relay_protocol (rw_cp_local_relay_protocol s) \<rparr>"

definition map_stats :: "StatsReport \<Rightarrow> TransportStats" where
  "map_stats report =
     \<lparr> inbound = map map_inbound (rw_inbound_rtp report), outbound = map map_outbound (rw_outbound_rtp report),
       candidate_pairs = map map_pair (rw_candidate_pairs report), data_chunking = None \<rparr>"

definition map_chunking :: "ChunkingStats \<Rightarrow> ChunkingTotals" where
  "map_chunking c =
     \<lparr> messages_sent = rw_messages_sent c, queue_wait_s = rw_queue_wait_s c, send_s = rw_send_s c,
       stall_s = rw_stall_s c, messages_received = rw_messages_received c, reassembly_s = rw_reassembly_s c,
       enqueue_s = rw_enqueue_s c, first_check_s = rw_first_check_s c, first_build_s = rw_first_build_s c,
       first_native_s = rw_first_native_s c, native_send_s = rw_native_send_s c \<rparr>"

section \<open>Stage durations\<close>

text \<open>
  A timing frame as the sender means it: the capture time and, for each later stamp, how long after the
  capture it was taken, if it was. A stamp that was not taken is sent as the capture time.
\<close>

definition delta :: "i64 option \<Rightarrow> int" where
  "delta d = (case d of None \<Rightarrow> 0 | Some x \<Rightarrow> x)"

definition sent_frame :: "u32 \<Rightarrow> i64 \<Rightarrow> i64 option \<Rightarrow> i64 option \<Rightarrow> i64 option \<Rightarrow> i64 option \<Rightarrow> TimingFrameInfo" where
  "sent_frame rtp c d1 d2 d3 d4 = \<lparr> rw_rtp_timestamp = rtp, rw_sender = \<lparr> capture_ms = c, encode_start_ms = c + delta d1,
     encode_finish_ms = c + delta d2, packetization_finish_ms = c + delta d3, pacer_exit_ms = c + delta d4 \<rparr>\<rparr>"

text \<open>Stamps are taken in order, none before the capture.\<close>

definition in_sequence :: "i64 option list \<Rightarrow> bool" where
  "in_sequence ds \<longleftrightarrow> sorted (0 # map delta (filter (\<lambda>d. d \<noteq> None) ds))"

text \<open>A missing stamp can be told from a taken one once a stamp before it is later than the capture.\<close>

definition noted :: "i64 option list \<Rightarrow> i64 option \<Rightarrow> bool" where
  "noted before d \<longleftrightarrow> d = None \<and> list_ex (\<lambda>b. 0 < delta b) before"

lemma wrap_i64_small: "\<bar>n\<bar> < 2 ^ 63 \<Longrightarrow> wrap_i64 n = n"
  by (simp add: wrap_i64_def)

text \<open>
  The stages of a timing frame. When both stamps of a stage were taken, its duration is the time
  between them. A stage with a missing stamp is reported as -1, which the reporter drops, provided some
  stamp before the missing one is later than the capture. Otherwise the missing stamp passes for one
  taken at the capture: a frame whose encode start was not stamped reports an encode wait of 0.
\<close>

theorem timing_frame_stages:
  assumes "in_sequence [d1, d2, d3, d4]" and "\<forall>d \<in> {d1, d2, d3, d4}. delta d < 2 ^ 63"
  shows "timing_frame (sent_frame rtp c d1 d2 d3 d4) =
    \<lparr> rtp_timestamp = rtp, encode_wait_ms = f64_of_int (delta d1),
      packetize_ms = (if noted [d1] d2 \<or> noted [d1, d2] d3 then Fin (- 1) else f64_of_int (delta d3 - delta d2)),
      pacer_ms = (if noted [d1, d2] d3 \<or> noted [d1, d2, d3] d4 then Fin (- 1) else f64_of_int (delta d4 - delta d3)) \<rparr>"
  using assms
  by (cases d1; cases d2; cases d3; cases d4)
    (auto simp: timing_frame_def sent_frame_def stage_ms_def in_sequence_def noted_def delta_def wrap_i64_small Let_def)

theorem timing_frame_stages_witness:
  "timing_frame (sent_frame 7 1000 (Some 4) (Some 20) None (Some 30)) =
     \<lparr> rtp_timestamp = 7, encode_wait_ms = f64_of_int 4, packetize_ms = Fin (- 1), pacer_ms = Fin (- 1) \<rparr>
   \<and> encode_wait_ms (timing_frame (sent_frame 7 1000 None (Some 20) (Some 23) (Some 30))) = f64_of_int 0"
  using timing_frame_stages [of "Some 4" "Some 20" None "Some 30" 7 1000]
    timing_frame_stages [of None "Some 20" "Some 23" "Some 30" 7 1000]
  by (simp add: in_sequence_def noted_def delta_def)

end
