(* ===== verification/Ffi_Peer.thy ===== *)
theory Ffi_Peer
  imports Ffi_Stats Audio_Input Step_Inputs
begin

text \<open>
  The transport of the C binding (\<^verbatim>\<open>reactor-ffi/src/peer.rs\<close>): \<^verbatim>\<open>ReactorWebRtcPeerTransport\<close> over the
  engine of the crate \<^verbatim>\<open>reactor_webrtc\<close>. The engine is a parameter: \<open>engine\<close> holds the functions the
  source calls, on a state of any type \<^typ>\<open>'e\<close>, with connections, channels, transceivers and tracks
  as handles. \<open>eng_drop\<close> is the release of a connection with everything built on it. What an observer of
  a connection shares with the transport (the names it gives to remote tracks, the tracks received)
  is kept per connection. Each method is one step; none of them awaits but \<^verbatim>\<open>get_stats\<close>. A \<^verbatim>\<open>log\<close> line
  has no effect.
\<close>

section \<open>The engine\<close>

type_synonym handle = nat

datatype AdmMode = Synthetic | Platform

datatype MediaKind = MK_Video | MK_Audio

datatype TransceiverDirection = TD_RecvOnly | TD_SendOnly

datatype RemoteTrack = RT_Video handle | RT_Audio handle

record RwIceServer =
  rw_urls :: "string list"
  rw_username :: string
  rw_password :: string

record RtcConfiguration =
  rc_ice_servers :: "RwIceServer list"
  rc_gather_once :: bool
  rc_sctp_snap :: bool
  rc_dc_chunking :: bool

record DcChunking =
  dcc_max_message_size :: u64
  dcc_send_buffer_limit :: u64

datatype engine_error = DcTooLarge u64 u64 | Engine_Error string

record 'e engine =
  eng_create_peer_connection :: "RtcConfiguration \<Rightarrow> 'e \<Rightarrow> (string, handle) result \<times> 'e"
  eng_add_transceiver :: "handle \<Rightarrow> MediaKind \<Rightarrow> TransceiverDirection \<Rightarrow> 'e \<Rightarrow> (string, handle) result \<times> 'e"
  eng_create_video_track :: "string \<Rightarrow> 'e \<Rightarrow> (string, handle) result \<times> 'e"
  eng_create_audio_track :: "string \<Rightarrow> 'e \<Rightarrow> (string, handle) result \<times> 'e"
  eng_set_track :: "handle \<Rightarrow> handle \<Rightarrow> 'e \<Rightarrow> (string, unit) result \<times> 'e"
  eng_create_data_channel :: "handle \<Rightarrow> string \<Rightarrow> 'e \<Rightarrow> (string, handle) result \<times> 'e"
  eng_create_offer :: "handle \<Rightarrow> 'e \<Rightarrow> (string, string) result \<times> 'e"
  eng_set_local_description :: "handle \<Rightarrow> string \<Rightarrow> 'e \<Rightarrow> (string, unit) result \<times> 'e"
  eng_set_remote_description :: "handle \<Rightarrow> string \<Rightarrow> 'e \<Rightarrow> (string, unit) result \<times> 'e"
  eng_mid :: "handle \<Rightarrow> 'e \<Rightarrow> string option"
  eng_set_bitrate :: "handle \<Rightarrow> i32 option \<Rightarrow> i32 option \<Rightarrow> i32 option \<Rightarrow> 'e \<Rightarrow> (string, unit) result \<times> 'e"
  eng_set_send_bitrate :: "handle \<Rightarrow> i32 option \<Rightarrow> i32 option \<Rightarrow> 'e \<Rightarrow> (string, unit) result \<times> 'e"
  eng_dc_chunking :: "handle \<Rightarrow> 'e \<Rightarrow> DcChunking option"
  eng_is_chunked :: "handle \<Rightarrow> 'e \<Rightarrow> bool"
  eng_is_open :: "handle \<Rightarrow> 'e \<Rightarrow> bool"
  eng_state_debug :: "handle \<Rightarrow> 'e \<Rightarrow> string"
  eng_send :: "handle \<Rightarrow> bytes \<Rightarrow> bool \<Rightarrow> 'e \<Rightarrow> (engine_error, unit) result \<times> 'e"
  eng_chunking_stats :: "handle \<Rightarrow> 'e \<Rightarrow> ChunkingStats option"
  eng_get_stats :: "handle \<Rightarrow> 'e \<Rightarrow> (string, (string, StatsReport) result) result \<times> 'e"
  eng_push_audio_frame :: "pcm \<Rightarrow> u32 \<Rightarrow> u32 \<Rightarrow> 'e \<Rightarrow> 'e"
  eng_push_frame :: "handle \<Rightarrow> bytes \<Rightarrow> u32 \<Rightarrow> u32 \<Rightarrow> 'e \<Rightarrow> 'e"
  eng_push_frame_with_metadata :: "handle \<Rightarrow> bytes \<Rightarrow> u32 \<Rightarrow> u32 \<Rightarrow> bytes \<Rightarrow> 'e \<Rightarrow> 'e"
  eng_push_frame_with_metadata_at :: "handle \<Rightarrow> bytes \<Rightarrow> u32 \<Rightarrow> u32 \<Rightarrow> bytes \<Rightarrow> i64 \<Rightarrow> 'e \<Rightarrow> 'e"
  eng_drop :: "handle \<Rightarrow> 'e \<Rightarrow> 'e"

section \<open>Settings\<close>

definition FFI_DEFAULT_MAX_MESSAGE_SIZE :: u64 where
  "FFI_DEFAULT_MAX_MESSAGE_SIZE = 256 * 1024 * 1024"

definition MIN_SEND_BUFFER_LIMIT :: u64 where
  "MIN_SEND_BUFFER_LIMIT = 128 * 1024 * 1024"

definition saturating_mul :: "u64 \<Rightarrow> u64 \<Rightarrow> u64" where
  "saturating_mul a b = (if unat a * unat b < 2 ^ 64 then a * b else - 1)"

definition dc_chunking :: "u64 \<Rightarrow> DcChunking" where
  "dc_chunking max_message_size =
     \<lparr> dcc_max_message_size = max_message_size,
       dcc_send_buffer_limit = max MIN_SEND_BUFFER_LIMIT (saturating_mul max_message_size 2) \<rparr>"

definition adm_mode_from_env :: "string option \<Rightarrow> AdmMode" where
  "adm_mode_from_env asked = (case map_option (\<lambda>v. to_ascii_lowercase (trim v)) asked of
     Some v \<Rightarrow> if v = ''synthetic'' then Synthetic else if v = ''platform'' then Platform else Synthetic
   | None \<Rightarrow> Synthetic)"

definition offer_config :: "IceServer list \<Rightarrow> RtcConfiguration" where
  "offer_config ice_servers =
     \<lparr> rc_ice_servers = map (\<lambda>s. \<lparr> rw_urls = uris s,
          rw_username = (case credentials s of Some c \<Rightarrow> username c | None \<Rightarrow> []),
          rw_password = (case credentials s of Some c \<Rightarrow> password c | None \<Rightarrow> []) \<rparr>) ice_servers,
       rc_gather_once = True, rc_sctp_snap = True, rc_dc_chunking = True \<rparr>"

section \<open>State\<close>

datatype LocalTrack = LT_Video handle | LT_Audio handle

fun as_track :: "LocalTrack \<Rightarrow> handle" where
  "as_track (LT_Video t) = t"
| "as_track (LT_Audio t) = t"

fun video_of :: "LocalTrack \<Rightarrow> handle option" where
  "video_of (LT_Video t) = Some t"
| "video_of (LT_Audio t) = None"

record BitrateBounds =
  bb_min_bps :: "i32 option"
  bb_start_bps :: "i32 option"
  bb_max_bps :: "i32 option"

definition BitrateBounds_default :: BitrateBounds where
  "BitrateBounds_default = \<lparr> bb_min_bps = None, bb_start_bps = None, bb_max_bps = None \<rparr>"

text \<open>What the callbacks of one connection's observer share with the transport.\<close>

record Observer =
  ob_name_mids :: "(string \<times> string option) list"
  ob_track_idx :: u64
  ob_recv_tracks :: "RemoteTrack list"
  ob_sinks :: "(RemoteTrack \<times> string) list"

record PeerState =
  ps_pc :: "handle option"
  ps_data_channel :: "handle option"
  ps_control_channel :: "handle option"
  ps_track_names :: "string list"
  ps_track_directions :: "TrackDirection list"
  ps_transceivers :: "handle list"
  ps_local_tracks :: "(string, LocalTrack) hmap"
  ps_audio_inputs :: "(string, AudioInput) hmap"

definition PeerState_default :: PeerState where
  "PeerState_default = \<lparr> ps_pc = None, ps_data_channel = None, ps_control_channel = None, ps_track_names = [],
     ps_track_directions = [], ps_transceivers = [], ps_local_tracks = [], ps_audio_inputs = [] \<rparr>"

record 'e peer_transport =
  pt_state :: PeerState
  pt_connection :: BitrateBounds
  pt_per_track :: "(string, BitrateBounds) hmap"
  pt_frame_cb :: bool
  pt_audio_cb :: bool
  pt_observers :: "(handle, Observer) hmap"
  pt_events :: "PeerEvent list"
  pt_engine :: 'e

definition peer_transport_new :: "bool \<Rightarrow> bool \<Rightarrow> 'e \<Rightarrow> 'e peer_transport" where
  "peer_transport_new frame_cb audio_cb e = \<lparr> pt_state = PeerState_default, pt_connection = BitrateBounds_default,
     pt_per_track = [], pt_frame_cb = frame_cb, pt_audio_cb = audio_cb, pt_observers = [], pt_events = [], pt_engine = e \<rparr>"

section \<open>Calls of the engine\<close>

definition peer_err :: "string \<Rightarrow> CoreError" where
  "peer_err e = CoreError.Peer e"

definition on_engine :: "('e \<Rightarrow> 'a \<times> 'e) \<Rightarrow> ('e peer_transport, 'a) io" where
  "on_engine f = (\<lambda>t. case f (pt_engine t) of (x, e) \<Rightarrow> (Inr x, t\<lparr>pt_engine := e\<rparr>))"

definition engineE :: "('e \<Rightarrow> (string, 'a) result \<times> 'e) \<Rightarrow> ('e peer_transport, 'a) io" where
  "engineE f = bindE (on_engine f) (\<lambda>r. liftE (map_sum peer_err id r))"

definition update_engine :: "('e \<Rightarrow> 'e) \<Rightarrow> ('e peer_transport, unit) io" where
  "update_engine f = modifyE (\<lambda>t. t\<lparr>pt_engine := f (pt_engine t)\<rparr>)"

text \<open>A best-effort call, whose failure is logged.\<close>

definition try_engineE :: "('e \<Rightarrow> (string, unit) result \<times> 'e) \<Rightarrow> ('e peer_transport, unit) io" where
  "try_engineE f = bindE (on_engine f) (\<lambda>_. retE ())"

section \<open>Bitrates\<close>

definition commit_connection :: "BitrateBounds \<Rightarrow> ('e peer_transport, unit) io \<Rightarrow> ('e peer_transport, unit) io" where
  "commit_connection bounds apply_bounds = bindE apply_bounds (\<lambda>_. modifyE (\<lambda>t. t\<lparr>pt_connection := bounds\<rparr>))"

definition commit_track :: "string \<Rightarrow> BitrateBounds \<Rightarrow> ('e peer_transport, unit) io \<Rightarrow> ('e peer_transport, unit) io" where
  "commit_track track_name bounds apply_bounds =
     bindE apply_bounds (\<lambda>_. modifyE (\<lambda>t. t\<lparr>pt_per_track := hm_insert track_name bounds (pt_per_track t)\<rparr>))"

text \<open>Indexing panics out of range.\<close>

definition indexE :: "'a list \<Rightarrow> nat \<Rightarrow> ('s, 'a) io" where
  "indexE xs i = (if i < length xs then retE (xs ! i) else panicE)"

primrec apply_track_bounds ::
    "'e engine \<Rightarrow> string list \<Rightarrow> handle list \<Rightarrow> (string \<times> BitrateBounds) list \<Rightarrow> ('e peer_transport, unit) io" where
  "apply_track_bounds eng names transceivers [] = retE ()"
| "apply_track_bounds eng names transceivers (nb # rest) =
     bindE (case position (\<lambda>n. n = fst nb) names of
              None \<Rightarrow> retE ()
            | Some i \<Rightarrow> bindE (indexE transceivers i) (\<lambda>tc.
                try_engineE (eng_set_send_bitrate eng tc (bb_min_bps (snd nb)) (bb_max_bps (snd nb))))) (\<lambda>_.
     apply_track_bounds eng names transceivers rest)"

definition apply_bitrate ::
    "'e engine \<Rightarrow> (string \<times> BitrateBounds) iter \<Rightarrow> handle \<Rightarrow> string list \<Rightarrow> handle list \<Rightarrow> ('e peer_transport, unit) io" where
  "apply_bitrate eng order pc names transceivers =
     bindE (getE pt_connection) (\<lambda>bounds.
     bindE (whenE (bb_min_bps bounds \<noteq> None \<or> bb_start_bps bounds \<noteq> None \<or> bb_max_bps bounds \<noteq> None)
              (try_engineE (eng_set_bitrate eng pc (bb_min_bps bounds) (bb_start_bps bounds) (bb_max_bps bounds)))) (\<lambda>_.
     bindE (getE pt_per_track) (\<lambda>per_track.
     apply_track_bounds eng names transceivers (iterate order per_track))))"

definition ffi_set_bitrate :: "'e engine \<Rightarrow> i32 option \<Rightarrow> i32 option \<Rightarrow> i32 option \<Rightarrow> ('e peer_transport, unit) io" where
  "ffi_set_bitrate eng min_bps start_bps max_bps =
     bindE (getE (\<lambda>t. ps_pc (pt_state t))) (\<lambda>pc.
     commit_connection \<lparr> bb_min_bps = min_bps, bb_start_bps = start_bps, bb_max_bps = max_bps \<rparr>
       (case pc of
          Some pc \<Rightarrow> engineE (eng_set_bitrate eng pc min_bps start_bps max_bps)
        | None \<Rightarrow> retE ()))"

definition unknown_track :: "string \<Rightarrow> CoreError" where
  "unknown_track track_name = CoreError.Peer (''unknown track: '' @ track_name)"

definition ffi_set_track_bitrate :: "'e engine \<Rightarrow> string \<Rightarrow> i32 option \<Rightarrow> i32 option \<Rightarrow> ('e peer_transport, unit) io" where
  "ffi_set_track_bitrate eng track_name min_bps max_bps =
     bindE (getE pt_state) (\<lambda>s.
     bindE (case position (\<lambda>n. n = track_name) (ps_track_names s) of
              Some i \<Rightarrow> bindE (indexE (ps_transceivers s) i) (\<lambda>tc. retE (Some tc))
            | None \<Rightarrow> if ps_track_names s = [] then retE None else failE (unknown_track track_name)) (\<lambda>tc.
     commit_track track_name \<lparr> bb_min_bps = min_bps, bb_start_bps = None, bb_max_bps = max_bps \<rparr>
       (case tc of
          Some tc \<Rightarrow> engineE (eng_set_send_bitrate eng tc min_bps max_bps)
        | None \<Rightarrow> retE ())))"

section \<open>Preparing a connection\<close>

fun media_kind :: "TrackKind \<Rightarrow> MediaKind" where
  "media_kind Video = MK_Video"
| "media_kind Audio = MK_Audio"

fun transceiver_direction :: "TrackDirection \<Rightarrow> TransceiverDirection" where
  "transceiver_direction Recvonly = TD_RecvOnly"
| "transceiver_direction Sendonly = TD_SendOnly"

definition create_local :: "'e engine \<Rightarrow> TrackCapability \<Rightarrow> ('e peer_transport, LocalTrack) io" where
  "create_local eng track = (case tc_kind track of
     Video \<Rightarrow> bindE (engineE (eng_create_video_track eng (tc_name track))) (\<lambda>h. retE (LT_Video h))
   | Audio \<Rightarrow> bindE (engineE (eng_create_audio_track eng (tc_name track))) (\<lambda>h. retE (LT_Audio h)))"

primrec add_transceivers ::
    "'e engine \<Rightarrow> handle \<Rightarrow> TrackCapability list \<Rightarrow> handle list \<Rightarrow> (string, LocalTrack) hmap \<Rightarrow>
       ('e peer_transport, handle list \<times> (string, LocalTrack) hmap) io" where
  "add_transceivers eng pc [] transceivers local_tracks = retE (transceivers, local_tracks)"
| "add_transceivers eng pc (track # ts) transceivers local_tracks =
     bindE (engineE (eng_add_transceiver eng pc (media_kind (tc_kind track)) (transceiver_direction (tc_direction track)))) (\<lambda>tc.
     bindE (if tc_direction track = Sendonly
            then bindE (create_local eng track) (\<lambda>loc.
                 bindE (engineE (eng_set_track eng tc (as_track loc))) (\<lambda>_.
                 retE (hm_insert (tc_name track) loc local_tracks)))
            else retE local_tracks) (\<lambda>local_tracks.
     add_transceivers eng pc ts (transceivers @ [tc]) local_tracks))"

definition map_entry :: "'e engine \<Rightarrow> 'e \<Rightarrow> TrackCapability \<times> handle \<Rightarrow> TrackMappingEntry" where
  "map_entry eng e x = \<lparr> tm_name = tc_name (fst x), tm_kind = tc_kind (fst x), tm_direction = tc_direction (fst x),
     tm_mid = (case eng_mid eng (snd x) e of Some mid \<Rightarrow> mid | None \<Rightarrow> []) \<rparr>"

definition received_names :: "TrackMappingEntry list \<Rightarrow> (string \<times> string option) list" where
  "received_names mapping = map (\<lambda>m. (tm_name m, Some (tm_mid m))) (filter (\<lambda>m. tm_direction m = Recvonly) mapping)"

definition Observer_new :: Observer where
  "Observer_new = \<lparr> ob_name_mids = [], ob_track_idx = 0, ob_recv_tracks = [], ob_sinks = [] \<rparr>"

definition observer :: "handle \<Rightarrow> 'e peer_transport \<Rightarrow> Observer" where
  "observer pc t = (case hm_get (pt_observers t) pc of Some ob \<Rightarrow> ob | None \<Rightarrow> Observer_new)"

definition set_observer :: "handle \<Rightarrow> Observer \<Rightarrow> 'e peer_transport \<Rightarrow> 'e peer_transport" where
  "set_observer pc ob t = t\<lparr>pt_observers := hm_insert pc ob (pt_observers t)\<rparr>"

definition name_received :: "handle \<Rightarrow> TrackMappingEntry list \<Rightarrow> 'e peer_transport \<Rightarrow> 'e peer_transport" where
  "name_received pc mapping t =
     (let ob = observer pc t in set_observer pc (ob\<lparr>ob_name_mids := ob_name_mids ob @ received_names mapping\<rparr>) t)"

definition drop_connection :: "'e engine \<Rightarrow> handle option \<Rightarrow> 'e peer_transport \<Rightarrow> 'e peer_transport" where
  "drop_connection eng pc t = (case pc of None \<Rightarrow> t | Some pc \<Rightarrow> t\<lparr>pt_engine := eng_drop eng pc (pt_engine t)\<rparr>)"

definition publish :: "'e engine \<Rightarrow> PeerState \<Rightarrow> 'e peer_transport \<Rightarrow> 'e peer_transport" where
  "publish eng s t = (drop_connection eng (ps_pc (pt_state t)) t)\<lparr>pt_state := s\<rparr>"

definition build_connection ::
    "'e engine \<Rightarrow> (string \<times> BitrateBounds) iter \<Rightarrow> handle \<Rightarrow> TrackCapability list \<Rightarrow> ('e peer_transport, PreparedOffer) io" where
  "build_connection eng order pc ts =
     bindE (add_transceivers eng pc ts [] []) (\<lambda>(transceivers, local_tracks).
     bindE (engineE (eng_create_data_channel eng pc ''data'')) (\<lambda>data_ch.
     bindE (engineE (eng_create_data_channel eng pc ''control'')) (\<lambda>control_ch.
     bindE (engineE (eng_create_offer eng pc)) (\<lambda>offer.
     bindE (engineE (eng_set_local_description eng pc offer)) (\<lambda>_.
     bindE (getE (\<lambda>t. map (map_entry eng (pt_engine t)) (zip ts transceivers))) (\<lambda>track_mapping.
     bindE (modifyE (name_received pc track_mapping)) (\<lambda>_.
     bindE (apply_bitrate eng order pc (map tc_name ts) transceivers) (\<lambda>_.
     bindE (modifyE (publish eng \<lparr> ps_pc = Some pc, ps_data_channel = Some data_ch, ps_control_channel = Some control_ch,
        ps_track_names = map tc_name ts, ps_track_directions = map tc_direction ts, ps_transceivers = transceivers,
        ps_local_tracks = local_tracks, ps_audio_inputs = [] \<rparr>)) (\<lambda>_.
     retE \<lparr> po_sdp_offer = offer, po_track_mapping = track_mapping \<rparr>)))))))))"

text \<open>A failure drops the connection it was building.\<close>

definition dropping :: "'e engine \<Rightarrow> handle \<Rightarrow> ('e peer_transport, 'a) io \<Rightarrow> ('e peer_transport, 'a) io" where
  "dropping eng pc m = (\<lambda>t. case m t of
     (Inl f, t') \<Rightarrow> (Inl f, drop_connection eng (Some pc) t')
   | (Inr x, t') \<Rightarrow> (Inr x, t'))"

definition ffi_prepare ::
    "'e engine \<Rightarrow> (string \<times> BitrateBounds) iter \<Rightarrow> IceServer list \<Rightarrow> TrackCapability list \<Rightarrow> ('e peer_transport, PreparedOffer) io" where
  "ffi_prepare eng order ice_servers ts =
     bindE (engineE (eng_create_peer_connection eng (offer_config ice_servers))) (\<lambda>pc.
     bindE (modifyE (set_observer pc Observer_new)) (\<lambda>_.
     dropping eng pc (build_connection eng order pc ts)))"

section \<open>What the engine reports\<close>

datatype engine_event =
    E_ConnectionState RwPeerConnectionState
  | E_IceGathering (gathering_complete: bool)
  | E_IceCandidate IceCandidate
  | E_Track RemoteTrack
  | E_DataOpen
  | E_DataMessage bytes
  | E_ControlOpen
  | E_ControlMessage bytes

definition send_event :: "PeerEvent \<Rightarrow> 'e peer_transport \<Rightarrow> 'e peer_transport" where
  "send_event ev t = t\<lparr>pt_events := pt_events t @ [ev]\<rparr>"

definition has_sink :: "RemoteTrack \<Rightarrow> 'e peer_transport \<Rightarrow> bool" where
  "has_sink track t = (case track of RT_Video _ \<Rightarrow> pt_frame_cb t | RT_Audio _ \<Rightarrow> pt_audio_cb t)"

definition on_track :: "handle \<Rightarrow> RemoteTrack \<Rightarrow> 'e peer_transport \<Rightarrow> 'e peer_transport" where
  "on_track pc track t =
     (let ob = observer pc t;
          idx = unat (ob_track_idx ob);
          (name, mid) = (if idx < length (ob_name_mids ob)
                         then (Some (fst (ob_name_mids ob ! idx)), snd (ob_name_mids ob ! idx)) else (None, None));
          track_name = (case name of Some n \<Rightarrow> n | None \<Rightarrow> []);
          sinks = (if has_sink track t then [(track, track_name)] else [])
      in set_observer pc (ob\<lparr>ob_track_idx := ob_track_idx ob + 1, ob_recv_tracks := ob_recv_tracks ob @ [track],
           ob_sinks := sinks @ ob_sinks ob\<rparr>) (send_event (PE_TrackReceived name mid) t))"

fun observe :: "handle \<Rightarrow> engine_event \<Rightarrow> 'e peer_transport \<Rightarrow> 'e peer_transport" where
  "observe pc (E_ConnectionState s) t = send_event (ConnectionStateChanged (map_state s)) t"
| "observe pc (E_IceGathering gathered) t = (if gathered then send_event IceGatheringComplete t else t)"
| "observe pc (E_IceCandidate c) t = send_event (PE_IceCandidate c) t"
| "observe pc (E_Track track) t = on_track pc track t"
| "observe pc E_DataOpen t = send_event DataChannelOpen t"
| "observe pc (E_DataMessage raw) t = send_event (DataChannelMessage raw) t"
| "observe pc E_ControlOpen t = send_event ControlChannelOpen t"
| "observe pc (E_ControlMessage raw) t = send_event (ControlChannelMessage raw) t"

record frame_trailer =
  ft_frame_id :: u64
  ft_capture_time_us :: u64
  ft_user_data :: bytes

record video_frame =
  vf_pixels :: bytes
  vf_width :: u32
  vf_height :: u32
  vf_metadata :: "frame_trailer option"

text \<open>The call of the host's frame callback for a decoded frame of a track.\<close>

definition frame_call ::
    "handle \<Rightarrow> RemoteTrack \<Rightarrow> video_frame \<Rightarrow> 'e peer_transport \<Rightarrow> (string \<times> bytes \<times> u32 \<times> u32 \<times> u64 \<times> u64 \<times> bytes) option" where
  "frame_call pc track f t = map_option (\<lambda>track_name.
     let (frame_id, ts, ud) = (case vf_metadata f of
           Some m \<Rightarrow> (ft_frame_id m, ft_capture_time_us m, ft_user_data m) | None \<Rightarrow> (0, 0, []))
     in (track_name, vf_pixels f, vf_width f, vf_height f, frame_id, ts, ud)) (map_of (ob_sinks (observer pc t)) track)"

section \<open>The other methods\<close>

definition ffi_set_remote_description :: "'e engine \<Rightarrow> string \<Rightarrow> ('e peer_transport, unit) io" where
  "ffi_set_remote_description eng answer =
     bindE (getE (\<lambda>t. ps_pc (pt_state t))) (\<lambda>pc. case pc of
       None \<Rightarrow> failE (CoreError.Peer ''peer connection not initialised'')
     | Some pc \<Rightarrow> engineE (eng_set_remote_description eng pc answer))"

definition ffi_data_channel_chunked :: "'e engine \<Rightarrow> 'e peer_transport \<Rightarrow> bool" where
  "ffi_data_channel_chunked eng t =
     (case ps_data_channel (pt_state t) of None \<Rightarrow> False | Some dc \<Rightarrow> eng_is_chunked eng dc (pt_engine t))"

definition ffi_max_message_bytes :: "'e engine \<Rightarrow> 'e peer_transport \<Rightarrow> nat" where
  "ffi_max_message_bytes eng t =
     (case Option.bind (ps_pc (pt_state t)) (\<lambda>pc. eng_dc_chunking eng pc (pt_engine t)) of
        Some settings \<Rightarrow> if ffi_data_channel_chunked eng t then unat (dcc_max_message_size settings) else DEFAULT_MAX_MESSAGE_BYTES
      | None \<Rightarrow> DEFAULT_MAX_MESSAGE_BYTES)"

fun send_err :: "engine_error \<Rightarrow> CoreError" where
  "send_err (DcTooLarge n mx) = MessageTooLarge (unat n) (unat mx)"
| "send_err (Engine_Error e) = peer_err e"

definition send_on_channel :: "'e engine \<Rightarrow> handle \<Rightarrow> bytes \<Rightarrow> bool \<Rightarrow> ('e peer_transport, unit) io" where
  "send_on_channel eng channel payload binary =
     bindE (getE pt_engine) (\<lambda>e.
     if \<not> eng_is_open eng channel e
     then failE (InvalidState (''data channel not open (state: '' @ eng_state_debug eng channel e @ '')''))
     else bindE (on_engine (eng_send eng channel payload binary)) (\<lambda>r. liftE (map_sum send_err id r)))"

definition ffi_send_data :: "'e engine \<Rightarrow> bytes \<Rightarrow> bool \<Rightarrow> ('e peer_transport, unit) io" where
  "ffi_send_data eng payload binary =
     bindE (getE (\<lambda>t. ps_data_channel (pt_state t))) (\<lambda>dc. case dc of
       None \<Rightarrow> failE (CoreError.Peer ''data channel not ready'')
     | Some dc \<Rightarrow> send_on_channel eng dc payload binary)"

definition ffi_send_control :: "'e engine \<Rightarrow> bytes \<Rightarrow> ('e peer_transport, unit) io" where
  "ffi_send_control eng payload =
     bindE (getE (\<lambda>t. ps_control_channel (pt_state t))) (\<lambda>dc. case dc of
       None \<Rightarrow> failE (CoreError.Peer ''control channel not ready'')
     | Some dc \<Rightarrow> send_on_channel eng dc payload True)"

definition ffi_set_track_direction :: "string \<Rightarrow> bool \<Rightarrow> ('e peer_transport, unit) io" where
  "ffi_set_track_direction track_name active =
     bindE (getE (\<lambda>t. ps_track_names (pt_state t))) (\<lambda>names.
     if track_name \<notin> set names then failE (unknown_track track_name) else retE ())"

definition ffi_get_stats :: "'e engine \<Rightarrow> ('e peer_transport, TransportStats) io" where
  "ffi_get_stats eng =
     bindE (getE (\<lambda>t. (ps_pc (pt_state t),
       Option.bind (ps_data_channel (pt_state t)) (\<lambda>dc. eng_chunking_stats eng dc (pt_engine t))))) (\<lambda>(pc, chunking).
     case pc of
       None \<Rightarrow> failE (InvalidState ''no peer connection to read statistics from'')
     | Some pc \<Rightarrow>
         bindE (on_engine (eng_get_stats eng pc)) (\<lambda>joined. case joined of
           Inl e \<Rightarrow> failE (CoreError.Peer (''statistics collection failed: '' @ e))
         | Inr (Inl e) \<Rightarrow> failE (peer_err e)
         | Inr (Inr report) \<Rightarrow> retE ((map_stats report)\<lparr>data_chunking := map_option map_chunking chunking\<rparr>)))"

definition ffi_close :: "'e engine \<Rightarrow> ('e peer_transport, unit) io" where
  "ffi_close eng =
     bindE (getE pt_state) (\<lambda>taken.
     bindE (modifyE (\<lambda>t. t\<lparr>pt_state := PeerState_default\<rparr>)) (\<lambda>_.
     bindE (case ps_pc taken of
              None \<Rightarrow> retE ()
            | Some pc \<Rightarrow> modifyE (\<lambda>t. set_observer pc ((observer pc t)\<lparr>ob_recv_tracks := []\<rparr>) t)) (\<lambda>_.
     modifyE (drop_connection eng (ps_pc taken)))))"

definition audio_input :: "string \<Rightarrow> PeerState \<Rightarrow> AudioInput" where
  "audio_input track_name s = (case hm_get (ps_audio_inputs s) track_name of Some i \<Rightarrow> i | None \<Rightarrow> AudioInput_default)"

definition ffi_push_audio_frame :: "'e engine \<Rightarrow> string \<Rightarrow> pcm \<Rightarrow> u32 \<Rightarrow> u32 \<Rightarrow> ('e peer_transport, unit) io" where
  "ffi_push_audio_frame eng track_name samples sample_rate num_channels =
     bindE (getE pt_state) (\<lambda>s. case hm_get (ps_local_tracks s) track_name of
       Some (LT_Audio _) \<Rightarrow>
         (case audio_push samples sample_rate num_channels (audio_input track_name s) of
               None \<Rightarrow> panicE
             | Some (input, blocks) \<Rightarrow>
                 bindE (update_engine (fold (\<lambda>(pcm, rate, channels). eng_push_audio_frame eng pcm rate channels) blocks)) (\<lambda>_.
                 modifyE (\<lambda>t. t\<lparr>pt_state := (pt_state t)\<lparr>ps_audio_inputs := hm_insert track_name input (ps_audio_inputs s)\<rparr>\<rparr>)))
     | _ \<Rightarrow> retE ())"

definition local_video :: "string \<Rightarrow> 'e peer_transport \<Rightarrow> handle option" where
  "local_video track_name t = Option.bind (hm_get (ps_local_tracks (pt_state t)) track_name) video_of"

definition push_video :: "string \<Rightarrow> (handle \<Rightarrow> 'e \<Rightarrow> 'e) \<Rightarrow> ('e peer_transport, unit) io" where
  "push_video track_name push_frame =
     bindE (getE (local_video track_name)) (\<lambda>track. case track of
       None \<Rightarrow> retE ()
     | Some h \<Rightarrow> update_engine (push_frame h))"

definition ffi_push_video_frame :: "'e engine \<Rightarrow> string \<Rightarrow> bytes \<Rightarrow> u32 \<Rightarrow> u32 \<Rightarrow> ('e peer_transport, unit) io" where
  "ffi_push_video_frame eng track_name data width height =
     push_video track_name (\<lambda>h. eng_push_frame eng h data width height)"

definition ffi_push_video_frame_with_metadata ::
    "'e engine \<Rightarrow> string \<Rightarrow> bytes \<Rightarrow> u32 \<Rightarrow> u32 \<Rightarrow> bytes \<Rightarrow> ('e peer_transport, unit) io" where
  "ffi_push_video_frame_with_metadata eng track_name data width height user_data =
     push_video track_name (\<lambda>h. eng_push_frame_with_metadata eng h data width height user_data)"

definition ffi_push_video_frame_with_metadata_at ::
    "'e engine \<Rightarrow> string \<Rightarrow> bytes \<Rightarrow> u32 \<Rightarrow> u32 \<Rightarrow> bytes \<Rightarrow> i64 \<Rightarrow> ('e peer_transport, unit) io" where
  "ffi_push_video_frame_with_metadata_at eng track_name data width height user_data capture_time_us =
     push_video track_name (\<lambda>h. eng_push_frame_with_metadata_at eng h data width height user_data capture_time_us)"

end
