(* ===== verification/Ffi_Transport.thy ===== *)
theory Ffi_Transport
  imports Ffi_Peer Reactor_Invariant Reactor_Sample
begin

text \<open>
  What the transport of the C binding guarantees: it never indexes out of range, it names the remote
  tracks, it remembers bitrate bounds across connections, and it is a transport as the core relies on it.
\<close>

section \<open>Operations that only touch the engine\<close>

definition engine_only :: "('e peer_transport, 'a) io \<Rightarrow> ('a \<Rightarrow> bool) \<Rightarrow> bool" where
  "engine_only m Q \<longleftrightarrow> (\<forall>t. wp m (\<lambda>x t'. Q x \<and> (\<exists>e. t' = t\<lparr>pt_engine := e\<rparr>))
     (\<lambda>f t'. f \<noteq> Panic \<and> (\<exists>e. t' = t\<lparr>pt_engine := e\<rparr>)) t)"

lemma engine_onlyD:
  assumes "engine_only m Q" and "m t = (r, t')"
  shows "\<exists>e. t' = t\<lparr>pt_engine := e\<rparr> \<and> (case r of Inl f \<Rightarrow> f \<noteq> Panic | Inr x \<Rightarrow> Q x)"
  using assms by (auto simp: engine_only_def wp_def split: sum.splits dest!: spec [of _ t])

lemma wp_on_engine [wp_simps]: "wp (on_engine f) Q E t = Q (fst (f (pt_engine t))) (t\<lparr>pt_engine := snd (f (pt_engine t))\<rparr>)"
  by (simp add: wp_def on_engine_def split: prod.split)

lemma engine_only_bindE:
  assumes "engine_only m Q" and "\<And>x. Q x \<Longrightarrow> engine_only (f x) R"
  shows "engine_only (bindE m f) R"
  unfolding engine_only_def wp_bindE
proof
  fix t
  have "wp m (\<lambda>x t'. Q x \<and> (\<exists>e. t' = t\<lparr>pt_engine := e\<rparr>)) (\<lambda>f t'. f \<noteq> Panic \<and> (\<exists>e. t' = t\<lparr>pt_engine := e\<rparr>)) t"
    using assms(1) by (simp add: engine_only_def)
  then show "wp m (\<lambda>x. wp (f x) (\<lambda>x t'. R x \<and> (\<exists>e. t' = t\<lparr>pt_engine := e\<rparr>)) (\<lambda>f t'. f \<noteq> Panic \<and> (\<exists>e. t' = t\<lparr>pt_engine := e\<rparr>)))
      (\<lambda>f t'. f \<noteq> Panic \<and> (\<exists>e. t' = t\<lparr>pt_engine := e\<rparr>)) t"
  proof (rule wp_mono)
    fix x t'
    assume "Q x \<and> (\<exists>e. t' = t\<lparr>pt_engine := e\<rparr>)"
    then obtain e where q: "Q x" and t': "t' = t\<lparr>pt_engine := e\<rparr>" by blast
    from assms(2) [OF q] have "wp (f x) (\<lambda>x s. R x \<and> (\<exists>e. s = t'\<lparr>pt_engine := e\<rparr>)) (\<lambda>f s. f \<noteq> Panic \<and> (\<exists>e. s = t'\<lparr>pt_engine := e\<rparr>)) t'"
      by (simp add: engine_only_def)
    then show "wp (f x) (\<lambda>x t'. R x \<and> (\<exists>e. t' = t\<lparr>pt_engine := e\<rparr>)) (\<lambda>f t'. f \<noteq> Panic \<and> (\<exists>e. t' = t\<lparr>pt_engine := e\<rparr>)) t'"
      by (rule wp_mono) (auto simp: t')
  qed auto
qed

lemma engine_unchanged: "\<exists>e. t = t\<lparr>pt_engine := e\<rparr>"
  by (rule exI [of _ "pt_engine t"]) simp

lemma engine_only_retE: "Q x \<Longrightarrow> engine_only (retE x) Q"
  by (simp add: engine_only_def wp_simps engine_unchanged)

lemma engine_only_failE: "engine_only (failE err) Q"
  by (simp add: engine_only_def wp_simps engine_unchanged)

lemma engine_only_engineE: "engine_only (engineE f) (\<lambda>_. True)"
  by (auto simp: engine_only_def engineE_def wp_simps split: sum.splits)

lemma engine_only_if: "(b \<Longrightarrow> engine_only m Q) \<Longrightarrow> (\<not> b \<Longrightarrow> engine_only m' Q) \<Longrightarrow> engine_only (if b then m else m') Q"
  by simp

section \<open>Building a connection\<close>

text \<open>The tracks a host can push to are the sendonly ones, by name and kind.\<close>

fun local_kind :: "LocalTrack \<Rightarrow> TrackKind" where
  "local_kind (LT_Video _) = Video"
| "local_kind (LT_Audio _) = Audio"

definition pushable :: "TrackCapability list \<Rightarrow> (string, LocalTrack) hmap \<Rightarrow> bool" where
  "pushable ts locals \<longleftrightarrow> (\<forall>t \<in> set ts. tc_direction t = Sendonly \<longrightarrow> hm_get locals (tc_name t) \<noteq> None)
     \<and> (\<forall>n l. hm_get locals n = Some l \<longrightarrow> (\<exists>t \<in> set ts. tc_name t = n \<and> tc_direction t = Sendonly \<and> tc_kind t = local_kind l))"

lemma create_local_only: "engine_only (create_local eng track) (\<lambda>l. local_kind l = tc_kind track)"
  by (cases "tc_kind track") (auto simp: create_local_def intro!: engine_only_bindE engine_only_engineE engine_only_retE)

lemma pushable_snoc:
  "pushable ts locals \<Longrightarrow> tc_direction t = Sendonly \<Longrightarrow> local_kind l = tc_kind t \<Longrightarrow> pushable (ts @ [t]) (hm_insert (tc_name t) l locals)"
  "pushable ts locals \<Longrightarrow> tc_direction t \<noteq> Sendonly \<Longrightarrow> pushable (ts @ [t]) locals"
  by (auto simp: pushable_def)

lemma add_transceivers_only:
  "pushable before locals \<Longrightarrow> length tcs = length before \<Longrightarrow>
   engine_only (add_transceivers eng pc ts tcs locals) (\<lambda>(tcs', locals'). length tcs' = length (before @ ts) \<and> pushable (before @ ts) locals')"
proof (induction ts arbitrary: before tcs locals)
  case Nil
  then show ?case by (simp add: engine_only_retE)
next
  case (Cons t ts)
  have "engine_only (add_transceivers eng pc ts (tcs @ [tc]) locals') (\<lambda>(tcs', locals'). length tcs' = length (before @ t # ts) \<and> pushable (before @ t # ts) locals')"
    if "pushable (before @ [t]) locals'" for tc locals'
    using Cons.IH [OF that, of "tcs @ [tc]"] Cons.prems(2) by simp
  then show ?case unfolding add_transceivers.simps using Cons.prems(1)
    by (intro engine_only_bindE [OF engine_only_engineE] engine_only_bindE [where Q = "pushable (before @ [t])"]
        engine_only_if engine_only_bindE [OF create_local_only] engine_only_retE pushable_snoc)
qed

text \<open>The calls that put the remembered bounds onto a new connection.\<close>

definition track_call :: "'e engine \<Rightarrow> string list \<Rightarrow> handle list \<Rightarrow> string \<times> BitrateBounds \<Rightarrow> 'e \<Rightarrow> 'e" where
  "track_call eng names tcs nb e = (case position (\<lambda>n. n = fst nb) names of
     None \<Rightarrow> e
   | Some i \<Rightarrow> snd (eng_set_send_bitrate eng (tcs ! i) (bb_min_bps (snd nb)) (bb_max_bps (snd nb)) e))"

definition bitrate_calls ::
    "'e engine \<Rightarrow> BitrateBounds \<Rightarrow> (string \<times> BitrateBounds) list \<Rightarrow> handle \<Rightarrow> string list \<Rightarrow> handle list \<Rightarrow> 'e \<Rightarrow> 'e" where
  "bitrate_calls eng b per_track pc names tcs e = fold (track_call eng names tcs) per_track
     (if b = BitrateBounds_default then e else snd (eng_set_bitrate eng pc (bb_min_bps b) (bb_start_bps b) (bb_max_bps b) e))"

lemma bindE_Inr [simp]: "m s = (Inr x, s') \<Longrightarrow> bindE m f s = f x s'"
  by (simp add: bindE_def)

lemma bindE_Inl [simp]: "m s = (Inl x, s') \<Longrightarrow> bindE m f s = (Inl x, s')"
  by (simp add: bindE_def)

lemma try_engineE_eq: "try_engineE f t = (Inr (), t\<lparr>pt_engine := snd (f (pt_engine t))\<rparr>)"
  by (simp add: try_engineE_def on_engine_def bindE_def retE_def split: prod.split)

lemma apply_track_bounds_eq:
  "length tcs = length names \<Longrightarrow>
   apply_track_bounds eng names tcs nbs t = (Inr (), t\<lparr>pt_engine := fold (track_call eng names tcs) nbs (pt_engine t)\<rparr>)"
proof (induction nbs arbitrary: t)
  case (Cons nb nbs)
  show ?case
  proof (cases "position (\<lambda>n. n = fst nb) names")
    case None
    then show ?thesis using Cons by (simp add: track_call_def bindE_def retE_def)
  next
    case (Some i)
    then have "i < length tcs" using position_Some Cons.prems by metis
    then show ?thesis using Cons Some by (simp add: track_call_def bindE_def retE_def indexE_def try_engineE_eq)
  qed
qed (simp add: retE_def)

lemma apply_bitrate_eq:
  assumes "length tcs = length names"
  shows "apply_bitrate eng order pc names tcs t =
    (Inr (), t\<lparr>pt_engine := bitrate_calls eng (pt_connection t) (iterate order (pt_per_track t)) pc names tcs (pt_engine t)\<rparr>)"
  using assms
  by (cases "pt_connection t")
    (auto simp: apply_bitrate_def bitrate_calls_def BitrateBounds_default_def bindE_def getE_def whenE_def retE_def
      try_engineE_eq apply_track_bounds_eq)

text \<open>How a \<^verbatim>\<open>prepare\<close> ends.\<close>

definition published ::
    "'e engine \<Rightarrow> (string \<times> BitrateBounds) iter \<Rightarrow> TrackCapability list \<Rightarrow> PreparedOffer \<Rightarrow> 'e peer_transport \<Rightarrow> 'e peer_transport \<Rightarrow> bool" where
  "published eng order ts p t t' \<longleftrightarrow> (\<exists>pc dch cch tcs locals e.
     length tcs = length ts \<and> pushable ts locals \<and> po_track_mapping p = map (map_entry eng e) (zip ts tcs)
   \<and> t' = t\<lparr>pt_state := \<lparr> ps_pc = Some pc, ps_data_channel = Some dch, ps_control_channel = Some cch, ps_track_names = map tc_name ts,
              ps_track_directions = map tc_direction ts, ps_transceivers = tcs, ps_local_tracks = locals, ps_audio_inputs = [] \<rparr>,
            pt_observers := hm_insert pc (Observer_new\<lparr>ob_name_mids := received_names (po_track_mapping p)\<rparr>) (pt_observers t),
            pt_engine := (case ps_pc (pt_state t) of None \<Rightarrow> id | Some old \<Rightarrow> eng_drop eng old)
              (bitrate_calls eng (pt_connection t) (iterate order (pt_per_track t)) pc (map tc_name ts) tcs e)\<rparr>)"

lemma name_received_new:
  "observer pc t = Observer_new \<Longrightarrow> name_received pc m t = set_observer pc (Observer_new\<lparr>ob_name_mids := received_names m\<rparr>) t"
  by (simp add: name_received_def Observer_new_def)

lemma hm_insert_twice [simp]: "hm_insert k v (hm_insert k w m) = hm_insert k v m"
  by (simp add: hm_insert_def)

lemma observer_set [simp]: "observer pc (set_observer pc' ob t) = (if pc = pc' then ob else observer pc t)"
  by (simp add: observer_def set_observer_def)

lemma observer_engine [simp]: "observer pc (t\<lparr>pt_engine := e\<rparr>) = observer pc t"
  by (simp add: observer_def)

text \<open>Up to the local description a connection is built in the engine alone.\<close>

definition negotiated ::
    "'e engine \<Rightarrow> handle \<Rightarrow> TrackCapability list \<Rightarrow> ('e peer_transport, handle list \<times> (string, LocalTrack) hmap \<times> handle \<times> handle \<times> string) io" where
  "negotiated eng pc ts =
     bindE (add_transceivers eng pc ts [] []) (\<lambda>(transceivers, local_tracks).
     bindE (engineE (eng_create_data_channel eng pc ''data'')) (\<lambda>data_ch.
     bindE (engineE (eng_create_data_channel eng pc ''control'')) (\<lambda>control_ch.
     bindE (engineE (eng_create_offer eng pc)) (\<lambda>offer.
     bindE (engineE (eng_set_local_description eng pc offer)) (\<lambda>_.
     retE (transceivers, local_tracks, data_ch, control_ch, offer))))))"

lemma negotiated_only:
  "engine_only (negotiated eng pc ts) (\<lambda>(tcs, locals, _). length tcs = length ts \<and> pushable ts locals)"
  unfolding negotiated_def
  by (rule engine_only_bindE [OF add_transceivers_only [of "[]"]])
    (auto simp: pushable_def intro!: engine_only_bindE [OF engine_only_engineE] engine_only_retE)

lemma bindE_assoc: "bindE (bindE m f) g = bindE m (\<lambda>x. bindE (f x) g)"
  by (auto simp: bindE_def fun_eq_iff split: prod.splits sum.splits)

lemma bindE_retE: "bindE (retE x) f = f x"
  by (simp add: bindE_def retE_def fun_eq_iff)

lemma build_connection_negotiated:
  "build_connection eng order pc ts = bindE (negotiated eng pc ts) (\<lambda>(tcs, locals, dch, cch, offer).
     bindE (getE (\<lambda>t. map (map_entry eng (pt_engine t)) (zip ts tcs))) (\<lambda>m.
     bindE (modifyE (name_received pc m)) (\<lambda>_.
     bindE (apply_bitrate eng order pc (map tc_name ts) tcs) (\<lambda>_.
     bindE (modifyE (publish eng \<lparr> ps_pc = Some pc, ps_data_channel = Some dch, ps_control_channel = Some cch,
        ps_track_names = map tc_name ts, ps_track_directions = map tc_direction ts, ps_transceivers = tcs,
        ps_local_tracks = locals, ps_audio_inputs = [] \<rparr>)) (\<lambda>_.
     retE \<lparr> po_sdp_offer = offer, po_track_mapping = m \<rparr>)))))"
  by (simp add: build_connection_def negotiated_def bindE_assoc bindE_retE case_prod_unfold)

lemma prepare_outcome:
  assumes "ffi_prepare eng order ice ts t = (r, t')"
  shows "(\<exists>err e obs. r = Inl (Fail err) \<and> t' = t\<lparr>pt_engine := e, pt_observers := obs\<rparr>)
    \<or> (\<exists>p. r = Inr p \<and> published eng order ts p t t')"
proof -
  obtain r0 t0 where c: "engineE (eng_create_peer_connection eng (offer_config ice)) t = (r0, t0)"
    by (cases "engineE (eng_create_peer_connection eng (offer_config ice)) t")
  obtain e0 where t0: "t0 = t\<lparr>pt_engine := e0\<rparr>" and f0: "case r0 of Inl f \<Rightarrow> f \<noteq> Panic | Inr x \<Rightarrow> True"
    using engine_onlyD [OF engine_only_engineE c] by blast
  show ?thesis
  proof (cases r0)
    case (Inl f)
    then obtain err where "r = Inl (Fail err)" "t' = t\<lparr>pt_engine := e0, pt_observers := pt_observers t\<rparr>"
      using assms c t0 f0 by (cases f) (auto simp: ffi_prepare_def)
    then show ?thesis by blast
  next
    case (Inr pc)
    let ?t1 = "set_observer pc Observer_new t0"
    obtain r1 t2 where n: "negotiated eng pc ts ?t1 = (r1, t2)" by (cases "negotiated eng pc ts ?t1")
    obtain e1 where t2: "t2 = ?t1\<lparr>pt_engine := e1\<rparr>"
      and q: "case r1 of Inl f \<Rightarrow> f \<noteq> Panic | Inr (tcs, locals, _) \<Rightarrow> length tcs = length ts \<and> pushable ts locals"
      using engine_onlyD [OF negotiated_only n] by (auto split: sum.splits)
    have eq: "ffi_prepare eng order ice ts t = dropping eng pc (build_connection eng order pc ts) ?t1"
      using c Inr by (simp add: ffi_prepare_def bindE_def modifyE_def)
    show ?thesis
    proof (cases r1)
      case (Inl f)
      then obtain err where "f = Fail err" using q by (cases f) auto
      then have "r = Inl (Fail err) \<and> t' = t\<lparr>pt_engine := eng_drop eng pc e1, pt_observers := hm_insert pc Observer_new (pt_observers t)\<rparr>"
        using assms n Inl unfolding eq
        by (auto simp: dropping_def build_connection_negotiated drop_connection_def t2 t0 set_observer_def)
      then show ?thesis by blast
    next
      case (Inr x)
      obtain tcs locals dch cch offer where x: "x = (tcs, locals, dch, cch, offer)" by (cases x)
      have l: "length tcs = length ts" and pu: "pushable ts locals" using q Inr x by auto
      let ?m = "map (map_entry eng e1) (zip ts tcs)"
      let ?p = "\<lparr> po_sdp_offer = offer, po_track_mapping = ?m \<rparr>"
      have "name_received pc ?m t2 = set_observer pc (Observer_new\<lparr>ob_name_mids := received_names ?m\<rparr>) t2"
        by (rule name_received_new) (simp add: t2)
      then have nr: "name_received pc ?m t2 =
          t\<lparr>pt_engine := e1, pt_observers := hm_insert pc (Observer_new\<lparr>ob_name_mids := received_names ?m\<rparr>) (pt_observers t)\<rparr>"
        by (simp add: t2 t0 set_observer_def)
      have e1: "pt_engine t2 = e1" by (simp add: t2)
      have r: "r = Inr ?p" and t': "t' = publish eng \<lparr> ps_pc = Some pc, ps_data_channel = Some dch, ps_control_channel = Some cch,
          ps_track_names = map tc_name ts, ps_track_directions = map tc_direction ts, ps_transceivers = tcs,
          ps_local_tracks = locals, ps_audio_inputs = [] \<rparr> (snd (apply_bitrate eng order pc (map tc_name ts) tcs (name_received pc ?m t2)))"
        using assms n Inr l unfolding eq
        by (auto simp: dropping_def build_connection_negotiated x getE_def modifyE_def apply_bitrate_eq retE_def bindE_def e1)
      have "published eng order ts ?p t t'" unfolding published_def t'
        by (rule exI [of _ pc], rule exI [of _ dch], rule exI [of _ cch], rule exI [of _ tcs], rule exI [of _ locals], rule exI [of _ e1])
          (simp add: l pu nr apply_bitrate_eq publish_def drop_connection_def split: option.split)
      with r have "r = Inr ?p \<and> published eng order ts ?p t t'" by simp
      then show ?thesis by blast
    qed
  qed
qed

section \<open>Runs\<close>

datatype peer_op =
    Op_Prepare "IceServer list" "TrackCapability list"
  | Op_RemoteDescription string
  | Op_Bitrate "i32 option" "i32 option" "i32 option"
  | Op_TrackBitrate string "i32 option" "i32 option"
  | Op_TrackDirection string bool
  | Op_SendData bytes bool
  | Op_SendControl bytes
  | Op_Stats
  | Op_Close
  | Op_PushAudio string pcm u32 u32
  | Op_PushVideo string bytes u32 u32
  | Op_PushVideoMetadata string bytes u32 u32 bytes
  | Op_PushVideoAt string bytes u32 u32 bytes i64
  | Op_Event handle engine_event

definition void :: "('s, 'a) io \<Rightarrow> ('s, unit) io" where
  "void m = bindE m (\<lambda>_. retE ())"

fun do_op :: "'e engine \<Rightarrow> (string \<times> BitrateBounds) iter \<Rightarrow> peer_op \<Rightarrow> ('e peer_transport, unit) io" where
  "do_op eng order (Op_Prepare ice ts) = void (ffi_prepare eng order ice ts)"
| "do_op eng order (Op_RemoteDescription answer) = ffi_set_remote_description eng answer"
| "do_op eng order (Op_Bitrate lo start hi) = ffi_set_bitrate eng lo start hi"
| "do_op eng order (Op_TrackBitrate name lo hi) = ffi_set_track_bitrate eng name lo hi"
| "do_op eng order (Op_TrackDirection name active) = ffi_set_track_direction name active"
| "do_op eng order (Op_SendData payload binary) = ffi_send_data eng payload binary"
| "do_op eng order (Op_SendControl payload) = ffi_send_control eng payload"
| "do_op eng order Op_Stats = void (ffi_get_stats eng)"
| "do_op eng order Op_Close = ffi_close eng"
| "do_op eng order (Op_PushAudio name samples rate channels) = ffi_push_audio_frame eng name samples rate channels"
| "do_op eng order (Op_PushVideo name data wd ht) = ffi_push_video_frame eng name data wd ht"
| "do_op eng order (Op_PushVideoMetadata name data wd ht ud) = ffi_push_video_frame_with_metadata eng name data wd ht ud"
| "do_op eng order (Op_PushVideoAt name data wd ht ud at_us) = ffi_push_video_frame_with_metadata_at eng name data wd ht ud at_us"
| "do_op eng order (Op_Event pc ev) = modifyE (observe pc ev)"

text \<open>A caller that goes on after an error. The history says what each operation answered.\<close>

fun peer_run ::
    "'e engine \<Rightarrow> (string \<times> BitrateBounds) iter \<Rightarrow> peer_op list \<Rightarrow> 'e peer_transport \<Rightarrow>
       (peer_op \<times> (failure, unit) result) list \<times> 'e peer_transport" where
  "peer_run eng order [] t = ([], t)"
| "peer_run eng order (op # ops) t =
     (case do_op eng order op t of (r, t1) \<Rightarrow> case peer_run eng order ops t1 of (h, t2) \<Rightarrow> ((op, r) # h, t2))"

text \<open>The transport is well formed: parallel lists, sources for sendonly tracks, audio inputs with less than a block.\<close>

definition state_ok :: "PeerState \<Rightarrow> bool" where
  "state_ok s \<longleftrightarrow>
     length (ps_transceivers s) = length (ps_track_names s) \<and> length (ps_track_directions s) = length (ps_track_names s)
   \<and> (\<forall>n l. hm_get (ps_local_tracks s) n = Some l \<longrightarrow> (n, Sendonly) \<in> set (zip (ps_track_names s) (ps_track_directions s)))
   \<and> (\<forall>n ai. hm_get (ps_audio_inputs s) n = Some ai \<longrightarrow> (\<exists>ss. holds_rest ai ss))
   \<and> (ps_pc s = None \<longrightarrow> s = PeerState_default)
   \<and> (ps_data_channel s \<noteq> None \<longleftrightarrow> ps_pc s \<noteq> None) \<and> (ps_control_channel s \<noteq> None \<longleftrightarrow> ps_pc s \<noteq> None)"

abbreviation peer_ok :: "'e peer_transport \<Rightarrow> bool" where
  "peer_ok t \<equiv> state_ok (pt_state t)"

definition safe :: "('e peer_transport, 'a) io \<Rightarrow> bool" where
  "safe m \<longleftrightarrow> (\<forall>t. peer_ok t \<longrightarrow> wp m (\<lambda>_. peer_ok) (\<lambda>f t'. f \<noteq> Panic \<and> peer_ok t') t)"

lemma observe_state [simp]: "pt_state (observe pc ev t) = pt_state t"
  by (cases ev) (auto simp: on_track_def set_observer_def send_event_def Let_def split_beta)

lemma safe_void: "safe m \<Longrightarrow> safe (void m)"
  by (auto simp: safe_def void_def wp_simps elim!: wp_mono)

lemma engine_only_safe: "engine_only m Q \<Longrightarrow> safe m"
  unfolding safe_def engine_only_def by (intro allI impI, erule allE, erule wp_mono) auto

lemma prepare_safe: "safe (ffi_prepare eng order ice ts)"
  unfolding safe_def
proof (intro allI impI)
  fix t :: "'a peer_transport"
  assume ok: "peer_ok t"
  obtain r t' where p: "ffi_prepare eng order ice ts t = (r, t')" by (cases "ffi_prepare eng order ice ts t")
  from prepare_outcome [OF p] show "wp (ffi_prepare eng order ice ts) (\<lambda>_. peer_ok) (\<lambda>f t'. f \<noteq> Panic \<and> peer_ok t') t"
  proof
    assume "\<exists>err e obs. r = Inl (Fail err) \<and> t' = t\<lparr>pt_engine := e, pt_observers := obs\<rparr>"
    then show ?thesis using p ok by (auto simp: wp_def)
  next
    assume "\<exists>q. r = Inr q \<and> published eng order ts q t t'"
    then obtain q pc dch cch tcs locals where r: "r = Inr q" and l: "length tcs = length ts" and pu: "pushable ts locals"
      and s: "pt_state t' = \<lparr> ps_pc = Some pc, ps_data_channel = Some dch, ps_control_channel = Some cch, ps_track_names = map tc_name ts,
              ps_track_directions = map tc_direction ts, ps_transceivers = tcs, ps_local_tracks = locals, ps_audio_inputs = [] \<rparr>"
      by (auto simp: published_def)
    have "(n, Sendonly) \<in> set (zip (map tc_name ts) (map tc_direction ts))" if "hm_get locals n = Some lt" for n lt
      using pu that by (force simp: pushable_def zip_map_map zip_same_conv_map)
    then show ?thesis using l by (auto simp: wp_def p r state_ok_def s)
  qed
qed

lemma engine_only_update: "engine_only (update_engine f) (\<lambda>_. True)"
  by (auto simp: engine_only_def update_engine_def wp_simps)

lemma engine_only_getE: "(\<And>t. Q (f t)) \<Longrightarrow> engine_only (getE f) Q"
  by (auto simp: engine_only_def wp_simps engine_unchanged)

lemmas engine_only_intros = engine_only_bindE [OF engine_only_getE [where Q = "\<lambda>_. True"]] engine_only_bindE [OF engine_only_engineE]
  engine_only_engineE engine_only_retE engine_only_failE engine_only_update

lemma remote_only: "engine_only (ffi_set_remote_description eng answer) (\<lambda>_. True)"
  unfolding ffi_set_remote_description_def by (auto intro!: engine_only_intros split: option.splits)

lemma direction_only: "engine_only (ffi_set_track_direction name active) (\<lambda>_. True)"
  unfolding ffi_set_track_direction_def by (auto intro!: engine_only_intros)

lemma sends_only:
  "engine_only (send_on_channel eng ch payload binary) (\<lambda>_. True)"
  "engine_only (ffi_send_data eng payload binary) (\<lambda>_. True)" "engine_only (ffi_send_control eng payload) (\<lambda>_. True)"
proof -
  show c: "engine_only (send_on_channel eng ch payload binary) (\<lambda>_. True)" for ch binary
    by (auto simp: engine_only_def send_on_channel_def wp_simps engine_unchanged split: sum.splits)
  show "engine_only (ffi_send_data eng payload binary) (\<lambda>_. True)" "engine_only (ffi_send_control eng payload) (\<lambda>_. True)"
    unfolding ffi_send_data_def ffi_send_control_def by (auto intro!: engine_only_intros c split: option.splits)
qed

lemma stats_only: "engine_only (ffi_get_stats eng) (\<lambda>_. True)"
  by (auto simp: engine_only_def ffi_get_stats_def wp_simps engine_unchanged split: sum.splits option.splits)

lemma pushes_only:
  "engine_only (ffi_push_video_frame eng name data wd ht) (\<lambda>_. True)"
  "engine_only (ffi_push_video_frame_with_metadata eng name data wd ht ud) (\<lambda>_. True)"
  "engine_only (ffi_push_video_frame_with_metadata_at eng name data wd ht ud at_us) (\<lambda>_. True)"
  unfolding ffi_push_video_frame_def ffi_push_video_frame_with_metadata_def ffi_push_video_frame_with_metadata_at_def push_video_def
  by (auto intro!: engine_only_intros split: option.splits)

lemma close_safe: "safe (ffi_close eng)"
  by (auto simp: safe_def ffi_close_def wp_simps state_ok_def PeerState_default_def drop_connection_def set_observer_def
      split: option.splits)

lemma push_audio_safe: "safe (ffi_push_audio_frame eng name samples rate channels)"
  unfolding safe_def
proof (intro allI impI)
  fix t :: "'a peer_transport"
  assume ok: "peer_ok t"
  let ?s = "pt_state t"
  obtain ss where ss: "holds_rest (audio_input name ?s) ss"
  proof (cases "hm_get (ps_audio_inputs ?s) name")
    case None
    then have "holds_rest (audio_input name ?s) []" by (simp add: audio_input_def holds_rest_def)
    then show ?thesis using that by blast
  next
    case (Some ai)
    then obtain ss where "holds_rest ai ss" using ok unfolding state_ok_def by metis
    then show ?thesis using that Some by (simp add: audio_input_def)
  qed
  obtain ai out where a: "audio_push samples rate channels (audio_input name ?s) = Some (ai, out)" "holds_rest ai (add_call ss (samples, rate, channels))"
    using push_streams [OF ss, of samples rate channels] by metis
  have "peer_ok (t\<lparr>pt_engine := e, pt_state := ?s\<lparr>ps_audio_inputs := hm_insert name ai (ps_audio_inputs ?s)\<rparr>\<rparr>)"
    if "hm_get (ps_local_tracks ?s) name = Some l" for l e
  proof -
    have "ps_pc ?s \<noteq> None" using ok that by (auto simp: state_ok_def PeerState_default_def Let_def)
    then show ?thesis using ok a(2) by (auto simp: state_ok_def Let_def)
  qed
  then show "wp (ffi_push_audio_frame eng name samples rate channels) (\<lambda>_. peer_ok) (\<lambda>f t'. f \<noteq> Panic \<and> peer_ok t') t"
    using a(1) ok by (auto simp: ffi_push_audio_frame_def wp_simps update_engine_def split: option.splits LocalTrack.splits)
qed

lemma position_safe:
  assumes "peer_ok t" and "position (\<lambda>n. n = name) (ps_track_names (pt_state t)) = Some i"
  shows "i < length (ps_transceivers (pt_state t))"
  using assms position_Some by (fastforce simp: state_ok_def Let_def)

lemma bitrate_safe: "safe (ffi_set_bitrate eng lo start hi)" "safe (ffi_set_track_bitrate eng name lo hi)"
proof -
  show "safe (ffi_set_bitrate eng lo start hi)"
    by (auto simp: safe_def ffi_set_bitrate_def commit_connection_def engineE_def wp_simps state_ok_def split: option.splits sum.splits)
  show "safe (ffi_set_track_bitrate eng name lo hi)"
    unfolding safe_def
  proof (intro allI impI)
    fix t :: "'a peer_transport"
    assume ok: "peer_ok t"
    show "wp (ffi_set_track_bitrate eng name lo hi) (\<lambda>_. peer_ok) (\<lambda>f t'. f \<noteq> Panic \<and> peer_ok t') t"
      using ok position_safe [OF ok, of name]
      by (auto simp: ffi_set_track_bitrate_def commit_track_def indexE_def engineE_def wp_simps split: option.splits sum.splits)
  qed
qed

lemmas engine_safe = remote_only [THEN engine_only_safe] direction_only [THEN engine_only_safe] sends_only(2,3) [THEN engine_only_safe]
  stats_only [THEN engine_only_safe] pushes_only [THEN engine_only_safe]

lemma observe_safe: "safe (modifyE (observe pc ev))"
  by (simp add: safe_def wp_simps)

lemma op_safe: "safe (do_op eng order op)"
  by (cases op) (simp_all add: safe_void prepare_safe bitrate_safe close_safe push_audio_safe engine_safe observe_safe)

lemma run_safe:
  "peer_ok t \<Longrightarrow> peer_run eng order ops t = (h, t') \<Longrightarrow> peer_ok t' \<and> (\<forall>(op, r) \<in> set h. r \<noteq> Inl Panic)"
proof (induction ops arbitrary: t h)
  case (Cons op ops)
  obtain r t1 where s: "do_op eng order op t = (r, t1)" by (cases "do_op eng order op t")
  obtain h' where h: "peer_run eng order ops t1 = (h', t')" "h = (op, r) # h'"
    using Cons.prems(2) s by (auto split: prod.splits)
  have "peer_ok t1 \<and> r \<noteq> Inl Panic" using op_safe [of eng order op] Cons.prems(1) s
    by (cases r) (auto simp: safe_def wp_def dest!: spec [of _ t])
  then show ?case using Cons.IH [OF _ h(1)] h(2) by auto
qed auto

lemma new_ok: "peer_ok (peer_transport_new frame_cb audio_cb e)"
  by (simp add: state_ok_def peer_transport_new_def PeerState_default_def)

section \<open>Remote tracks\<close>

text \<open>What the core is told: the k-th remote track is the k-th recvonly track of the mapping.\<close>

fun is_track :: "engine_event \<Rightarrow> bool" where
  "is_track (E_Track _) = True"
| "is_track _ = False"

fun reported :: "(string \<times> string option) list \<Rightarrow> engine_event list \<Rightarrow> PeerEvent list" where
  "reported names [] = []"
| "reported names (E_Track _ # evs) = (case names of
     [] \<Rightarrow> PE_TrackReceived None None # reported [] evs
   | (name, mid) # names \<Rightarrow> PE_TrackReceived (Some name) mid # reported names evs)"
| "reported names (E_ConnectionState s # evs) = ConnectionStateChanged (map_state s) # reported names evs"
| "reported names (E_IceGathering gathered # evs) = (if gathered then [IceGatheringComplete] else []) @ reported names evs"
| "reported names (E_IceCandidate c # evs) = PE_IceCandidate c # reported names evs"
| "reported names (E_DataOpen # evs) = DataChannelOpen # reported names evs"
| "reported names (E_DataMessage raw # evs) = DataChannelMessage raw # reported names evs"
| "reported names (E_ControlOpen # evs) = ControlChannelOpen # reported names evs"
| "reported names (E_ControlMessage raw # evs) = ControlChannelMessage raw # reported names evs"

text \<open>The name the host gets the frames of each track under.\<close>

fun track_names :: "(string \<times> string option) list \<Rightarrow> engine_event list \<Rightarrow> (RemoteTrack \<times> string) list" where
  "track_names names [] = []"
| "track_names names (E_Track track # evs) = (case names of
     [] \<Rightarrow> (track, []) # track_names [] evs
   | (name, _) # names \<Rightarrow> (track, name) # track_names names evs)"
| "track_names names (_ # evs) = track_names names evs"

definition names_left :: "Observer \<Rightarrow> (string \<times> string option) list" where
  "names_left ob = drop (unat (ob_track_idx ob)) (ob_name_mids ob)"

definition video_sinks :: "Observer \<Rightarrow> (RemoteTrack \<times> string) list" where
  "video_sinks ob = filter (\<lambda>(track, _). case track of RT_Video _ \<Rightarrow> True | RT_Audio _ \<Rightarrow> False) (ob_sinks ob)"

lemma observer_send_event [simp]: "observer pc (send_event ev t) = observer pc t" "pt_frame_cb (send_event ev t) = pt_frame_cb t"
  "pt_events (send_event ev t) = pt_events t @ [ev]"
  by (simp_all add: send_event_def observer_def)

lemma set_observer_fields [simp]: "pt_events (set_observer pc ob t) = pt_events t" "pt_frame_cb (set_observer pc ob t) = pt_frame_cb t"
  by (simp_all add: set_observer_def)

lemma names_left_next:
  assumes "unat (ob_track_idx ob) + 1 < 2 ^ 64" and "ob_name_mids ob' = ob_name_mids ob" and "ob_track_idx ob' = ob_track_idx ob + 1"
  shows "names_left ob' = tl (names_left ob)" and "unat (ob_track_idx ob') = Suc (unat (ob_track_idx ob))"
proof -
  show idx: "unat (ob_track_idx ob') = Suc (unat (ob_track_idx ob))"
    using assms(1) by (simp add: assms(3) unat_word_ariths)
  show "names_left ob' = tl (names_left ob)" unfolding names_left_def assms(2) idx by (metis drop_Suc tl_drop)
qed

lemma names_left_cases:
  "names_left ob = (if unat (ob_track_idx ob) < length (ob_name_mids ob)
     then ob_name_mids ob ! unat (ob_track_idx ob) # tl (names_left ob) else [])"
  by (simp add: names_left_def Cons_nth_drop_Suc [symmetric])

lemma on_track_names:
  fixes t :: "'e peer_transport" and track :: RemoteTrack
  assumes "unat (ob_track_idx (observer pc t)) + 1 < 2 ^ 64"
  defines "t' \<equiv> on_track pc track t"
  shows "names_left (observer pc t') = tl (names_left (observer pc t))"
    and "unat (ob_track_idx (observer pc t')) = Suc (unat (ob_track_idx (observer pc t)))"
    and "pt_events t' = pt_events t @ [case names_left (observer pc t) of [] \<Rightarrow> PE_TrackReceived None None
          | (name, mid) # _ \<Rightarrow> PE_TrackReceived (Some name) mid]"
    and "pt_frame_cb t' = pt_frame_cb t"
    and "pt_frame_cb t \<Longrightarrow> video_sinks (observer pc t') = (case track of RT_Audio _ \<Rightarrow> []
          | RT_Video _ \<Rightarrow> [(track, case names_left (observer pc t) of [] \<Rightarrow> [] | (name, _) # _ \<Rightarrow> name)]) @ video_sinks (observer pc t)"
proof -
  let ?ob = "observer pc t"
  have o: "ob_name_mids (observer pc t') = ob_name_mids ?ob" "ob_track_idx (observer pc t') = ob_track_idx ?ob + 1"
    by (simp_all add: t'_def on_track_def Let_def)
  show "names_left (observer pc t') = tl (names_left ?ob)" "unat (ob_track_idx (observer pc t')) = Suc (unat (ob_track_idx ?ob))"
    using names_left_next [OF assms(1) o] .
  have c: "(if unat (ob_track_idx ?ob) < length (ob_name_mids ?ob)
      then (Some (fst (ob_name_mids ?ob ! unat (ob_track_idx ?ob))), snd (ob_name_mids ?ob ! unat (ob_track_idx ?ob))) else (None, None))
    = (case names_left ?ob of [] \<Rightarrow> (None, None) | (name, mid) # _ \<Rightarrow> (Some name, mid))"
    by (subst names_left_cases) (auto simp: case_prod_beta)
  show "pt_events t' = pt_events t @ [case names_left ?ob of [] \<Rightarrow> PE_TrackReceived None None
          | (name, mid) # _ \<Rightarrow> PE_TrackReceived (Some name) mid]"
    unfolding t'_def on_track_def Let_def c by (simp split: list.splits)
  show "pt_frame_cb t' = pt_frame_cb t" by (simp add: t'_def on_track_def Let_def split_beta)
  assume cb: "pt_frame_cb t"
  show "video_sinks (observer pc t') = (case track of RT_Audio _ \<Rightarrow> []
          | RT_Video _ \<Rightarrow> [(track, case names_left ?ob of [] \<Rightarrow> [] | (name, _) # _ \<Rightarrow> name)]) @ video_sinks ?ob"
    unfolding t'_def on_track_def Let_def c using cb
    by (auto simp: video_sinks_def has_sink_def split: list.splits RemoteTrack.splits)
qed

lemma observe_others:
  assumes "\<not> is_track ev"
  shows "observer pc (observe pc ev t) = observer pc t" "pt_frame_cb (observe pc ev t) = pt_frame_cb t"
    "pt_events (observe pc ev t) @ reported names evs = pt_events t @ reported names (ev # evs)"
    "track_names names (ev # evs) = track_names names evs"
  using assms by (cases ev; simp)+

lemma observed:
  "unat (ob_track_idx (observer pc t)) + length (filter is_track evs) < 2 ^ 64 \<Longrightarrow>
   pt_events (fold (observe pc) evs t) = pt_events t @ reported (names_left (observer pc t)) evs
   \<and> (pt_frame_cb t \<longrightarrow> set (video_sinks (observer pc (fold (observe pc) evs t))) =
        {x \<in> set (track_names (names_left (observer pc t)) evs). \<exists>v. fst x = RT_Video v} \<union> set (video_sinks (observer pc t)))"
proof (induction evs arbitrary: t)
  case (Cons ev evs)
  show ?case
  proof (cases "is_track ev")
    case False
    note o = observe_others [OF False]
    have "unat (ob_track_idx (observer pc (observe pc ev t))) + length (filter is_track evs) < 2 ^ 64"
      using Cons.prems False by (simp add: o)
    from Cons.IH [OF this] show ?thesis using o(3) [of pc t "names_left (observer pc t)" evs] by (simp add: o(1,2,4))
  next
    case True
    then obtain track where ev: "ev = E_Track track" by (cases ev) auto
    have i: "unat (ob_track_idx (observer pc t)) + 1 < 2 ^ 64" using Cons.prems True by simp
    note n = on_track_names [OF i, of track]
    have "unat (ob_track_idx (observer pc (on_track pc track t))) + length (filter is_track evs) < 2 ^ 64"
      using Cons.prems True by (simp add: n(2))
    note IH = Cons.IH [OF this]
    let ?N = "names_left (observer pc t)"
    have "pt_events (fold (observe pc) (ev # evs) t) = pt_events t @ reported ?N (ev # evs)"
      using IH by (cases ?N) (simp_all add: ev n(1,3) split: prod.splits)
    moreover have "set (video_sinks (observer pc (fold (observe pc) (ev # evs) t))) =
        {x \<in> set (track_names ?N (ev # evs)). \<exists>v. fst x = RT_Video v} \<union> set (video_sinks (observer pc t))" if cb: "pt_frame_cb t"
    proof -
      let ?rest = "{x \<in> set (track_names (tl ?N) evs). \<exists>v. fst x = RT_Video v}"
      let ?new = "(track, case ?N of [] \<Rightarrow> [] | (name, _) # _ \<Rightarrow> name)"
      have "set (video_sinks (observer pc (fold (observe pc) (ev # evs) t))) =
          ?rest \<union> set ((case track of RT_Audio _ \<Rightarrow> [] | RT_Video _ \<Rightarrow> [?new]) @ video_sinks (observer pc t))"
        using IH cb by (simp add: ev n(1,4,5))
      moreover have "track_names ?N (ev # evs) = ?new # track_names (tl ?N) evs"
        by (cases ?N) (simp_all add: ev split: prod.splits)
      ultimately show ?thesis by (cases track) auto
    qed
    ultimately show ?thesis by blast
  qed
qed simp

section \<open>Remembered bounds\<close>

text \<open>The bounds in force: those of the last call that was accepted, for the connection and for each track.\<close>

definition remember :: "BitrateBounds \<times> (string \<rightharpoonup> BitrateBounds) \<Rightarrow> peer_op \<times> (failure, unit) result \<Rightarrow> BitrateBounds \<times> (string \<rightharpoonup> BitrateBounds)" where
  "remember b x = (if snd x \<noteq> Inr () then b else case fst x of
     Op_Bitrate lo start hi \<Rightarrow> (\<lparr> bb_min_bps = lo, bb_start_bps = start, bb_max_bps = hi \<rparr>, snd b)
   | Op_TrackBitrate name lo hi \<Rightarrow> (fst b, (snd b)(name \<mapsto> \<lparr> bb_min_bps = lo, bb_start_bps = None, bb_max_bps = hi \<rparr>))
   | _ \<Rightarrow> b)"

abbreviation bounds :: "'e peer_transport \<Rightarrow> BitrateBounds \<times> (string \<rightharpoonup> BitrateBounds)" where
  "bounds t \<equiv> (pt_connection t, hm_get (pt_per_track t))"

definition keeps_bounds :: "('e peer_transport, 'a) io \<Rightarrow> bool" where
  "keeps_bounds m \<longleftrightarrow> (\<forall>t. pt_connection (snd (m t)) = pt_connection t \<and> pt_per_track (snd (m t)) = pt_per_track t)"

lemma engine_only_keeps: "engine_only m Q \<Longrightarrow> keeps_bounds m"
  unfolding keeps_bounds_def
proof
  fix t
  assume m: "engine_only m Q"
  obtain r t' where "m t = (r, t')" by (cases "m t")
  with engine_onlyD [OF m this] show "pt_connection (snd (m t)) = pt_connection t \<and> pt_per_track (snd (m t)) = pt_per_track t" by auto
qed

lemma prepare_keeps: "keeps_bounds (ffi_prepare eng order ice ts)"
  unfolding keeps_bounds_def
proof
  fix t
  obtain r t' where p: "ffi_prepare eng order ice ts t = (r, t')" by (cases "ffi_prepare eng order ice ts t")
  from prepare_outcome [OF p] show "pt_connection (snd (ffi_prepare eng order ice ts t)) = pt_connection t
      \<and> pt_per_track (snd (ffi_prepare eng order ice ts t)) = pt_per_track t"
    using p by (auto simp: published_def)
qed

lemma void_keeps: "keeps_bounds m \<Longrightarrow> keeps_bounds (void m)"
  by (auto simp: keeps_bounds_def void_def bindE_def retE_def split: prod.splits sum.splits) (metis snd_conv)+

lemma close_keeps: "keeps_bounds (ffi_close eng)"
  by (auto simp: keeps_bounds_def ffi_close_def bindE_def getE_def modifyE_def retE_def drop_connection_def set_observer_def split: option.splits)

lemma push_audio_keeps: "keeps_bounds (ffi_push_audio_frame eng name samples rate channels)"
  by (auto simp: keeps_bounds_def ffi_push_audio_frame_def bindE_def getE_def modifyE_def retE_def panicE_def update_engine_def
      split: option.splits LocalTrack.splits)

lemma observe_keeps: "keeps_bounds (modifyE (observe pc ev))"
  by (cases ev) (auto simp: keeps_bounds_def modifyE_def on_track_def send_event_def set_observer_def Let_def split_beta)

lemmas keeps = prepare_keeps [THEN void_keeps] close_keeps push_audio_keeps observe_keeps
  remote_only [THEN engine_only_keeps] direction_only [THEN engine_only_keeps] sends_only(2,3) [THEN engine_only_keeps]
  stats_only [THEN engine_only_keeps, THEN void_keeps] pushes_only [THEN engine_only_keeps]

lemma engineE_cases: "\<exists>e. engineE f t = (Inr (), t\<lparr>pt_engine := e\<rparr>) \<or> (\<exists>err. engineE f t = (Inl (Fail err), t\<lparr>pt_engine := e\<rparr>))"
  by (auto simp: engineE_def bindE_def on_engine_def liftE_def retE_def failE_def split: prod.split sum.split)

text \<open>Applying first and remembering after: a rejected bound leaves what was remembered.\<close>

lemma commit_connection_remembers:
  assumes "m = retE () \<or> (\<exists>f. m = engineE f)" and "commit_connection b m t = (r, t')"
  shows "bounds t' = (if r = Inr () then (b, snd (bounds t)) else bounds t) \<and> pt_per_track t' = pt_per_track t"
proof -
  have "\<exists>e. m t = (Inr (), t\<lparr>pt_engine := e\<rparr>) \<or> (\<exists>err. m t = (Inl (Fail err), t\<lparr>pt_engine := e\<rparr>))"
    using assms(1) engineE_cases engine_unchanged [of t] by (auto simp: retE_def)
  then obtain e where "m t = (Inr (), t\<lparr>pt_engine := e\<rparr>) \<or> (\<exists>err. m t = (Inl (Fail err), t\<lparr>pt_engine := e\<rparr>))" ..
  then show ?thesis using assms(2) by (elim disjE exE) (auto simp: commit_connection_def modifyE_def)
qed

lemma commit_track_remembers:
  assumes "m = retE () \<or> (\<exists>f. m = engineE f)" and "commit_track name b m t = (r, t')"
  shows "bounds t' = (if r = Inr () then (fst (bounds t), (snd (bounds t))(name \<mapsto> b)) else bounds t)
    \<and> (hm_ok (pt_per_track t) \<longrightarrow> hm_ok (pt_per_track t'))"
proof -
  have "\<exists>e. m t = (Inr (), t\<lparr>pt_engine := e\<rparr>) \<or> (\<exists>err. m t = (Inl (Fail err), t\<lparr>pt_engine := e\<rparr>))"
    using assms(1) engineE_cases engine_unchanged [of t] by (auto simp: retE_def)
  then obtain e where "m t = (Inr (), t\<lparr>pt_engine := e\<rparr>) \<or> (\<exists>err. m t = (Inl (Fail err), t\<lparr>pt_engine := e\<rparr>))" ..
  then show ?thesis using assms(2) by (elim disjE exE) (auto simp: commit_track_def modifyE_def)
qed

lemma remember_set:
  "remember b (Op_Bitrate lo start hi, r) =
     (if r = Inr () then (\<lparr> bb_min_bps = lo, bb_start_bps = start, bb_max_bps = hi \<rparr>, snd b) else b)"
  "remember b (Op_TrackBitrate name lo hi, r) =
     (if r = Inr () then (fst b, (snd b)(name \<mapsto> \<lparr> bb_min_bps = lo, bb_start_bps = None, bb_max_bps = hi \<rparr>)) else b)"
  by (simp_all add: remember_def)

lemma set_bitrate_remembers:
  assumes "ffi_set_bitrate eng lo start hi t = (r, t')"
  shows "bounds t' = remember (bounds t) (Op_Bitrate lo start hi, r) \<and> pt_per_track t' = pt_per_track t"
  unfolding remember_set
proof (rule commit_connection_remembers)
  let ?m = "case ps_pc (pt_state t) of Some pc \<Rightarrow> engineE (eng_set_bitrate eng pc lo start hi) | None \<Rightarrow> retE ()"
  show "?m = retE () \<or> (\<exists>f. ?m = engineE f)" by (auto split: option.split)
  show "commit_connection \<lparr> bb_min_bps = lo, bb_start_bps = start, bb_max_bps = hi \<rparr> ?m t = (r, t')"
    using assms by (simp add: ffi_set_bitrate_def bindE_def getE_def)
qed

lemma set_track_bitrate_remembers:
  assumes "ffi_set_track_bitrate eng name lo hi t = (r, t')"
  shows "bounds t' = remember (bounds t) (Op_TrackBitrate name lo hi, r) \<and> (hm_ok (pt_per_track t) \<longrightarrow> hm_ok (pt_per_track t'))"
proof -
  let ?s = "pt_state t" and ?b = "\<lparr> bb_min_bps = lo, bb_start_bps = None, bb_max_bps = hi \<rparr>"
  let ?m = "\<lambda>tc. engineE (eng_set_send_bitrate eng tc lo hi)"
  consider (none) "commit_track name ?b (retE ()) t = (r, t')"
    | (some) tc where "commit_track name ?b (?m tc) t = (r, t')"
    | (fails) "r \<noteq> Inr ()" "t' = t"
    using assms by (cases "position (\<lambda>n. n = name) (ps_track_names ?s)")
      (auto simp: ffi_set_track_bitrate_def bindE_def getE_def indexE_def retE_def failE_def panicE_def split: if_splits)
  then show ?thesis
  proof cases
    case none
    show ?thesis unfolding remember_set by (rule commit_track_remembers [OF _ none]) simp
  next
    case some
    show ?thesis unfolding remember_set by (rule commit_track_remembers [OF _ some]) blast
  qed (simp add: remember_set)
qed

lemma keepsD: "keeps_bounds m \<Longrightarrow> m t = (r, t') \<Longrightarrow> pt_connection t' = pt_connection t \<and> pt_per_track t' = pt_per_track t"
  by (metis keeps_bounds_def snd_conv)

lemma op_keeps:
  "keeps_bounds (do_op eng order op) \<and> (\<forall>b r. remember b (op, r) = b)
   \<or> (\<exists>lo start hi. op = Op_Bitrate lo start hi) \<or> (\<exists>name lo hi. op = Op_TrackBitrate name lo hi)"
  by (cases op) (simp_all add: keeps remember_def)

lemma op_remembers:
  assumes "do_op eng order op t = (r, t')"
  shows "bounds t' = remember (bounds t) (op, r) \<and> (hm_ok (pt_per_track t) \<longrightarrow> hm_ok (pt_per_track t'))"
proof -
  from op_keeps [of eng order op] consider
    "keeps_bounds (do_op eng order op)" "remember (bounds t) (op, r) = bounds t"
    | lo start hi where "op = Op_Bitrate lo start hi" | name lo hi where "op = Op_TrackBitrate name lo hi" by blast
  then show ?thesis
  proof cases
    case 1
    then show ?thesis using keepsD [of "do_op eng order op" t r t'] assms by simp
  next
    case 2
    with assms have "ffi_set_bitrate eng lo start hi t = (r, t')" by simp
    from set_bitrate_remembers [OF this] 2 show ?thesis by metis
  next
    case 3
    then show ?thesis using set_track_bitrate_remembers [of eng name lo hi t r t'] assms by simp
  qed
qed

lemma run_remembers:
  "peer_run eng order ops t = (h, t') \<Longrightarrow> hm_ok (pt_per_track t) \<Longrightarrow> bounds t' = foldl remember (bounds t) h \<and> hm_ok (pt_per_track t')"
proof (induction ops arbitrary: t h)
  case (Cons op ops)
  obtain r t1 where s: "do_op eng order op t = (r, t1)" by (cases "do_op eng order op t")
  obtain h' where h: "peer_run eng order ops t1 = (h', t')" "h = (op, r) # h'"
    using Cons.prems(1) s by (auto split: prod.splits)
  show ?case using Cons.IH [OF h(1)] op_remembers [OF s] h(2) Cons.prems(2) by simp
qed simp

text \<open>A connection the bounds were put on: each remembered one once, in some order.\<close>

definition bounds_applied ::
    "'e engine \<Rightarrow> BitrateBounds \<times> (string \<rightharpoonup> BitrateBounds) \<Rightarrow> handle \<Rightarrow> string list \<Rightarrow> handle list \<Rightarrow> 'e \<Rightarrow> 'e \<Rightarrow> bool" where
  "bounds_applied eng b pc names tcs e e' \<longleftrightarrow>
     (\<exists>nbs. distinct (map fst nbs) \<and> map_of nbs = snd b \<and> e' = bitrate_calls eng (fst b) nbs pc names tcs e)"

section \<open>The core's transport\<close>

text \<open>
  The transport as the core calls it, on a world that is the transport's own state. \<open>platform\<close> supplies the
  timers; \<open>suspend\<close> is what other tasks do while \<^verbatim>\<open>get_stats\<close> waits for its blocking thread. A method of
  the core's interface that cannot fail has no value for a panic, which never happens (\<open>transport_well_formed\<close>).
\<close>

definition on_world :: "('w, 'a) io \<Rightarrow> ('w reactor, 'a) io" where
  "on_world m = (\<lambda>r. case m (r_world r) of (x, w) \<Rightarrow> (x, r\<lparr>r_world := w\<rparr>))"

definition answered :: "('w, unit) io \<Rightarrow> 'w \<Rightarrow> (CoreError, unit) result \<times> 'w" where
  "answered m = (\<lambda>w. case m w of
     (Inr u, w') \<Rightarrow> (Inr u, w')
   | (Inl (Fail e), w') \<Rightarrow> (Inl e, w')
   | (Inl Panic, w') \<Rightarrow> (Inr (), w'))"

definition ffi_transport ::
    "'e engine \<Rightarrow> (string \<times> BitrateBounds) iter \<Rightarrow> ('e peer_transport reactor \<Rightarrow> 'e peer_transport reactor) \<Rightarrow>
       ('e peer_transport reactor, 'e peer_transport) transport \<Rightarrow> ('e peer_transport reactor, 'e peer_transport) transport" where
  "ffi_transport eng order suspend platform =
     \<lparr> peer_prepare = (\<lambda>ice ts. on_world (ffi_prepare eng order ice ts)),
       peer_set_remote_description = (\<lambda>answer. on_world (ffi_set_remote_description eng answer)),
       peer_set_track_direction = (\<lambda>name active. on_world (ffi_set_track_direction name active)),
       peer_set_bitrate = (\<lambda>lo start hi. on_world (ffi_set_bitrate eng lo start hi)),
       peer_set_track_bitrate = (\<lambda>name lo hi. on_world (ffi_set_track_bitrate eng name lo hi)),
       peer_get_stats = (\<lambda>r. case on_world (ffi_get_stats eng) r of (x, r') \<Rightarrow> (x, suspend r')),
       peer_close = on_world (ffi_close eng),
       race_sleep = race_sleep platform,
       peer_send_data = (\<lambda>payload binary. answered (ffi_send_data eng payload binary)),
       peer_send_control = (\<lambda>payload. answered (ffi_send_control eng payload)),
       peer_max_message_bytes = ffi_max_message_bytes eng,
       peer_data_channel_chunked = ffi_data_channel_chunked eng,
       peer_push_video_frame = (\<lambda>name data wd ht w. snd (ffi_push_video_frame eng name data wd ht w)),
       peer_push_video_frame_with_metadata = (\<lambda>name data wd ht ud w. snd (ffi_push_video_frame_with_metadata eng name data wd ht ud w)),
       peer_push_video_frame_with_metadata_at =
         (\<lambda>name data wd ht ud at_us w. snd (ffi_push_video_frame_with_metadata_at eng name data wd ht ud at_us w)),
       peer_push_audio_frame = (\<lambda>name samples rate channels w. snd (ffi_push_audio_frame eng name samples rate channels w)),
       monotonic_ms = monotonic_ms platform, platform_info = platform_info platform \<rparr>"

lemma on_world_beside: "beside r (snd (on_world m r))"
  by (simp add: on_world_def beside_def split: prod.split)

section \<open>An engine\<close>

text \<open>It numbers what it makes by kind, logs the bounds it is given and rejects a negative maximum.\<close>

type_synonym bitrate_log = "(handle \<times> i32 option \<times> i32 option \<times> i32 option) list"

definition logged :: "handle \<Rightarrow> i32 option \<Rightarrow> i32 option \<Rightarrow> i32 option \<Rightarrow> bitrate_log \<Rightarrow> (string, unit) result \<times> bitrate_log" where
  "logged h lo start hi e = (case hi of
     Some x \<Rightarrow> if x < 0 then (Inl ''rejected'', e) else (Inr (), e @ [(h, lo, start, hi)])
   | None \<Rightarrow> (Inr (), e @ [(h, lo, start, hi)]))"

definition sample_engine :: "bitrate_log engine" where
  "sample_engine = \<lparr> eng_create_peer_connection = (\<lambda>_ e. (Inr 1, e)), eng_add_transceiver = (\<lambda>_ _ _ e. (Inr 2, e)),
     eng_create_video_track = (\<lambda>_ e. (Inr 3, e)), eng_create_audio_track = (\<lambda>_ e. (Inr 4, e)),
     eng_set_track = (\<lambda>_ _ e. (Inr (), e)), eng_create_data_channel = (\<lambda>_ _ e. (Inr 5, e)),
     eng_create_offer = (\<lambda>_ e. (Inr ''offer'', e)), eng_set_local_description = (\<lambda>_ _ e. (Inr (), e)),
     eng_set_remote_description = (\<lambda>_ _ e. (Inr (), e)), eng_mid = (\<lambda>_ _. Some ''0''),
     eng_set_bitrate = logged, eng_set_send_bitrate = (\<lambda>h lo hi. logged h lo None hi),
     eng_dc_chunking = (\<lambda>_ _. None), eng_is_chunked = (\<lambda>_ _. False), eng_is_open = (\<lambda>_ _. True), eng_state_debug = (\<lambda>_ _. ''Open''),
     eng_send = (\<lambda>_ _ _ e. (Inr (), e)), eng_chunking_stats = (\<lambda>_ _. None),
     eng_get_stats = (\<lambda>_ e. (Inl ''none'', e)), eng_push_audio_frame = (\<lambda>_ _ _ e. e), eng_push_frame = (\<lambda>_ _ _ _ e. e),
     eng_push_frame_with_metadata = (\<lambda>_ _ _ _ _ e. e), eng_push_frame_with_metadata_at = (\<lambda>_ _ _ _ _ _ e. e),
     eng_drop = (\<lambda>_ e. e) \<rparr>"

section \<open>Properties\<close>


text \<open>
  C20: Bitrate bounds outlive the connection, and a rejected bound changes nothing. After any sequence of
  calls, with failures, reconnects and closes, a connection that is prepared gets exactly the bounds of
  the last accepted calls, each once, before it replaces the old one.
\<close>

theorem bitrate_bounds_survive:
  assumes "peer_run eng order ops (peer_transport_new frame_cb audio_cb e0) = (h, t)"
    and "ffi_prepare eng order ice ts t = (Inr p, t')"
  shows "\<exists>pc e e'. ps_pc (pt_state t') = Some pc \<and> length (ps_transceivers (pt_state t')) = length ts
    \<and> bounds_applied eng (foldl remember (BitrateBounds_default, Map.empty) h) pc (map tc_name ts) (ps_transceivers (pt_state t')) e e'
    \<and> pt_engine t' = (case ps_pc (pt_state t) of None \<Rightarrow> e' | Some old \<Rightarrow> eng_drop eng old e')"
proof -
  have "bounds t = foldl remember (BitrateBounds_default, Map.empty) h \<and> hm_ok (pt_per_track t)"
    using run_remembers [OF assms(1)] by (simp add: peer_transport_new_def hm_get_map_of)
  moreover have "bounds_applied eng (bounds t) pc names tcs e (bitrate_calls eng (pt_connection t) (iterate order (pt_per_track t)) pc names tcs e)"
    if "hm_ok (pt_per_track t)" for pc names tcs e
    unfolding bounds_applied_def using that
    by (intro exI [of _ "iterate order (pt_per_track t)"]) (simp add: distinct_keys_iterate map_of_iterate hm_get_map_of)
  ultimately show ?thesis using prepare_outcome [OF assms(2)]
    by (force simp: published_def split: option.splits)
qed

definition cam :: TrackCapability where
  "cam = \<lparr> tc_name = ''cam'', tc_kind = Video, tc_direction = Sendonly \<rparr>"

definition main_video :: TrackCapability where
  "main_video = \<lparr> tc_name = ''main'', tc_kind = Video, tc_direction = Recvonly \<rparr>"

lemmas sample_evals = sample_engine_def logged_def ffi_set_bitrate_def commit_connection_def ffi_prepare_def ffi_close_def build_connection_def
  dropping_def engineE_def on_engine_def bindE_def retE_def failE_def liftE_def getE_def modifyE_def whenE_def void_def peer_transport_new_def
  PeerState_default_def BitrateBounds_default_def set_observer_def observer_def name_received_def publish_def drop_connection_def
  create_local_def apply_bitrate_def try_engineE_def cam_def main_video_def received_names_def Observer_new_def map_entry_def
  hm_insert_def hm_get_def

text \<open>Bounds set before there is a connection, a rejected call, and a close: the next connection gets the first.\<close>

definition bound_calls :: "peer_op list" where
  "bound_calls = [Op_Bitrate None None (Some 5000), Op_Prepare [] [cam], Op_Bitrate None None (Some (- 1)), Op_Close]"

theorem bitrate_bounds_survive_witness:
  "\<exists>pc e e'. bounds_applied sample_engine (\<lparr> bb_min_bps = None, bb_start_bps = None, bb_max_bps = Some 5000 \<rparr>, Map.empty) pc [''cam''] [2] e e'
    \<and> e' = [(1, None, None, Some 5000), (1, None, None, Some 5000)]"
proof -
  let ?b = "\<lparr> bb_min_bps = None, bb_start_bps = None, bb_max_bps = Some 5000 \<rparr>"
  let ?t = "\<lparr> pt_state = PeerState_default, pt_connection = ?b, pt_per_track = [], pt_frame_cb = True, pt_audio_cb = True,
    pt_observers = [(1, Observer_new)], pt_events = [], pt_engine = [(1, None, None, Some 5000)] \<rparr>"
  have run: "peer_run sample_engine in_order bound_calls (peer_transport_new True True []) =
    ([(Op_Bitrate None None (Some 5000), Inr ()), (Op_Prepare [] [cam], Inr ()),
      (Op_Bitrate None None (Some (- 1)), Inl (Fail (peer_err ''rejected''))), (Op_Close, Inr ())], ?t)"
    by (simp add: bound_calls_def sample_evals)
  obtain p t' where p: "ffi_prepare sample_engine in_order [] [cam] ?t = (Inr p, t')" and t': "ps_transceivers (pt_state t') = [2]"
    "pt_engine t' = [(1, None, None, Some 5000), (1, None, None, Some 5000)]"
    by (simp add: sample_evals)
  from bitrate_bounds_survive [OF run p] obtain pc e e' where "bounds_applied sample_engine (?b, Map.empty) pc [''cam''] [2] e e'"
    "pt_engine t' = e'"
    by (auto simp: remember_def t' PeerState_default_def) (simp add: cam_def)
  then show ?thesis using t'(2) by blast
qed

text \<open>
  The core is told of every remote track under the name and mid it was negotiated with. The mapping of
  a prepared offer lists the tracks as they were asked for; the k-th remote track the engine announces is
  reported as the k-th recvonly one of the mapping and any further one without a name; every other event
  of the engine is passed on, in order; and a frame of a video track reaches the host under that name.
\<close>

theorem remote_tracks_named:
  assumes "ffi_prepare eng order ice ts t = (Inr p, t')" and "ps_pc (pt_state t') = Some pc"
    and "length (filter is_track evs) < 2 ^ 64"
  defines "t2 \<equiv> fold (observe pc) evs t'"
    and "tracks_seen \<equiv> track_names (received_names (po_track_mapping p)) evs"
  shows "map (\<lambda>m. (tm_name m, tm_kind m, tm_direction m)) (po_track_mapping p) = map (\<lambda>t. (tc_name t, tc_kind t, tc_direction t)) ts
    \<and> pt_events t2 = pt_events t @ reported (received_names (po_track_mapping p)) evs
    \<and> (pt_frame_cb t \<longrightarrow> distinct (map fst tracks_seen) \<longrightarrow> (\<forall>v name f. (RT_Video v, name) \<in> set tracks_seen \<longrightarrow>
         (\<exists>rest. frame_call pc (RT_Video v) f t2 = Some (name, vf_pixels f, vf_width f, vf_height f, rest))))"
proof -
  from prepare_outcome [OF assms(1)] obtain tcs e where m: "length tcs = length ts" "po_track_mapping p = map (map_entry eng e) (zip ts tcs)"
    and o: "observer pc t' = Observer_new\<lparr>ob_name_mids := received_names (po_track_mapping p)\<rparr>" "pt_events t' = pt_events t"
      "pt_frame_cb t' = pt_frame_cb t"
    using assms(2) by (fastforce simp: published_def observer_def)
  have left: "names_left (observer pc t') = received_names (po_track_mapping p)" and idx: "ob_track_idx (observer pc t') = 0"
    and none: "video_sinks (observer pc t') = []"
    by (simp_all add: o names_left_def Observer_new_def video_sinks_def)
  have "unat (ob_track_idx (observer pc t')) + length (filter is_track evs) < 2 ^ 64" using assms(3) by (simp add: idx)
  note ob = observed [OF this, unfolded left none]
  have map: "map (\<lambda>m. (tm_name m, tm_kind m, tm_direction m)) (po_track_mapping p) = map (\<lambda>t. (tc_name t, tc_kind t, tc_direction t)) ts"
  proof -
    have "map (\<lambda>m. (tm_name m, tm_kind m, tm_direction m)) (po_track_mapping p) = map (\<lambda>t. (tc_name t, tc_kind t, tc_direction t)) (map fst (zip ts tcs))"
      by (simp add: m(2) map_entry_def)
    then show ?thesis using m(1) by simp
  qed
  have "\<exists>rest. frame_call pc (RT_Video v) f t2 = Some (name, vf_pixels f, vf_width f, vf_height f, rest)"
    if "pt_frame_cb t" and d: "distinct (map fst tracks_seen)" and s: "(RT_Video v, name) \<in> set tracks_seen" for v name f
  proof -
    have vs: "set (video_sinks (observer pc t2)) = {x \<in> set tracks_seen. \<exists>v. fst x = RT_Video v}"
      using ob that(1) o(3) by (simp add: t2_def tracks_seen_def)
    have "(RT_Video v, n) \<in> set (ob_sinks (observer pc t2)) \<longleftrightarrow> n = name" for n
    proof -
      have "(RT_Video v, n) \<in> set (ob_sinks (observer pc t2)) \<longleftrightarrow> (RT_Video v, n) \<in> set (video_sinks (observer pc t2))"
        by (simp add: video_sinks_def)
      then show ?thesis using vs s eq_key_imp_eq_value [OF d] by auto
    qed
    then have "map_of (ob_sinks (observer pc t2)) (RT_Video v) = Some name"
      by (metis map_of_SomeD weak_map_of_SomeI)
    then show ?thesis by (cases "vf_metadata f") (simp_all add: frame_call_def)
  qed
  then show ?thesis using map ob o by (simp add: t2_def tracks_seen_def)
qed

theorem remote_tracks_named_witness:
  "\<exists>t t2. ffi_prepare sample_engine in_order [] [cam, main_video] (peer_transport_new True True []) = (Inr \<lparr> po_sdp_offer = ''offer'',
       po_track_mapping = [map_entry sample_engine [] (cam, 2), map_entry sample_engine [] (main_video, 2)] \<rparr>, t)
     \<and> t2 = fold (observe 1) [E_DataOpen, E_Track (RT_Video 9), E_Track (RT_Audio 8)] t
     \<and> pt_events t2 = [DataChannelOpen, PE_TrackReceived (Some ''main'') (Some ''0''), PE_TrackReceived None None]
     \<and> (\<exists>rest. frame_call 1 (RT_Video 9) \<lparr> vf_pixels = [1], vf_width = 1, vf_height = 1, vf_metadata = None \<rparr> t2 = Some (''main'', [1], 1, 1, rest))"
proof -
  let ?p = "\<lparr> po_sdp_offer = ''offer'', po_track_mapping = [map_entry sample_engine [] (cam, 2), map_entry sample_engine [] (main_video, 2)] \<rparr>"
  let ?evs = "[E_DataOpen, E_Track (RT_Video 9), E_Track (RT_Audio 8)]"
  obtain t where p: "ffi_prepare sample_engine in_order [] [cam, main_video] (peer_transport_new True True []) = (Inr ?p, t)"
    and pc: "ps_pc (pt_state t) = Some 1"
    by (simp add: sample_evals)
  have names: "received_names (po_track_mapping ?p) = [(''main'', Some ''0'')]" by (simp add: sample_evals)
  have cb: "pt_frame_cb (peer_transport_new True True [] :: bitrate_log peer_transport)" and ev: "pt_events (peer_transport_new True True [] :: bitrate_log peer_transport) = []"
    by (simp_all add: peer_transport_new_def)
  have n: "length (filter is_track ?evs) < 2 ^ 64" by simp
  let ?t2 = "fold (observe 1) ?evs t"
  from remote_tracks_named [OF p pc n] have
    "pt_events ?t2 = [] @ reported [(''main'', Some ''0'')] ?evs"
    "distinct (map fst (track_names [(''main'', Some ''0'')] ?evs)) \<Longrightarrow> (RT_Video 9, ''main'') \<in> set (track_names [(''main'', Some ''0'')] ?evs) \<Longrightarrow>
      \<exists>rest. frame_call 1 (RT_Video 9) f ?t2 = Some (''main'', vf_pixels f, vf_width f, vf_height f, rest)" for f
    unfolding names ev using cb by blast+
  from this(1) this(2) [of "\<lparr> vf_pixels = [1], vf_width = 1, vf_height = 1, vf_metadata = None \<rparr>"] show ?thesis using p
    by (intro exI [of _ t] exI [of _ ?t2]) simp
qed



text \<open>Timers that let the peer come up, an engine that reports nothing while they run.\<close>

definition sample_platform :: "('w reactor, 'w) transport" where
  "sample_platform = \<lparr> peer_prepare = (\<lambda>_ _. panicE), peer_set_remote_description = (\<lambda>_. panicE), peer_set_track_direction = (\<lambda>_ _. panicE),
     peer_set_bitrate = (\<lambda>_ _ _. panicE), peer_set_track_bitrate = (\<lambda>_ _ _. panicE), peer_get_stats = panicE, peer_close = panicE,
     race_sleep = (\<lambda>_. peer_up), peer_send_data = (\<lambda>_ _ w. (Inr (), w)), peer_send_control = (\<lambda>_ w. (Inr (), w)),
     peer_max_message_bytes = (\<lambda>_. 0), peer_data_channel_chunked = (\<lambda>_. False), peer_push_video_frame = (\<lambda>_ _ _ _ w. w),
     peer_push_video_frame_with_metadata = (\<lambda>_ _ _ _ _ w. w), peer_push_video_frame_with_metadata_at = (\<lambda>_ _ _ _ _ _ w. w),
     peer_push_audio_frame = (\<lambda>_ _ _ _ w. w), monotonic_ms = (\<lambda>w. (Fin 0, w)),
     platform_info = \<lparr> pi_os = [], pi_os_version = [], pi_arch = [], pi_device_model = [] \<rparr> \<rparr>"

definition sample_env :: "bitrate_log peer_transport env" where
  "sample_env = Reactor_env \<lparr> e_host = quick_host, e_peer = sample_platform, e_codec = quick_codec, e_wire = sample_wire,
     e_show_tracks = (\<lambda>_. []), e_debug_payload = (\<lambda>_. []), e_debug_str = (\<lambda>x. x),
     e_control_order = in_order, e_data_order = in_order, e_options = ReactorOptions_new ''0'' ''http://host'' ''m'',
     e_coordinator = coordinator_config (ReactorOptions_new ''0'' ''http://host'' ''m''), e_frame_decoders = [] \<rparr>"


end
