(* ===== verification/Ffi_Step.thy ===== *)
theory Ffi_Step
  imports Step_Frames
begin

text \<open>
  A step across the C boundary (\<^verbatim>\<open>reactor-ffi/src/step.rs\<close>): parsing the state and the commands the host
  hands in, and the result it reads back through accessors. A JSON parser is third-party code and a
  parameter. A C string is its bytes, none of them a NUL; a pointer into the result is \<^const>\<open>None\<close> when
  null and what it points to otherwise; an out-parameter that is not null is the flag \<open>want\<close>.
\<close>

section \<open>What the host hands in\<close>

definition parse_state :: "(string \<Rightarrow> (string, json) result) \<Rightarrow> string option \<Rightarrow> (CoreError, json) result" where
  "parse_state from_str state_json = (case state_json of
     None \<Rightarrow> Inr JNull
   | Some raw \<Rightarrow> (case from_str raw of
        Inl e \<Rightarrow> Inl (Decode (''state_json is not valid JSON: '' @ e))
      | Inr v \<Rightarrow> Inr v))"

definition dquoted :: "string \<Rightarrow> string" where
  "dquoted s = [CHR 0x22] @ s @ [CHR 0x22]"

definition nth_command :: "nat \<Rightarrow> string" where
  "nth_command i = ''commands_json['' @ show_nat i @ '']''"

definition parse_command :: "nat \<Rightarrow> json \<Rightarrow> (CoreError, StepCommand) result" where
  "parse_command i entry = (case entry of
     JObject members \<Rightarrow>
       (case hm_get members ''command'' of
          Some (JString name) \<Rightarrow>
            if name \<noteq> [] then
              (let members = hm_remove ''command'' members;
                   data = (case hm_get members ''data'' of Some d \<Rightarrow> d | None \<Rightarrow> JNull);
                   members = hm_remove ''data'' members
               in case members of
                    (key, _) # _ \<Rightarrow> Inl (Decode (nth_command i @ '' has an unknown key '' @ dquoted key @ '' (expected ''
                      @ dquoted ''command'' @ '' and '' @ dquoted ''data'' @ '')''))
                  | [] \<Rightarrow> Inr \<lparr> sc_command = name, sc_data = data \<rparr>)
            else Inl (Decode (nth_command i @ '' needs a non-empty string '' @ dquoted ''command''))
        | _ \<Rightarrow> Inl (Decode (nth_command i @ '' needs a non-empty string '' @ dquoted ''command'')))
   | _ \<Rightarrow> Inl (Decode (nth_command i @ '' must be an object of {'' @ dquoted ''command'' @ '', '' @ dquoted ''data'' @ ''}'')))"

definition parse_commands ::
    "(string \<Rightarrow> (string, json) result) \<Rightarrow> string option \<Rightarrow> (CoreError, StepCommand list) result" where
  "parse_commands from_str commands_json = (case commands_json of
     None \<Rightarrow> Inr []
   | Some raw \<Rightarrow> (case from_str raw of
        Inl e \<Rightarrow> Inl (Decode (''commands_json is not valid JSON: '' @ e))
      | Inr (JArray entries) \<Rightarrow> collect_results (map (\<lambda>(i, entry). parse_command i entry) (enumerate 0 entries))
      | Inr _ \<Rightarrow> Inl (Decode (''commands_json must be a JSON array of {'' @ dquoted ''command'' @ '', '' @ dquoted ''data''
           @ ''} objects''))))"

section \<open>The result the host reads\<close>

definition c_string :: "string \<Rightarrow> string" where
  "c_string text = (if CHR 0x00 \<notin> set text then text else filter (\<lambda>b. b \<noteq> CHR 0x00) text)"

fun kind_str :: "TrackKind \<Rightarrow> string" where
  "kind_str Video = ''video''"
| "kind_str Audio = ''audio''"

text \<open>A decoder sets one of the three encodings of the wire; \<open>h264\<close> is the number of the second.\<close>

definition encoding_str :: "wire \<Rightarrow> int \<Rightarrow> int \<Rightarrow> string" where
  "encoding_str w h264 encoding =
     (if encoding = encoding_raw w then ''raw'' else if encoding = h264 then ''h264'' else ''unspecified'')"

record StepFrame =
  fs_encoding :: string
  fs_dtype :: string
  fs_shape :: "u32 list"
  fs_data :: bytes
  fs_metadata :: "bytes option"
  fs_capture_time_us :: "int option"

record StepTrack =
  str_name :: string
  str_kind :: string
  str_rate :: f64
  str_frames :: "StepFrame list"

record StepFileEntry =
  sfe_name :: string
  sfe_content_type :: string
  sfe_size :: u64

record ReactorStepResult =
  rsr_step :: u64
  rsr_tracks :: "StepTrack list"
  rsr_elapsed :: f64
  rsr_files :: "StepFileEntry list"
  rsr_error :: "string option"

definition StepFrame_from :: "wire \<Rightarrow> int \<Rightarrow> DecodedFrame \<Rightarrow> StepFrame" where
  "StepFrame_from w h264 frame = \<lparr> fs_encoding = encoding_str w h264 (df_encoding frame), fs_dtype = c_string (df_dtype frame),
     fs_shape = df_shape frame, fs_data = df_data frame, fs_metadata = df_metadata frame,
     fs_capture_time_us = df_capture_time_us frame \<rparr>"

definition StepFileEntry_from :: "StepFile \<Rightarrow> StepFileEntry" where
  "StepFileEntry_from sfile = \<lparr> sfe_name = c_string (sf_name sfile), sfe_content_type = c_string (sf_content_type sfile),
     sfe_size = sf_size sfile \<rparr>"

definition ReactorStepResult_from :: "wire \<Rightarrow> int \<Rightarrow> StepOutput \<Rightarrow> ReactorStepResult" where
  "ReactorStepResult_from w h264 output =
     \<lparr> rsr_step = so_step output,
       rsr_tracks = map (\<lambda>t. \<lparr> str_name = c_string (to_track t), str_kind = kind_str (to_kind t), str_rate = to_rate t,
                              str_frames = map (StepFrame_from w h264) (to_frames t) \<rparr>) (so_tracks output),
       rsr_elapsed = so_elapsed output, rsr_files = map StepFileEntry_from (so_files output),
       rsr_error = map_option c_string (so_error output) \<rparr>"

definition nth_option :: "'a list \<Rightarrow> u32 \<Rightarrow> 'a option" where
  "nth_option xs i = (if unat i < length xs then Some (xs ! unat i) else None)"

definition result_track :: "ReactorStepResult \<Rightarrow> u32 \<Rightarrow> StepTrack option" where
  "result_track r track = nth_option (rsr_tracks r) track"

definition result_frame :: "ReactorStepResult \<Rightarrow> u32 \<Rightarrow> u32 \<Rightarrow> StepFrame option" where
  "result_frame r track frame = Option.bind (result_track r track) (\<lambda>t. nth_option (str_frames t) frame)"

definition result_file :: "ReactorStepResult \<Rightarrow> u32 \<Rightarrow> StepFileEntry option" where
  "result_file r i = nth_option (rsr_files r) i"

section \<open>Accessors\<close>

definition map_or :: "'b \<Rightarrow> ('a \<Rightarrow> 'b) \<Rightarrow> 'a option \<Rightarrow> 'b" where
  "map_or d f x = (case x of None \<Rightarrow> d | Some a \<Rightarrow> f a)"

type_synonym result_ptr = "ReactorStepResult option"

definition reactor_step_result_step :: "result_ptr \<Rightarrow> u64" where
  "reactor_step_result_step result = map_or 0 rsr_step result"

definition reactor_step_result_elapsed :: "result_ptr \<Rightarrow> f64" where
  "reactor_step_result_elapsed result = map_or (Fin 0) rsr_elapsed result"

definition reactor_step_result_error :: "result_ptr \<Rightarrow> string option" where
  "reactor_step_result_error result = Option.bind result rsr_error"

definition reactor_step_result_file_count :: "result_ptr \<Rightarrow> u32" where
  "reactor_step_result_file_count result = map_or 0 (\<lambda>r. of_nat (length (rsr_files r))) result"

definition reactor_step_result_file_name :: "result_ptr \<Rightarrow> u32 \<Rightarrow> string option" where
  "reactor_step_result_file_name result i = map_option sfe_name (Option.bind result (\<lambda>r. result_file r i))"

definition reactor_step_result_file_content_type :: "result_ptr \<Rightarrow> u32 \<Rightarrow> string option" where
  "reactor_step_result_file_content_type result i = map_option sfe_content_type (Option.bind result (\<lambda>r. result_file r i))"

definition reactor_step_result_file_size :: "result_ptr \<Rightarrow> u32 \<Rightarrow> u64" where
  "reactor_step_result_file_size result i = map_or 0 sfe_size (Option.bind result (\<lambda>r. result_file r i))"

definition reactor_step_result_track_count :: "result_ptr \<Rightarrow> u32" where
  "reactor_step_result_track_count result = map_or 0 (\<lambda>r. of_nat (length (rsr_tracks r))) result"

definition reactor_step_result_track_name :: "result_ptr \<Rightarrow> u32 \<Rightarrow> string option" where
  "reactor_step_result_track_name result track = map_option str_name (Option.bind result (\<lambda>r. result_track r track))"

definition reactor_step_result_track_kind :: "result_ptr \<Rightarrow> u32 \<Rightarrow> string option" where
  "reactor_step_result_track_kind result track = map_option str_kind (Option.bind result (\<lambda>r. result_track r track))"

definition reactor_step_result_track_rate :: "result_ptr \<Rightarrow> u32 \<Rightarrow> f64" where
  "reactor_step_result_track_rate result track = map_or (Fin 0) str_rate (Option.bind result (\<lambda>r. result_track r track))"

definition reactor_step_result_frame_count :: "result_ptr \<Rightarrow> u32 \<Rightarrow> u32" where
  "reactor_step_result_frame_count result track =
     map_or 0 (\<lambda>t. of_nat (length (str_frames t))) (Option.bind result (\<lambda>r. result_track r track))"

definition found_frame :: "result_ptr \<Rightarrow> u32 \<Rightarrow> u32 \<Rightarrow> StepFrame option" where
  "found_frame result track frame = Option.bind result (\<lambda>r. result_frame r track frame)"

definition reactor_step_result_frame_encoding :: "result_ptr \<Rightarrow> u32 \<Rightarrow> u32 \<Rightarrow> string option" where
  "reactor_step_result_frame_encoding result track frame = map_option fs_encoding (found_frame result track frame)"

definition reactor_step_result_frame_dtype :: "result_ptr \<Rightarrow> u32 \<Rightarrow> u32 \<Rightarrow> string option" where
  "reactor_step_result_frame_dtype result track frame = map_option fs_dtype (found_frame result track frame)"

definition reactor_step_result_frame_shape :: "result_ptr \<Rightarrow> u32 \<Rightarrow> u32 \<Rightarrow> bool \<Rightarrow> u32 list option \<times> u32 option" where
  "reactor_step_result_frame_shape result track frame want =
     (let found = found_frame result track frame
      in (map_option fs_shape found, if want then Some (map_or 0 (\<lambda>f. of_nat (length (fs_shape f))) found) else None))"

definition reactor_step_result_frame_data :: "result_ptr \<Rightarrow> u32 \<Rightarrow> u32 \<Rightarrow> bool \<Rightarrow> bytes option \<times> nat option" where
  "reactor_step_result_frame_data result track frame want =
     (let found = found_frame result track frame
      in (map_option fs_data found, if want then Some (map_or 0 (\<lambda>f. length (fs_data f)) found) else None))"

definition reactor_step_result_frame_metadata :: "result_ptr \<Rightarrow> u32 \<Rightarrow> u32 \<Rightarrow> bool \<Rightarrow> bytes option \<times> nat option" where
  "reactor_step_result_frame_metadata result track frame want =
     (let metadata = Option.bind (found_frame result track frame) fs_metadata
      in (metadata, if want then Some (map_or 0 length metadata) else None))"

definition reactor_step_result_frame_capture_time_us :: "result_ptr \<Rightarrow> u32 \<Rightarrow> u32 \<Rightarrow> bool \<Rightarrow> int option \<times> int" where
  "reactor_step_result_frame_capture_time_us result track frame want =
     (case Option.bind (found_frame result track frame) fs_capture_time_us of
        Some t \<Rightarrow> if want then (Some t, 1) else (None, 0)
      | None \<Rightarrow> (None, 0))"

section \<open>Specifications\<close>

text \<open>A command as the host has to write it.\<close>

definition command_entry :: "json \<Rightarrow> StepCommand \<Rightarrow> bool" where
  "command_entry entry c \<longleftrightarrow> (\<exists>members. entry = JObject members \<and> fst ` set members \<subseteq> {''command'', ''data''}
     \<and> hm_get members ''command'' = Some (JString (sc_command c)) \<and> sc_command c \<noteq> []
     \<and> sc_data c = (case hm_get members ''data'' of Some d \<Rightarrow> d | None \<Rightarrow> JNull))"

text \<open>A host that reads everything there is to read, by the counts it is given.\<close>

definition indices :: "u32 \<Rightarrow> u32 list" where
  "indices n = map of_nat [0..<unat n]"

definition read_frame where
  "read_frame result t f =
     (reactor_step_result_frame_encoding result t f, reactor_step_result_frame_dtype result t f,
      reactor_step_result_frame_shape result t f True, reactor_step_result_frame_data result t f True,
      reactor_step_result_frame_metadata result t f True, reactor_step_result_frame_capture_time_us result t f True)"

definition read_track where
  "read_track result t =
     (reactor_step_result_track_name result t, reactor_step_result_track_kind result t, reactor_step_result_track_rate result t,
      map (read_frame result t) (indices (reactor_step_result_frame_count result t)))"

definition read_file where
  "read_file result i = (reactor_step_result_file_name result i, reactor_step_result_file_content_type result i,
     reactor_step_result_file_size result i)"

definition shown_frame where
  "shown_frame w h264 f =
     (Some (encoding_str w h264 (df_encoding f)), Some (c_string (df_dtype f)),
      (Some (df_shape f), Some (of_nat (length (df_shape f)) :: u32)), (Some (df_data f), Some (length (df_data f))),
      (df_metadata f, Some (map_or 0 length (df_metadata f))),
      (df_capture_time_us f, if df_capture_time_us f = None then 0 else 1 :: int))"

definition shown_track where
  "shown_track w h264 t = (Some (c_string (to_track t)), Some (kind_str (to_kind t)), to_rate t, map (shown_frame w h264) (to_frames t))"

definition shown_file where
  "shown_file x = (Some (c_string (sf_name x)), Some (c_string (sf_content_type x)), sf_size x)"

lemma unat_of_index: "i < n \<Longrightarrow> n < 2 ^ 32 \<Longrightarrow> unat (of_nat i :: u32) = i"
  by (simp add: unsigned_of_nat take_bit_nat_eq_self)

lemma map_indices:
  assumes "length xs < 2 ^ 32" and "\<And>i. i < length xs \<Longrightarrow> f (of_nat i) = g (xs ! i)"
  shows "map f (indices (of_nat (length xs))) = map g xs"
proof -
  have "unat (of_nat (length xs) :: u32) = length xs" using assms(1) by (simp add: unsigned_of_nat take_bit_nat_eq_self)
  then show ?thesis unfolding indices_def using assms(2) by (intro nth_equalityI) auto
qed

lemma nth_option_of_nat: "i < length xs \<Longrightarrow> length xs < 2 ^ 32 \<Longrightarrow> nth_option xs (of_nat i) = Some (xs ! i)"
  by (simp add: nth_option_def unat_of_index)

lemma collect_results_Inr: "collect_results rs = Inr xs \<longleftrightarrow> rs = map Inr xs"
proof (induction rs arbitrary: xs)
  case (Cons r rs)
  show ?case
  proof (cases r)
    case (Inr x)
    show ?thesis
    proof (cases "collect_results rs")
      case (Inl e)
      then have "rs \<noteq> map Inr ys" for ys using Cons.IH [of ys] by simp
      then show ?thesis using Inl Inr by (cases xs) simp_all
    next
      case (Inr ys)
      then have "rs = map Inr zs \<longleftrightarrow> ys = zs" for zs using Cons.IH [of zs] by simp
      then show ?thesis using Inr \<open>r = Inr x\<close> by (cases xs) simp_all
    qed
  qed (cases xs, simp_all)
qed auto

lemma hm_remove_empty: "hm_remove a (hm_remove b m) = [] \<longleftrightarrow> fst ` set m \<subseteq> {a, b}"
  by (auto simp: hm_remove_def filter_empty_conv)

lemma command_fields:
  "(case hm_remove ''data'' (hm_remove ''command'' m) of (k, _) # _ \<Rightarrow> Inl (e k) | [] \<Rightarrow> Inr v) = Inr c
     \<longleftrightarrow> fst ` set m \<subseteq> {''command'', ''data''} \<and> v = c"
  using hm_remove_empty [of "''data''" "''command''" m] by (auto split: list.splits)

lemma parse_command_iff: "parse_command i entry = Inr c \<longleftrightarrow> command_entry entry c"
proof (cases entry)
  case (JObject m)
  show ?thesis
  proof (cases "hm_get m ''command''")
    case (Some v)
    then show ?thesis using JObject
      by (cases v; cases c) (auto simp: parse_command_def command_entry_def Let_def command_fields)
  qed (simp add: parse_command_def command_entry_def JObject)
qed (simp_all add: parse_command_def command_entry_def)

section \<open>Properties\<close>

text \<open>
  The commands of a step are parsed in order, or not at all: the parse succeeds exactly when the
  JSON is absent or an array of objects with a non-empty string as command, optional data and no other
  key, and gives one command per object with the data it names.
\<close>

theorem parse_commands_spec:
  "parse_commands from_str commands_json = Inr cs \<longleftrightarrow>
     (case commands_json of
        None \<Rightarrow> cs = []
      | Some raw \<Rightarrow> \<exists>entries. from_str raw = Inr (JArray entries) \<and> list_all2 command_entry entries cs)"
proof -
  have "collect_results (map (\<lambda>(i, entry). parse_command i entry) (enumerate k entries)) = Inr cs \<longleftrightarrow> list_all2 command_entry entries cs" for k entries
    unfolding collect_results_Inr by (auto simp: list_all2_conv_all_nth list_eq_iff_nth_eq nth_enumerate_eq parse_command_iff)
  then show ?thesis by (auto simp: parse_commands_def split: option.splits sum.splits json.splits)
qed

text \<open>
  C29: A host that reads a step result by its accessors gets the whole output, in order: every file,
  track and frame with the bytes, shape, metadata and capture time it was decoded with, and strings
  without their NULs.
\<close>

theorem step_result_read_back:
  fixes out :: StepOutput and w :: wire and h264 :: int
  assumes "length (so_files out) < 2 ^ 32" and "length (so_tracks out) < 2 ^ 32"
    and "\<And>t. t \<in> set (so_tracks out) \<Longrightarrow> length (to_frames t) < 2 ^ 32"
  defines "r \<equiv> Some (ReactorStepResult_from w h264 out)"
  shows "reactor_step_result_step r = so_step out \<and> reactor_step_result_elapsed r = so_elapsed out
    \<and> reactor_step_result_error r = map_option c_string (so_error out)
    \<and> map (read_file r) (indices (reactor_step_result_file_count r)) = map shown_file (so_files out)
    \<and> map (read_track r) (indices (reactor_step_result_track_count r)) = map (shown_track w h264) (so_tracks out)"
proof -
  have files: "map (read_file r) (indices (reactor_step_result_file_count r)) = map shown_file (so_files out)"
  proof -
    have "read_file r (of_nat i) = shown_file (so_files out ! i)" if "i < length (so_files out)" for i
      using that assms(1) by (simp add: read_file_def shown_file_def r_def ReactorStepResult_from_def StepFileEntry_from_def
          reactor_step_result_file_name_def reactor_step_result_file_content_type_def reactor_step_result_file_size_def
          result_file_def nth_option_of_nat map_or_def)
    then have "map (read_file r) (indices (of_nat (length (so_files out)))) = map shown_file (so_files out)"
      by (rule map_indices [OF assms(1)])
    then show ?thesis by (simp add: r_def reactor_step_result_file_count_def map_or_def ReactorStepResult_from_def)
  qed
  have tracks: "read_track r (of_nat i) = shown_track w h264 (so_tracks out ! i)" if i: "i < length (so_tracks out)" for i
  proof -
    let ?t = "so_tracks out ! i"
    have n: "length (to_frames ?t) < 2 ^ 32" using assms(3) i by simp
    have track: "result_track (ReactorStepResult_from w h264 out) (of_nat i) = Some \<lparr> str_name = c_string (to_track ?t),
        str_kind = kind_str (to_kind ?t), str_rate = to_rate ?t, str_frames = map (StepFrame_from w h264) (to_frames ?t) \<rparr>"
      using i assms(2) by (simp add: result_track_def ReactorStepResult_from_def nth_option_of_nat)
    have "found_frame r (of_nat i) (of_nat j) = Some (StepFrame_from w h264 (to_frames ?t ! j))" if "j < length (to_frames ?t)" for j
      using that n track by (simp add: found_frame_def result_frame_def r_def nth_option_of_nat)
    then have "read_frame r (of_nat i) (of_nat j) = shown_frame w h264 (to_frames ?t ! j)" if "j < length (to_frames ?t)" for j
      using that by (auto simp: read_frame_def shown_frame_def StepFrame_from_def map_or_def Let_def
          reactor_step_result_frame_encoding_def reactor_step_result_frame_dtype_def reactor_step_result_frame_shape_def
          reactor_step_result_frame_data_def reactor_step_result_frame_metadata_def
          reactor_step_result_frame_capture_time_us_def split: option.splits)
    then have "map (read_frame r (of_nat i)) (indices (of_nat (length (to_frames ?t)))) = map (shown_frame w h264) (to_frames ?t)"
      by (rule map_indices [OF n])
    then show ?thesis
      using track by (simp add: read_track_def shown_track_def r_def map_or_def reactor_step_result_track_name_def
          reactor_step_result_track_kind_def reactor_step_result_track_rate_def reactor_step_result_frame_count_def)
  qed
  have "map (read_track r) (indices (reactor_step_result_track_count r)) = map (shown_track w h264) (so_tracks out)"
  proof -
    have "map (read_track r) (indices (of_nat (length (so_tracks out)))) = map (shown_track w h264) (so_tracks out)"
      using tracks by (rule map_indices [OF assms(2)])
    then show ?thesis by (simp add: r_def reactor_step_result_track_count_def map_or_def ReactorStepResult_from_def)
  qed
  then show ?thesis using files
    by (simp add: r_def reactor_step_result_step_def reactor_step_result_elapsed_def reactor_step_result_error_def
        ReactorStepResult_from_def map_or_def)
qed

definition sample_output :: StepOutput where
  "sample_output = \<lparr> so_step = 3,
     so_tracks = [\<lparr> to_track = ''main'', to_kind = Video, to_frames = [\<lparr> df_encoding = 1, df_dtype = ''uint8'', df_shape = [1, 2, 3],
       df_data = [7, 7, 7, 7, 7, 7], df_metadata = Some [1], df_capture_time_us = Some 42 \<rparr>], to_rate = Fin 24 \<rparr>],
     so_elapsed = Fin 1, so_files = [\<lparr> sf_name = ''d.npy'', sf_content_type = ''a/o'', sf_size = 4096 \<rparr>], so_error = Some (''no'' @ [CHR 0x00] @ ''pe'') \<rparr>"

theorem step_result_read_back_witness:
  "map (read_file (Some (ReactorStepResult_from sample_wire 2 sample_output))) [0] = [(Some ''d.npy'', Some ''a/o'', 4096)]
   \<and> reactor_step_result_error (Some (ReactorStepResult_from sample_wire 2 sample_output)) = Some ''nope''"
proof -
  let ?r = "Some (ReactorStepResult_from sample_wire 2 sample_output)"
  have "indices (reactor_step_result_file_count ?r) = [0]" and "c_string (''no'' @ [CHR 0x00] @ ''pe'') = ''nope''"
    and "map shown_file (so_files sample_output) = [(Some ''d.npy'', Some ''a/o'', 4096)]" by code_simp+
  moreover have "length (so_files sample_output) < 2 ^ 32" "length (so_tracks sample_output) < 2 ^ 32"
    "\<And>t. t \<in> set (so_tracks sample_output) \<Longrightarrow> length (to_frames t) < 2 ^ 32" by (auto simp: sample_output_def)
  ultimately show ?thesis
    using step_result_read_back [of sample_output sample_wire 2] by (auto simp: sample_output_def)
qed

end
