(* ===== verification/Ffi_Config.thy ===== *)
theory Ffi_Config
  imports Ffi_Step Ffi_Peer Reactor_State
begin

text \<open>
  What crosses the C boundary of \<^verbatim>\<open>reactor-ffi/src/lib.rs\<close> by value: the options a client is created
  with (\<^verbatim>\<open>CreateConfig\<close>), the numbers the host writes for a bound or a wait, and the pixels and samples
  it lends for a push. A C string is its bytes and \<^const>\<open>None\<close> when null. \<open>from_str\<close> is the third-party
  JSON parser, and \<open>refusal\<close> the message serde gives for a document it does not read as the record.
  A derived deserializer takes the members of an object one after the other, each into its field.
\<close>

section \<open>Numbers\<close>

definition readiness_timeout :: "f64 \<Rightarrow> (CoreError, duration option) result" where
  "readiness_timeout seconds =
     (if seconds = NaN then Inl (InvalidState (''download_clip'' @ [CHR 0x27] @ ''s ready_timeout_seconds is not a number''))
      else if f64_lt seconds (Fin 0) \<or> seconds = Inf \<or> seconds = NegInf then Inr None
      else Inr (Some (case try_from_secs_f64 seconds of Some d \<Rightarrow> d | None \<Rightarrow> duration_max)))"

definition anchored_at :: "f64 \<Rightarrow> f64" where
  "anchored_at predicted_ready_at_ms = (if is_finite predicted_ready_at_ms then predicted_ready_at_ms else Fin 0)"

definition bitrate_bound :: "string \<Rightarrow> i32 \<Rightarrow> (CoreError, i32 option) result" where
  "bitrate_bound label v =
     (if v = -1 then Inr None
      else if v < 0
      then Inl (InvalidState (label @ '' must be >= 0, or -1 to leave it at the WebRTC default (got '' @ show_int v @ '')''))
      else Inr (Some v))"

section \<open>Create options\<close>

definition MIN_MAX_MESSAGE_SIZE :: u64 where
  "MIN_MAX_MESSAGE_SIZE = 256 * 1024"

definition MAX_MAX_MESSAGE_SIZE :: u64 where
  "MAX_MAX_MESSAGE_SIZE = 1024 * 1024 * 1024"

record CreateConfig =
  cc_local :: bool
  cc_auto_resume_tracks :: bool
  cc_adm :: "AdmMode option"
  cc_sdk_version :: "string option"
  cc_sdk_type :: "string option"
  cc_generation :: GenerationMode
  cc_step_timeout_seconds :: "f64 option"
  cc_max_message_size :: "u64 option"

definition CreateConfig_default :: CreateConfig where
  "CreateConfig_default = \<lparr> cc_local = False, cc_auto_resume_tracks = True, cc_adm = None,
     cc_sdk_version = None, cc_sdk_type = None, cc_generation = Streamed,
     cc_step_timeout_seconds = None, cc_max_message_size = None \<rparr>"

definition opt_string :: "string option \<Rightarrow> string option" where
  "opt_string s = map_option from_utf8_lossy s"

definition CreateConfig_from_args ::
    "int \<Rightarrow> int \<Rightarrow> AdmMode option \<Rightarrow> string option \<Rightarrow> string option \<Rightarrow> CreateConfig" where
  "CreateConfig_from_args is_local auto_resume_tracks adm sdk_ver sdk_ty = CreateConfig_default
     \<lparr> cc_local := is_local \<noteq> 0, cc_auto_resume_tracks := auto_resume_tracks \<noteq> 0, cc_adm := adm,
       cc_sdk_version := opt_string sdk_ver, cc_sdk_type := opt_string sdk_ty \<rparr>"

definition adm_of_int :: "int \<Rightarrow> AdmMode option" where
  "adm_of_int adm_mode = (if adm_mode = 0 then Some Synthetic else if adm_mode = 1 then Some Platform else None)"

text \<open>The values serde reads a field from.\<close>

fun json_bool :: "json \<Rightarrow> bool option" where
  "json_bool (JBool b) = Some b"
| "json_bool _ = None"

fun nullable :: "(json \<Rightarrow> 'a option) \<Rightarrow> json \<Rightarrow> 'a option option" where
  "nullable read JNull = Some None"
| "nullable read v = map_option Some (read v)"

fun json_string :: "json \<Rightarrow> string option" where
  "json_string (JString s) = Some s"
| "json_string _ = None"

fun json_f64 :: "json \<Rightarrow> f64 option" where
  "json_f64 (JNumber n) = Some (jnumber_as_f64 n)"
| "json_f64 _ = None"

fun json_u64 :: "json \<Rightarrow> u64 option" where
  "json_u64 (JNumber (PosInt n)) = Some n"
| "json_u64 _ = None"

fun json_generation :: "json \<Rightarrow> GenerationMode option" where
  "json_generation (JString s) =
     (if s = ''streamed'' then Some Streamed else if s = ''stepped'' then Some Stepped else None)"
| "json_generation _ = None"

definition deserialize_adm :: "json \<Rightarrow> AdmMode option option" where
  "deserialize_adm v = (case nullable json_string v of
     None \<Rightarrow> None
   | Some None \<Rightarrow> Some None
   | Some (Some s) \<Rightarrow>
       if s = ''synthetic'' then Some (Some Synthetic)
       else if s = ''platform'' then Some (Some Platform) else None)"

text \<open>One member of the object into its field; an unknown key is refused.\<close>

definition config_member :: "string \<times> json \<Rightarrow> CreateConfig \<Rightarrow> CreateConfig option" where
  "config_member m config = (case m of (key, v) \<Rightarrow>
     if key = ''local'' then map_option (\<lambda>b. config\<lparr> cc_local := b \<rparr>) (json_bool v)
     else if key = ''auto_resume_tracks'' then map_option (\<lambda>b. config\<lparr> cc_auto_resume_tracks := b \<rparr>) (json_bool v)
     else if key = ''adm'' then map_option (\<lambda>a. config\<lparr> cc_adm := a \<rparr>) (deserialize_adm v)
     else if key = ''sdk_version'' then map_option (\<lambda>s. config\<lparr> cc_sdk_version := s \<rparr>) (nullable json_string v)
     else if key = ''sdk_type'' then map_option (\<lambda>s. config\<lparr> cc_sdk_type := s \<rparr>) (nullable json_string v)
     else if key = ''generation'' then map_option (\<lambda>g. config\<lparr> cc_generation := g \<rparr>) (json_generation v)
     else if key = ''step_timeout_seconds'' then map_option (\<lambda>s. config\<lparr> cc_step_timeout_seconds := s \<rparr>) (nullable json_f64 v)
     else if key = ''max_message_size'' then map_option (\<lambda>n. config\<lparr> cc_max_message_size := n \<rparr>) (nullable json_u64 v)
     else None)"

fun config_members :: "(string \<times> json) list \<Rightarrow> CreateConfig \<Rightarrow> CreateConfig option" where
  "config_members [] config = Some config"
| "config_members (m # ms) config = Option.bind (config_member m config) (config_members ms)"

definition not_valid :: "string \<Rightarrow> CoreError" where
  "not_valid e = InvalidState (''create options are not valid: '' @ e)"

definition step_timeout_ok :: "f64 option \<Rightarrow> bool" where
  "step_timeout_ok seconds = (case seconds of None \<Rightarrow> True | Some s \<Rightarrow> is_finite s \<and> f64_lt (Fin 0) s)"

definition message_size_ok :: "u64 option \<Rightarrow> bool" where
  "message_size_ok n = (case n of None \<Rightarrow> True | Some n \<Rightarrow> MIN_MAX_MESSAGE_SIZE \<le> n \<and> n \<le> MAX_MAX_MESSAGE_SIZE)"

definition CreateConfig_from_json ::
    "(string \<Rightarrow> (string, json) result) \<Rightarrow> (json \<Rightarrow> string) \<Rightarrow> (f64 \<Rightarrow> string) \<Rightarrow> string \<Rightarrow> (CoreError, CreateConfig) result" where
  "CreateConfig_from_json from_str refusal show_f64 raw = (case from_str raw of
     Inl e \<Rightarrow> Inl (not_valid e)
   | Inr value \<Rightarrow> (case value of
       JObject members \<Rightarrow> (case config_members members CreateConfig_default of
         None \<Rightarrow> Inl (not_valid (refusal value))
       | Some config \<Rightarrow>
           if \<not> step_timeout_ok (cc_step_timeout_seconds config)
           then Inl (not_valid (''step_timeout_seconds must be a positive number, got ''
                  @ show_f64 (the (cc_step_timeout_seconds config))))
           else if \<not> message_size_ok (cc_max_message_size config)
           then Inl (not_valid (''max_message_size must be from '' @ show_nat (unat MIN_MAX_MESSAGE_SIZE) @ '' to ''
                  @ show_nat (unat MAX_MAX_MESSAGE_SIZE) @ '' bytes, got '' @ show_nat (unat (the (cc_max_message_size config)))))
           else Inr config)
     | _ \<Rightarrow> Inl (not_valid ''expected a JSON object'')))"

definition config_apply :: "CreateConfig \<Rightarrow> ReactorOptions \<Rightarrow> ReactorOptions" where
  "config_apply config options =
     (let options = options\<lparr> opt_sdk_type := (case cc_sdk_type config of Some t \<Rightarrow> t | None \<Rightarrow> ''ffi'') \<rparr>;
          options = (case cc_sdk_version config of Some v \<Rightarrow> options\<lparr> opt_sdk_version := v \<rparr> | None \<Rightarrow> options);
          options = options\<lparr> opt_local := cc_local config, opt_auto_resume_tracks := cc_auto_resume_tracks config,
                      opt_generation := cc_generation config \<rparr>
      in case cc_step_timeout_seconds config of
           Some seconds \<Rightarrow> options\<lparr> opt_step_timeout := (case try_from_secs_f64 seconds of Some d \<Rightarrow> d | None \<Rightarrow> duration_max) \<rparr>
         | None \<Rightarrow> options)"

text \<open>
  \<^verbatim>\<open>reactor_create_with_options\<close>: the options and transport size a client is made with, or the error
  stored through the out-parameter.
\<close>

definition create_with_options ::
    "(string \<Rightarrow> (string, json) result) \<Rightarrow> (json \<Rightarrow> string) \<Rightarrow> (f64 \<Rightarrow> string) \<Rightarrow> string option \<Rightarrow> (CoreError, CreateConfig) result" where
  "create_with_options from_str refusal show_f64 options_json = (case options_json of
     None \<Rightarrow> Inr CreateConfig_default
   | Some raw \<Rightarrow> CreateConfig_from_json from_str refusal show_f64 (from_utf8_lossy raw))"

definition created_max_message_size :: "CreateConfig \<Rightarrow> u64" where
  "created_max_message_size config = (case cc_max_message_size config of Some n \<Rightarrow> n | None \<Rightarrow> FFI_DEFAULT_MAX_MESSAGE_SIZE)"

section \<open>Lent memory\<close>

definition copy_bytes :: "'a list \<Rightarrow> nat \<Rightarrow> 'a list" where
  "copy_bytes data len = (if len = 0 then [] else take len data)"

text \<open>The length of a pushed frame is a product of 32-bit numbers, which wraps in a release build.\<close>

definition frame_len :: "u32 \<Rightarrow> u32 \<Rightarrow> nat" where
  "frame_len width height = unat (width * height * 4)"

definition lent_tag :: "bytes option \<Rightarrow> u32 \<Rightarrow> bytes" where
  "lent_tag user_data user_data_len = (case user_data of
     None \<Rightarrow> []
   | Some d \<Rightarrow> if user_data_len = 0 then [] else take (unat user_data_len) d)"

definition lent_metadata :: "bytes option \<Rightarrow> u32 \<Rightarrow> bytes option" where
  "lent_metadata user_data user_data_len = (case user_data of
     None \<Rightarrow> None
   | Some d \<Rightarrow> if user_data_len = 0 then None else Some (take (unat user_data_len) d))"

definition samples_len :: "u32 \<Rightarrow> u32 \<Rightarrow> nat option" where
  "samples_len samples_per_channel num_channels =
     (case checked_mul (unat samples_per_channel) (unat num_channels) of
        None \<Rightarrow> None
      | Some n \<Rightarrow> if n > (2 ^ 63 - 1) div 2 then None else Some n)"

section \<open>Properties\<close>

definition CONFIG_KEYS :: "string list" where
  "CONFIG_KEYS = [''local'', ''auto_resume_tracks'', ''adm'', ''sdk_version'', ''sdk_type'', ''generation'',
     ''step_timeout_seconds'', ''max_message_size'']"

text \<open>A field is its default where the document has no such member, and what its member reads as otherwise.\<close>

definition field_read :: "(string \<times> json) list \<Rightarrow> string \<Rightarrow> (json \<Rightarrow> 'a option) \<Rightarrow> 'a \<Rightarrow> 'a \<Rightarrow> bool" where
  "field_read members key read absent x = (case map_of members key of None \<Rightarrow> absent = x | Some v \<Rightarrow> read v = Some x)"

definition config_read :: "(string \<times> json) list \<Rightarrow> CreateConfig \<Rightarrow> CreateConfig \<Rightarrow> bool" where
  "config_read members absent config \<longleftrightarrow>
     fst ` set members \<subseteq> set CONFIG_KEYS
   \<and> field_read members ''local'' json_bool (cc_local absent) (cc_local config)
   \<and> field_read members ''auto_resume_tracks'' json_bool (cc_auto_resume_tracks absent) (cc_auto_resume_tracks config)
   \<and> field_read members ''adm'' deserialize_adm (cc_adm absent) (cc_adm config)
   \<and> field_read members ''sdk_version'' (nullable json_string) (cc_sdk_version absent) (cc_sdk_version config)
   \<and> field_read members ''sdk_type'' (nullable json_string) (cc_sdk_type absent) (cc_sdk_type config)
   \<and> field_read members ''generation'' json_generation (cc_generation absent) (cc_generation config)
   \<and> field_read members ''step_timeout_seconds'' (nullable json_f64) (cc_step_timeout_seconds absent) (cc_step_timeout_seconds config)
   \<and> field_read members ''max_message_size'' (nullable json_u64) (cc_max_message_size absent) (cc_max_message_size config)"

lemma field_read_Nil: "field_read [] key read absent x \<longleftrightarrow> absent = x"
  by (simp add: field_read_def)

lemma field_read_other: "k \<noteq> key \<Longrightarrow> field_read ((k, v) # ms) key read absent x = field_read ms key read absent x"
  by (simp add: field_read_def)

lemma field_read_own: "field_read ((key, v) # ms) key read absent x \<longleftrightarrow> read v = Some x"
  by (simp add: field_read_def)

lemma field_read_gone: "key \<notin> fst ` set ms \<Longrightarrow> field_read ms key read absent x \<longleftrightarrow> absent = x"
  by (simp add: field_read_def map_of_eq_None_iff[THEN iffD2])

lemmas field_reads = field_read_own field_read_other field_read_gone

lemma config_members_iff:
  "distinct (map fst ms) \<Longrightarrow> config_members ms config = Some config' \<longleftrightarrow> config_read ms config config'"
proof (induction ms arbitrary: config)
  case Nil
  show ?case by (auto simp: config_read_def field_read_Nil)
next
  case (Cons m ms)
  obtain k v where m: "m = (k, v)" by (cases m)
  have new: "k \<notin> fst ` set ms" "distinct (map fst ms)" using Cons.prems by (simp_all add: m)
  show ?case
  proof (cases "k \<in> set CONFIG_KEYS")
    case True
    then have keys: "k = ''local'' \<or> k = ''auto_resume_tracks'' \<or> k = ''adm'' \<or> k = ''sdk_version''
      \<or> k = ''sdk_type'' \<or> k = ''generation'' \<or> k = ''step_timeout_seconds'' \<or> k = ''max_message_size''"
      by (simp add: CONFIG_KEYS_def)
    note parts = config_read_def field_reads config_member_def new Cons.IH[OF new(2)] True
    show ?thesis
      using keys
    proof (elim disjE)
      assume k: "k = ''local''"
      show ?thesis using new by (cases "json_bool v") (simp_all add: m k parts CONFIG_KEYS_def)
    next
      assume k: "k = ''auto_resume_tracks''"
      show ?thesis using new by (cases "json_bool v") (simp_all add: m k parts CONFIG_KEYS_def)
    next
      assume k: "k = ''adm''"
      show ?thesis using new by (cases "deserialize_adm v") (simp_all add: m k parts CONFIG_KEYS_def)
    next
      assume k: "k = ''sdk_version''"
      show ?thesis using new by (cases "nullable json_string v") (simp_all add: m k parts CONFIG_KEYS_def)
    next
      assume k: "k = ''sdk_type''"
      show ?thesis using new by (cases "nullable json_string v") (simp_all add: m k parts CONFIG_KEYS_def)
    next
      assume k: "k = ''generation''"
      show ?thesis using new by (cases "json_generation v") (simp_all add: m k parts CONFIG_KEYS_def)
    next
      assume k: "k = ''step_timeout_seconds''"
      show ?thesis using new by (cases "nullable json_f64 v") (simp_all add: m k parts CONFIG_KEYS_def)
    next
      assume k: "k = ''max_message_size''"
      show ?thesis using new by (cases "nullable json_u64 v") (simp_all add: m k parts CONFIG_KEYS_def)
    qed
  next
    case False
    then have "config_member m config = None" by (auto simp: config_member_def m CONFIG_KEYS_def)
    with False show ?thesis by (simp add: config_read_def m)
  qed
qed


text \<open>A parser that knows two documents, one of them with a key it should not have.\<close>

definition sample_options :: "string \<Rightarrow> (string, json) result" where
  "sample_options raw =
     (if raw = ''stepped'' then Inr (JObject [(''generation'', JString ''stepped''), (''max_message_size'', JNumber (PosInt 300000)),
        (''step_timeout_seconds'', JNumber (PosInt 20))])
      else if raw = ''misspelt'' then Inr (JObject [(''generatoin'', JString ''stepped'')])
      else Inl ''expected value'')"

lemma sample_options_distinct: "\<forall>raw ms. sample_options raw = Inr (JObject ms) \<longrightarrow> distinct (map fst ms)"
  by (auto simp: sample_options_def split: if_splits)

lemma sample_misspelt: "\<not> config_read [(''generatoin'', JString ''stepped'')] CreateConfig_default config"
  by (simp add: config_read_def CONFIG_KEYS_def)

lemma sample_stepped:
  "CreateConfig_from_json sample_options refusal show_f64 ''stepped'' = Inr (CreateConfig_default
      \<lparr> cc_generation := Stepped, cc_step_timeout_seconds := Some (f64_of_nat 20), cc_max_message_size := Some 300000 \<rparr>)"
proof -
  have "f64_of_nat 20 = Fin 20" by code_simp
  then show ?thesis
    by (simp add: CreateConfig_from_json_def sample_options_def config_member_def CreateConfig_default_def
        step_timeout_ok_def message_size_ok_def MIN_MAX_MESSAGE_SIZE_def MAX_MAX_MESSAGE_SIZE_def)
qed


end
