(* ===== verification/Ffi_Calls.thy ===== *)
theory Ffi_Calls
  imports Ffi_Config Host_Thread Reactor_Stats
begin

text \<open>
  The asynchronous half of the C boundary (\<^verbatim>\<open>reactor-ffi/src/lib.rs\<close>): a call of the host starts a task
  of the handle and returns; the task runs an operation of the core and sends its result to the control
  thread, which calls the host's completion. A host function is a number and a host context another; a
  call of the host is what it is called with. A client is the handle's reactor, its tasks, and the jobs
  its control thread has not run yet. \<open>cl_started\<close>, \<open>cl_resolved\<close> and \<open>cl_panicked\<close> record the
  completions that were taken, those that were resolved and what the host was called with, and those a
  panic dropped; a completion is known by the task it was given to.
\<close>

section \<open>What the calls use\<close>

text \<open>
  Third-party code: serde's serializers, the file system and the guess of a file's type. \<open>f_encoding\<close>
  is the conversion of a number to the generated \<^verbatim>\<open>FrameEncoding\<close>.
\<close>

record 'w ffi =
  f_env :: "'w env"
  f_from_str :: "string \<Rightarrow> (string, json) result"
  f_to_string :: "json \<Rightarrow> string"
  f_details :: "ErrorDetails \<Rightarrow> string option"
  f_error_value :: "ReactorError \<Rightarrow> json option"
  f_capabilities_value :: "Capabilities \<Rightarrow> json option"
  f_uploads :: "string \<Rightarrow> (string, (string \<times> FileRef) list option) result"
  f_stats_value :: "ConnectionStats \<Rightarrow> (string, json) result"
  f_read_file :: "string \<Rightarrow> 'w reactor \<Rightarrow> (string, string) result \<times> 'w reactor"
  f_mime :: "string \<Rightarrow> string"
  f_encoding :: "int \<Rightarrow> int option"
  f_h264 :: int

definition CString_new :: "string \<Rightarrow> string option" where
  "CString_new s = (if CHR 0x00 \<in> set s then None else Some s)"

section \<open>Calling the host\<close>

datatype host_call =
    Call_Completion nat int "string option" "string option" nat
  | Call_Step nat int "ReactorStepResult option" "string option" nat
  | Call_Event nat "string option list" nat

text \<open>The only hook the code makes times the way back to the host, from the moment it was made.\<close>

record callback_hook =
  cb_generation :: u64
  cb_returned_ms :: f64

record Completion =
  c_fn :: "nat option"
  c_userdata :: nat
  c_operation :: string
  c_before_callback :: "callback_hook option"

definition Completion_new :: "nat option \<Rightarrow> nat \<Rightarrow> string \<Rightarrow> Completion" where
  "Completion_new fn userdata operation = \<lparr> c_fn = fn, c_userdata = userdata, c_operation = operation, c_before_callback = None \<rparr>"

definition fallback_error_json :: "'w ffi \<Rightarrow> string \<Rightarrow> string" where
  "fallback_error_json f message = f_to_string f (JObject
     [(''code'', JString INTERNAL_ERROR), (''message'', JString message), (''recoverable'', JBool False)])"

definition error_json :: "'w ffi \<Rightarrow> CoreError \<Rightarrow> string \<Rightarrow> string option" where
  "error_json f err operation =
     (let details = error_details (e_show_tracks (f_env f)) err (Some operation)
      in CString_new (case f_details f details of
           Some text \<Rightarrow> text | None \<Rightarrow> fallback_error_json f (ed_message details)))"

definition resolve ::
    "'w ffi \<Rightarrow> bool \<Rightarrow> Completion \<Rightarrow> (CoreError, json option) result \<Rightarrow> (callback_hook option \<times> host_call) option" where
  "resolve f admitted completion res = (case c_fn completion of
     None \<Rightarrow> None
   | Some fn \<Rightarrow>
       if \<not> admitted then None
       else case res of
         Inr v \<Rightarrow> (case CString_new (case v of Some j \<Rightarrow> f_to_string f j | None \<Rightarrow> ''{}'') of
             None \<Rightarrow> None
           | Some text \<Rightarrow> Some (c_before_callback completion, Call_Completion fn 1 (Some text) None (c_userdata completion)))
       | Inl e \<Rightarrow> (case error_json f e (c_operation completion) of
             None \<Rightarrow> None
           | Some text \<Rightarrow> Some (c_before_callback completion, Call_Completion fn 0 None (Some text) (c_userdata completion))))"

record StepCompletion =
  sc_fn :: "nat option"
  sc_userdata :: nat

definition resolve_step ::
    "'w ffi \<Rightarrow> bool \<Rightarrow> StepCompletion \<Rightarrow> (CoreError, ReactorStepResult) result \<Rightarrow> host_call option" where
  "resolve_step f admitted completion res = (case sc_fn completion of
     None \<Rightarrow> None
   | Some fn \<Rightarrow>
       if \<not> admitted then None
       else case res of
         Inr step_output \<Rightarrow> Some (Call_Step fn 1 (Some step_output) None (sc_userdata completion))
       | Inl e \<Rightarrow> (case error_json f e ''step'' of
             None \<Rightarrow> None
           | Some text \<Rightarrow> Some (Call_Step fn 0 None (Some text) (sc_userdata completion))))"

section \<open>Events\<close>

record CallbackSet =
  on_status :: "nat option"
  on_error :: "nat option"
  on_message :: "nat option"
  on_runtime_message :: "nat option"
  on_track :: "nat option"
  on_capabilities :: "nat option"
  on_session_id :: "nat option"
  cbs_userdata :: nat

definition fire_str :: "bool \<Rightarrow> CallbackSet \<Rightarrow> nat option \<Rightarrow> string \<Rightarrow> host_call option" where
  "fire_str admitted cbs fn s = (case fn of
     None \<Rightarrow> None
   | Some fn \<Rightarrow> (case CString_new s of
       None \<Rightarrow> None
     | Some text \<Rightarrow> if \<not> admitted then None else Some (Call_Event fn [Some text] (cbs_userdata cbs))))"

definition fire_json_val :: "'w ffi \<Rightarrow> bool \<Rightarrow> CallbackSet \<Rightarrow> nat option \<Rightarrow> json \<Rightarrow> host_call option" where
  "fire_json_val f admitted cbs fn v = fire_str admitted cbs fn (f_to_string f v)"

definition fire_opt_str :: "bool \<Rightarrow> CallbackSet \<Rightarrow> nat option \<Rightarrow> string option \<Rightarrow> host_call option" where
  "fire_opt_str admitted cbs fn opt = (case fn of
     None \<Rightarrow> None
   | Some fn \<Rightarrow>
       if \<not> admitted then None
       else case opt of
         Some s \<Rightarrow> (case CString_new s of
             None \<Rightarrow> None
           | Some text \<Rightarrow> Some (Call_Event fn [Some text] (cbs_userdata cbs)))
       | None \<Rightarrow> Some (Call_Event fn [None] (cbs_userdata cbs)))"

definition fire_track :: "bool \<Rightarrow> CallbackSet \<Rightarrow> string \<Rightarrow> string option \<Rightarrow> host_call option" where
  "fire_track admitted cbs name mid = (case on_track cbs of
     None \<Rightarrow> None
   | Some fn \<Rightarrow> (case CString_new name of
       None \<Rightarrow> None
     | Some name_cs \<Rightarrow>
         if \<not> admitted then None
         else case mid of
           Some m \<Rightarrow> (case CString_new m of
               None \<Rightarrow> None
             | Some mid_cs \<Rightarrow> Some (Call_Event fn [Some name_cs, Some mid_cs] (cbs_userdata cbs)))
         | None \<Rightarrow> Some (Call_Event fn [Some name_cs, None] (cbs_userdata cbs))))"

definition dispatch_event :: "'w ffi \<Rightarrow> bool \<Rightarrow> CallbackSet \<Rightarrow> ReactorEvent \<Rightarrow> host_call option" where
  "dispatch_event f admitted cbs event = (case event of
     StatusChanged s \<Rightarrow> fire_str admitted cbs (on_status cbs) (ReactorStatus_as_str s)
   | ErrorEvent err \<Rightarrow> (case f_error_value f err of
       Some v \<Rightarrow> fire_json_val f admitted cbs (on_error cbs) v | None \<Rightarrow> None)
   | Message v \<Rightarrow> fire_json_val f admitted cbs (on_message cbs) v
   | RuntimeMessage v \<Rightarrow> fire_json_val f admitted cbs (on_runtime_message cbs) v
   | TrackReceived name mid \<Rightarrow> fire_track admitted cbs name mid
   | CapabilitiesReceived caps \<Rightarrow> (case f_capabilities_value f caps of
       Some v \<Rightarrow> fire_json_val f admitted cbs (on_capabilities cbs) v | None \<Rightarrow> None)
   | SessionIdChanged sid \<Rightarrow> fire_opt_str admitted cbs (on_session_id cbs) sid)"

section \<open>Operations\<close>

datatype ffi_op =
    Op_Connect "string option" "u32 option"
  | Op_Disconnect
  | Op_Reconnect
  | Op_Publish string
  | Op_Pause string
  | Op_Resume string
  | Op_Bitrate i32 i32 i32
  | Op_Track_Bitrate string i32 i32
  | Op_Clip f64
  | Op_Recording
  | Op_Schema
  | Op_Stats
  | Op_Upload_File string
  | Op_Upload_Bytes string string string
  | Op_Command string json "(string \<times> FileRef) list option" CommandEntry u64

datatype ffi_task =
    Operating Completion ffi_op
  | Stepping StepCompletion "(CoreError, RequestStep) result"
  | Heartbeat
  | Reporting

record tracked_task =
  tk_id :: nat
  tk_task :: ffi_task
  tk_finished :: bool

text \<open>A job for the control thread; the number is that of the task that sent it.\<close>

datatype control_job =
    Resolve nat Completion "(CoreError, json option) result"
  | Resolve_Step nat StepCompletion "(CoreError, ReactorStepResult) result"
  | Dispatch ReactorEvent

record 'w client =
  cl_reactor :: "'w reactor"
  cl_tasks :: "tracked_task list"
  cl_next_task :: nat
  cl_control :: "control_job list"
  cl_forwarded :: nat
  cl_host_calls :: "host_call list"
  cl_started :: "(nat \<times> nat option \<times> nat) list"
  cl_resolved :: "(nat \<times> bool \<times> host_call option) list"
  cl_panicked :: "nat list"

definition Client_new :: "'w reactor \<Rightarrow> 'w client" where
  "Client_new r = \<lparr> cl_reactor = r, cl_tasks = [], cl_next_task = 0, cl_control = [], cl_forwarded = 0,
     cl_host_calls = [], cl_started = [], cl_resolved = [], cl_panicked = [] \<rparr>"

definition on_reactor :: "('w reactor, 'a) io \<Rightarrow> ('w client, 'a) io" where
  "on_reactor m = (\<lambda>c. case m (cl_reactor c) of (res, r) \<Rightarrow> (res, c\<lparr> cl_reactor := r \<rparr>))"

text \<open>Finished tasks are reaped when the next one is spawned.\<close>

definition spawn_tracked :: "ffi_task \<Rightarrow> 'w client \<Rightarrow> 'w client" where
  "spawn_tracked task c = c\<lparr> cl_tasks := filter (\<lambda>t. \<not> tk_finished t) (cl_tasks c)
       @ [\<lparr> tk_id = cl_next_task c, tk_task = task, tk_finished = False \<rparr>],
     cl_next_task := cl_next_task c + 1 \<rparr>"

definition start :: "nat option \<Rightarrow> nat \<Rightarrow> ffi_task \<Rightarrow> 'w client \<Rightarrow> 'w client" where
  "start fn userdata task c =
     spawn_tracked task (c\<lparr> cl_started := cl_started c @ [(cl_next_task c, fn, userdata)] \<rparr>)"

definition spawn_completion :: "Completion \<Rightarrow> ffi_op \<Rightarrow> 'w client \<Rightarrow> 'w client" where
  "spawn_completion completion operation c = start (c_fn completion) (c_userdata completion) (Operating completion operation) c"

text \<open>\<^verbatim>\<open>async_op!\<close> on a handle, which is \<^const>\<open>None\<close> when null.\<close>

definition async_op :: "string \<Rightarrow> nat option \<Rightarrow> nat \<Rightarrow> ffi_op \<Rightarrow> 'w client option \<Rightarrow> 'w client option" where
  "async_op name completion userdata operation h =
     map_option (spawn_completion (Completion_new completion userdata name) operation) h"

definition spawn_background :: "('w client, unit) io" where
  "spawn_background = bindE (modifyE (spawn_tracked Heartbeat)) (\<lambda>_. modifyE (spawn_tracked Reporting))"

text \<open>The components of a path, and its last one when that is a name.\<close>

fun path_components :: "string \<Rightarrow> string \<Rightarrow> string list" where
  "path_components [] cur = [cur]"
| "path_components (c # cs) cur =
     (if c = CHR ''/'' then cur # path_components cs [] else path_components cs (cur @ [c]))"

definition file_name :: "string \<Rightarrow> string option" where
  "file_name path = (case rev (filter (\<lambda>s. s \<noteq> [] \<and> s \<noteq> ''.'') (path_components path [])) of
     [] \<Rightarrow> None | s # _ \<Rightarrow> if s = ''..'' then None else Some s)"

definition file_ref_value :: "FileRef \<Rightarrow> json" where
  "file_ref_value fr = JObject [(''mime_type'', JString (fref_mime_type fr)), (''name'', JString (fref_name fr)),
     (''size'', JNumber (PosInt (fref_size fr))), (''upload_id'', JString (upload_id fr))]"

definition set_bitrate_body :: "'w env \<Rightarrow> i32 \<Rightarrow> i32 \<Rightarrow> i32 \<Rightarrow> ('w reactor, unit) io" where
  "set_bitrate_body e min_bps start_bps max_bps =
     bindE (liftE (bitrate_bound ''min_bps'' min_bps)) (\<lambda>mn.
     bindE (liftE (bitrate_bound ''start_bps'' start_bps)) (\<lambda>start.
     bindE (liftE (bitrate_bound ''max_bps'' max_bps)) (\<lambda>mx.
     set_bitrate e mn start mx)))"

definition set_track_bitrate_body :: "'w env \<Rightarrow> string \<Rightarrow> i32 \<Rightarrow> i32 \<Rightarrow> ('w reactor, unit) io" where
  "set_track_bitrate_body e name min_bps max_bps =
     bindE (liftE (bitrate_bound ''min_bps'' min_bps)) (\<lambda>mn.
     bindE (liftE (bitrate_bound ''max_bps'' max_bps)) (\<lambda>mx.
     set_track_bitrate e name mn mx))"

definition upload_file_body :: "'w ffi \<Rightarrow> string \<Rightarrow> ('w reactor, json option) io" where
  "upload_file_body f path =
     (let name = (case file_name path of Some n \<Rightarrow> n | None \<Rightarrow> ''upload'') in
      bindE (\<lambda>r. case f_read_file f path r of
          (Inl err, r) \<Rightarrow> (Inl (Fail (Http err)), r) | (Inr contents, r) \<Rightarrow> (Inr contents, r)) (\<lambda>contents.
      bindE (upload_file (f_env f) name (f_mime f path) contents) (\<lambda>fr.
      retE (Some (file_ref_value fr)))))"

definition get_stats_body :: "'w ffi \<Rightarrow> ('w reactor, json option) io" where
  "get_stats_body f = bindE (get_stats (f_env f)) (\<lambda>stats.
     case f_stats_value f stats of Inl m \<Rightarrow> failE (Decode m) | Inr v \<Rightarrow> retE (Some v))"

definition unit_result :: "('w reactor, unit) io \<Rightarrow> ('w reactor, json option) io" where
  "unit_result m = bindE m (\<lambda>_. retE None)"

definition connect_body :: "'w ffi \<Rightarrow> string option \<Rightarrow> u32 option \<Rightarrow> ('w client, json option) io" where
  "connect_body f sid cid =
     bindE (on_reactor (connect (f_env f)
        \<lparr> co_session_id = sid, co_connection_id = cid, co_auto_resume_tracks = None, co_max_sdp_attempts = None \<rparr>)) (\<lambda>_.
     bindE spawn_background (\<lambda>_. retE None))"

definition reconnect_body :: "'w ffi \<Rightarrow> ('w client, json option) io" where
  "reconnect_body f = bindE (on_reactor (reconnect (f_env f) None)) (\<lambda>_. bindE spawn_background (\<lambda>_. retE None))"

text \<open>The body of each operation.\<close>

fun operation_body :: "'w ffi \<Rightarrow> ffi_op \<Rightarrow> ('w client, json option) io" where
  "operation_body f (Op_Connect sid cid) = connect_body f sid cid"
| "operation_body f Op_Disconnect = on_reactor (unit_result (disconnect (f_env f) False))"
| "operation_body f Op_Reconnect = reconnect_body f"
| "operation_body f (Op_Publish name) = on_reactor (unit_result (publish_track (f_env f) name))"
| "operation_body f (Op_Pause name) = on_reactor (unit_result (pause_track (f_env f) name))"
| "operation_body f (Op_Resume name) = on_reactor (unit_result (resume_track (f_env f) name))"
| "operation_body f (Op_Bitrate mn st mx) = on_reactor (unit_result (set_bitrate_body (f_env f) mn st mx))"
| "operation_body f (Op_Track_Bitrate name mn mx) = on_reactor (unit_result (set_track_bitrate_body (f_env f) name mn mx))"
| "operation_body f (Op_Clip secs) = on_reactor (bindE (request_clip (f_env f) secs) (\<lambda>clip. retE (Some (clip_to_value clip))))"
| "operation_body f Op_Recording = on_reactor (bindE (request_recording (f_env f)) (\<lambda>clip. retE (Some (clip_to_value clip))))"
| "operation_body f Op_Schema = on_reactor (bindE (request_schema (f_env f)) (\<lambda>v. retE (Some v)))"
| "operation_body f Op_Stats = on_reactor (get_stats_body f)"
| "operation_body f (Op_Upload_File path) = on_reactor (upload_file_body f path)"
| "operation_body f (Op_Upload_Bytes contents name mime) =
     on_reactor (bindE (upload_file (f_env f) name mime contents) (\<lambda>fr. retE (Some (file_ref_value fr))))"
| "operation_body f (Op_Command name args ups entry gen) =
     on_reactor (send_command_from (f_env f) name args ups (Some entry))"

definition is_answered :: "(CoreError, json option) result \<Rightarrow> bool" where
  "is_answered res = (case res of Inr _ \<Rightarrow> True | Inl (CommandRequest _ _ _) \<Rightarrow> True | Inl _ \<Rightarrow> False)"

text \<open>What a task computes: the operation's result, and for a command the hook that times its way back.\<close>

definition run_operation :: "'w ffi \<Rightarrow> ffi_op \<Rightarrow> ('w client, (CoreError, json option) result \<times> callback_hook option) io" where
  "run_operation f operation =
     bindE (attemptE (operation_body f operation)) (\<lambda>res.
     case operation of
       Op_Command _ _ _ _ gen \<Rightarrow>
         bindE (on_reactor (monotonicE (f_env f))) (\<lambda>returned_ms.
         retE (res, if is_answered res then Some \<lparr> cb_generation = gen, cb_returned_ms = returned_ms \<rparr> else None))
     | _ \<Rightarrow> retE (res, None))"

section \<open>Tasks and jobs\<close>

definition finish :: "nat \<Rightarrow> 'w client \<Rightarrow> 'w client" where
  "finish i c = c\<lparr> cl_tasks := map (\<lambda>t. if tk_id t = i then t\<lparr> tk_finished := True \<rparr> else t) (cl_tasks c) \<rparr>"

definition send_job :: "control_job \<Rightarrow> 'w client \<Rightarrow> 'w client" where
  "send_job job c = c\<lparr> cl_control := cl_control c @ [job] \<rparr>"

definition map_ok :: "('a \<Rightarrow> 'b) \<Rightarrow> ('e, 'a) result \<Rightarrow> ('e, 'b) result" where
  "map_ok g res = (case res of Inl e \<Rightarrow> Inl e | Inr x \<Rightarrow> Inr (g x))"

text \<open>Whether its task ends with a result or by a panic, which the runtime catches.\<close>

definition ended :: "nat \<Rightarrow> ('a \<Rightarrow> control_job) \<Rightarrow> (failure, 'a) result \<times> 'w client \<Rightarrow> 'w client" where
  "ended i job out = finish i (case out of
     (Inr res, c) \<Rightarrow> send_job (job res) c
   | (Inl _, c) \<Rightarrow> c\<lparr> cl_panicked := cl_panicked c @ [i] \<rparr>)"

definition step_body :: "'w ffi \<Rightarrow> (CoreError, RequestStep) result \<Rightarrow> ('w client, (CoreError, ReactorStepResult) result) io" where
  "step_body f begun =
     bindE (attemptE (case begun of Inr request \<Rightarrow> on_reactor (send_step (f_env f) request) | Inl err \<Rightarrow> failE err)) (\<lambda>res.
     retE (map_ok (ReactorStepResult_from (e_wire (f_env f)) (f_h264 f)) res))"

definition unfinished :: "'w client \<Rightarrow> tracked_task list" where
  "unfinished c = filter (\<lambda>t. \<not> tk_finished t) (cl_tasks c)"

definition run_task :: "'w ffi \<Rightarrow> nat \<Rightarrow> 'w client \<Rightarrow> 'w client option" where
  "run_task f i c = (case find (\<lambda>t. tk_id t = i) (unfinished c) of
     None \<Rightarrow> None
   | Some t \<Rightarrow> (case tk_task t of
       Operating completion operation \<Rightarrow>
         Some (ended i (\<lambda>(res, hook). Resolve i (completion\<lparr> c_before_callback := hook \<rparr>) res) (run_operation f operation c))
     | Stepping completion begun \<Rightarrow> Some (ended i (Resolve_Step i completion) (step_body f begun c))
     | _ \<Rightarrow> None))"

definition run_hook :: "'w ffi \<Rightarrow> callback_hook option \<Rightarrow> 'w client \<Rightarrow> 'w client" where
  "run_hook f hook c = (case hook of
     None \<Rightarrow> c
   | Some cb \<Rightarrow> snd (on_reactor (bindE (monotonicE (f_env f)) (\<lambda>now.
       add_message_stage (cb_generation cb) FFI_RETURN (f64_sub now (cb_returned_ms cb)))) c))"

definition call_host :: "host_call option \<Rightarrow> 'w client \<Rightarrow> 'w client" where
  "call_host call c = (case call of None \<Rightarrow> c | Some h \<Rightarrow> c\<lparr> cl_host_calls := cl_host_calls c @ [h] \<rparr>)"

definition record_resolved :: "nat \<Rightarrow> bool \<Rightarrow> host_call option \<Rightarrow> 'w client \<Rightarrow> 'w client" where
  "record_resolved i admitted call c = call_host call (c\<lparr> cl_resolved := cl_resolved c @ [(i, admitted, call)] \<rparr>)"

text \<open>The control thread's next job; \<open>admitted\<close> is whether the gate lets its call through.\<close>

definition run_job :: "'w ffi \<Rightarrow> CallbackSet option \<Rightarrow> bool \<Rightarrow> 'w client \<Rightarrow> 'w client option" where
  "run_job f cbs admitted c = (case cl_control c of
     [] \<Rightarrow> None
   | job # jobs \<Rightarrow> Some (let c = c\<lparr> cl_control := jobs \<rparr> in case job of
       Resolve i completion res \<Rightarrow>
         (case resolve f admitted completion res of
            None \<Rightarrow> record_resolved i admitted None c
          | Some (hook, call) \<Rightarrow> record_resolved i admitted (Some call) (run_hook f hook c))
     | Resolve_Step i completion res \<Rightarrow> record_resolved i admitted (resolve_step f admitted completion res) c
     | Dispatch event \<Rightarrow>
         call_host (case cbs of None \<Rightarrow> None | Some cbs \<Rightarrow> dispatch_event f admitted cbs event) c))"

text \<open>The pump that forwards the core's events, when the client has callbacks.\<close>

definition forward_event :: "CallbackSet option \<Rightarrow> 'w client \<Rightarrow> 'w client option" where
  "forward_event cbs c =
     (if cbs \<noteq> None \<and> cl_forwarded c < length (r_events (cl_reactor c))
      then Some (send_job (Dispatch (r_events (cl_reactor c) ! cl_forwarded c)) (c\<lparr> cl_forwarded := cl_forwarded c + 1 \<rparr>))
      else None)"

section \<open>What the host calls\<close>

definition lossy :: "string \<Rightarrow> string" where
  "lossy s = from_utf8_lossy s"

definition reactor_connect where
  "reactor_connect sid cid completion userdata h =
     async_op ''connect'' completion userdata (Op_Connect (opt_string sid) cid) h"

definition reactor_disconnect where
  "reactor_disconnect completion userdata h = async_op ''disconnect'' completion userdata Op_Disconnect h"

definition reactor_reconnect where
  "reactor_reconnect completion userdata h = async_op ''reconnect'' completion userdata Op_Reconnect h"

definition reactor_publish_track where
  "reactor_publish_track name completion userdata h = async_op ''publish_track'' completion userdata (Op_Publish (lossy name)) h"

definition reactor_pause_track where
  "reactor_pause_track name completion userdata h = async_op ''pause_track'' completion userdata (Op_Pause (lossy name)) h"

definition reactor_resume_track where
  "reactor_resume_track name completion userdata h = async_op ''resume_track'' completion userdata (Op_Resume (lossy name)) h"

definition reactor_set_bitrate where
  "reactor_set_bitrate min_bps start_bps max_bps completion userdata h =
     async_op ''set_bitrate'' completion userdata (Op_Bitrate min_bps start_bps max_bps) h"

definition reactor_set_track_bitrate where
  "reactor_set_track_bitrate name min_bps max_bps completion userdata h =
     async_op ''set_track_bitrate'' completion userdata (Op_Track_Bitrate (lossy name) min_bps max_bps) h"

definition reactor_request_clip where
  "reactor_request_clip duration_seconds completion userdata h =
     async_op ''request_clip'' completion userdata (Op_Clip duration_seconds) h"

definition reactor_request_recording where
  "reactor_request_recording completion userdata h = async_op ''request_recording'' completion userdata Op_Recording h"

definition reactor_request_schema where
  "reactor_request_schema completion userdata h = async_op ''request_schema'' completion userdata Op_Schema h"

definition reactor_get_stats where
  "reactor_get_stats completion userdata h = async_op ''get_stats'' completion userdata Op_Stats h"

definition reactor_upload_file where
  "reactor_upload_file path completion userdata h = async_op ''upload_file'' completion userdata (Op_Upload_File (lossy path)) h"

text \<open>The bytes are lent for the call: \<open>data\<close> is what the pointer leads to, \<^const>\<open>None\<close> when null.\<close>

definition reactor_upload_bytes where
  "reactor_upload_bytes data len name mime_type completion userdata h =
     (if data = None \<and> len > 0 then h
      else async_op ''upload_bytes'' completion userdata
        (Op_Upload_Bytes (case data of None \<Rightarrow> [] | Some d \<Rightarrow> copy_bytes d len) (lossy name) (lossy mime_type)) h)"

definition clock :: "'w ffi \<Rightarrow> 'w client \<Rightarrow> f64 \<times> 'w client" where
  "clock f c = (case monotonic_ms (e_peer (f_env f)) (r_world (cl_reactor c)) of
     (ms, w) \<Rightarrow> (ms, c\<lparr> cl_reactor := (cl_reactor c)\<lparr> r_world := w \<rparr> \<rparr>))"

definition parse_args :: "'w ffi \<Rightarrow> string option \<Rightarrow> (string, json) result" where
  "parse_args f args_json = (case args_json of
     None \<Rightarrow> Inr (JObject [])
   | Some raw \<Rightarrow> (case f_from_str f (lossy raw) of Inl e \<Rightarrow> Inl (''invalid args_json: '' @ e) | Inr v \<Rightarrow> Inr v))"

definition parse_uploads :: "'w ffi \<Rightarrow> string option \<Rightarrow> (string, (string \<times> FileRef) list option) result" where
  "parse_uploads f uploads_json = (case uploads_json of
     None \<Rightarrow> Inr None
   | Some raw \<Rightarrow> (case f_uploads f (lossy raw) of Inl e \<Rightarrow> Inl (''invalid uploads_json: '' @ e) | Inr v \<Rightarrow> Inr v))"

text \<open>A malformed argument is reported inside the call, on the thread that made it, past the gate.\<close>

definition refuse_at_once :: "nat option \<Rightarrow> nat \<Rightarrow> string \<Rightarrow> 'w client \<Rightarrow> 'w client" where
  "refuse_at_once completion userdata message c = call_host (case completion of
     None \<Rightarrow> None
   | Some fn \<Rightarrow> map_option (\<lambda>msg. Call_Completion fn (-1) None (Some msg) userdata) (CString_new message)) c"

definition send_command_live ::
    "'w ffi \<Rightarrow> string \<Rightarrow> string option \<Rightarrow> string option \<Rightarrow> nat option \<Rightarrow> nat \<Rightarrow> 'w client \<Rightarrow> 'w client" where
  "send_command_live f name args_json uploads_json completion userdata c = (case clock f c of (entered, c) \<Rightarrow>
     (case parse_args f args_json of
        Inl e \<Rightarrow> refuse_at_once completion userdata e c
      | Inr args \<Rightarrow> (case parse_uploads f uploads_json of
          Inl e \<Rightarrow> refuse_at_once completion userdata e c
        | Inr ups \<Rightarrow> (case clock f c of (parsed, c) \<Rightarrow>
            spawn_completion (Completion_new completion userdata ''send_command'')
              (Op_Command (lossy name) args ups \<lparr> entered_ms = entered, parsed_ms = parsed \<rparr>
                 (mt_generation (r_message_times (cl_reactor c)))) c))))"

definition reactor_send_command where
  "reactor_send_command f name args_json uploads_json completion userdata h =
     map_option (send_command_live f name args_json uploads_json completion userdata) h"

text \<open>The checks of a step, and the frames it takes, on the caller's thread.\<close>

definition begin_request :: "'w ffi \<Rightarrow> string option \<Rightarrow> string option \<Rightarrow> ('w reactor, RequestStep) io" where
  "begin_request f state_json commands_json =
     bindE (liftE (parse_state (f_from_str f) (opt_string state_json))) (\<lambda>state.
     bindE (liftE (parse_commands (f_from_str f) (opt_string commands_json))) (\<lambda>cmds.
     begin_step (f_env f) state cmds))"

definition step_live :: "'w ffi \<Rightarrow> string option \<Rightarrow> string option \<Rightarrow> nat option \<Rightarrow> nat \<Rightarrow> 'w client \<Rightarrow> 'w client" where
  "step_live f state_json commands_json completion userdata c =
     (case on_reactor (attemptE (begin_request f state_json commands_json)) c of
        (Inr begun, c) \<Rightarrow> start completion userdata (Stepping \<lparr> sc_fn = completion, sc_userdata = userdata \<rparr> begun) c
      | (Inl _, c) \<Rightarrow> c)"

definition reactor_step where
  "reactor_step f state_json commands_json completion userdata h =
     map_option (step_live f state_json commands_json completion userdata) h"

end
