(* ===== verification/Ffi_Client.thy ===== *)
theory Ffi_Client
  imports Ffi_Calls Reactor_Sample
begin

text \<open>
  A client as the host uses it: calls that start operations, their tasks, and the control thread, one
  step after the other. Every completion the host hands in is resolved at most once, and is never lost
  but by a panic. The frames and samples the host pushes, and what it reads back at once, are at the end.
\<close>

section \<open>Steps of a client\<close>

datatype client_act =
    Start_Op string "nat option" nat ffi_op
  | Start_Command string "string option" "string option" "nat option" nat
  | Start_Step "string option" "string option" "nat option" nat
  | Run_Task nat
  | Forward_Event
  | Run_Job bool

fun client_step :: "'w ffi \<Rightarrow> CallbackSet option \<Rightarrow> client_act \<Rightarrow> 'w client \<Rightarrow> 'w client option" where
  "client_step f cbs (Start_Op name fn userdata operation) c = async_op name fn userdata operation (Some c)"
| "client_step f cbs (Start_Command name args ups fn userdata) c = reactor_send_command f name args ups fn userdata (Some c)"
| "client_step f cbs (Start_Step state cmds fn userdata) c = reactor_step f state cmds fn userdata (Some c)"
| "client_step f cbs (Run_Task i) c = run_task f i c"
| "client_step f cbs Forward_Event c = forward_event cbs c"
| "client_step f cbs (Run_Job admitted) c = run_job f cbs admitted c"

fun client_run :: "'w ffi \<Rightarrow> CallbackSet option \<Rightarrow> client_act list \<Rightarrow> 'w client \<Rightarrow> 'w client option" where
  "client_run f cbs [] c = Some c"
| "client_run f cbs (a # as) c = Option.bind (client_step f cbs a c) (client_run f cbs as)"

section \<open>Where a completion is\<close>

fun task_target :: "ffi_task \<Rightarrow> (nat option \<times> nat) option" where
  "task_target (Operating completion _) = Some (c_fn completion, c_userdata completion)"
| "task_target (Stepping completion _) = Some (sc_fn completion, sc_userdata completion)"
| "task_target _ = None"

fun job_target :: "control_job \<Rightarrow> (nat \<times> nat option \<times> nat) option" where
  "job_target (Resolve i completion _) = Some (i, c_fn completion, c_userdata completion)"
| "job_target (Resolve_Step i completion _) = Some (i, sc_fn completion, sc_userdata completion)"
| "job_target (Dispatch _) = None"

definition holding :: "tracked_task list \<Rightarrow> (nat \<times> nat option \<times> nat) list" where
  "holding ts = List.map_filter (\<lambda>t. map_option (Pair (tk_id t)) (task_target (tk_task t))) (filter (\<lambda>t. \<not> tk_finished t) ts)"

definition pending :: "'w client \<Rightarrow> (nat \<times> nat option \<times> nat) list" where
  "pending c = holding (cl_tasks c)"

definition queued :: "'w client \<Rightarrow> (nat \<times> nat option \<times> nat) list" where
  "queued c = List.map_filter job_target (cl_control c)"

fun host_fn :: "host_call \<Rightarrow> nat" where
  "host_fn (Call_Completion fn _ _ _ _) = fn"
| "host_fn (Call_Step fn _ _ _ _) = fn"
| "host_fn (Call_Event fn _ _) = fn"

fun host_userdata :: "host_call \<Rightarrow> nat" where
  "host_userdata (Call_Completion _ _ _ _ ud) = ud"
| "host_userdata (Call_Step _ _ _ _ ud) = ud"
| "host_userdata (Call_Event _ _ ud) = ud"

text \<open>JSON text has its control characters escaped, so no NUL is in it.\<close>

definition clean_json :: "'w ffi \<Rightarrow> bool" where
  "clean_json f \<longleftrightarrow> (\<forall>j. CHR 0x00 \<notin> set (f_to_string f j)) \<and> (\<forall>d text. f_details f d = Some text \<longrightarrow> CHR 0x00 \<notin> set text)"

definition resolution_ok :: "'w ffi \<Rightarrow> 'w client \<Rightarrow> nat \<times> bool \<times> host_call option \<Rightarrow> bool" where
  "resolution_ok f c = (\<lambda>(i, admitted, call). \<exists>fn userdata. (i, fn, userdata) \<in> set (cl_started c)
     \<and> (case call of Some h \<Rightarrow> admitted \<and> fn = Some (host_fn h) \<and> userdata = host_userdata h
        | None \<Rightarrow> clean_json f \<longrightarrow> \<not> admitted \<or> fn = None))"

definition tasks_ok :: "'w client \<Rightarrow> bool" where
  "tasks_ok c \<longleftrightarrow> distinct (map tk_id (cl_tasks c)) \<and> (\<forall>t\<in>set (cl_tasks c). tk_id t < cl_next_task c)"

definition targets_ok :: "'w client \<Rightarrow> bool" where
  "targets_ok c \<longleftrightarrow> distinct (map fst (cl_started c)) \<and> (\<forall>s\<in>set (cl_started c). fst s < cl_next_task c)
     \<and> set (pending c) \<union> set (queued c) \<subseteq> set (cl_started c)"

definition ids_ok :: "'w client \<Rightarrow> bool" where
  "ids_ok c \<longleftrightarrow> mset (map fst (cl_started c)) =
     mset (map fst (pending c)) + mset (map fst (queued c)) + mset (map fst (cl_resolved c)) + mset (cl_panicked c)"

definition client_ok :: "'w ffi \<Rightarrow> 'w client \<Rightarrow> bool" where
  "client_ok f c \<longleftrightarrow> tasks_ok c \<and> targets_ok c \<and> ids_ok c \<and> (\<forall>x\<in>set (cl_resolved c). resolution_ok f c x)"

section \<open>What a task does to the client\<close>

text \<open>Beside the reactor, the body of an operation can only spawn tasks that take no completion.\<close>

definition same_books :: "'w client \<Rightarrow> 'w client \<Rightarrow> bool" where
  "same_books c c' \<longleftrightarrow> tasks_ok c' \<and> pending c' = pending c \<and> cl_control c' = cl_control c \<and> cl_started c' = cl_started c
     \<and> cl_resolved c' = cl_resolved c \<and> cl_panicked c' = cl_panicked c \<and> cl_next_task c \<le> cl_next_task c'"

lemma holding_append: "holding (ts @ us) = holding ts @ holding us"
  by (simp add: holding_def List.map_filter_def)

lemma holding_unfinished: "holding (filter (\<lambda>t. \<not> tk_finished t) ts) = holding ts"
  by (simp add: holding_def)

lemma same_books_refl: "tasks_ok c \<Longrightarrow> same_books c c"
  by (simp add: same_books_def)

lemma tasks_spawn: "tasks_ok c \<Longrightarrow> tasks_ok (spawn_tracked task c)"
  by (auto simp: tasks_ok_def spawn_tracked_def distinct_map inj_on_def less_Suc_eq)

lemma same_books_spawn:
  "same_books c c' \<Longrightarrow> task_target task = None \<Longrightarrow> same_books c (spawn_tracked task c')"
  by (auto simp: same_books_def tasks_spawn)
     (simp_all add: spawn_tracked_def pending_def holding_append holding_unfinished holding_def List.map_filter_def)

lemma same_books_reactor: "same_books c (c'\<lparr> cl_reactor := r \<rparr>) = same_books c c'"
  by (simp add: same_books_def tasks_ok_def pending_def)

lemma preserves_on_reactor: "preserves (on_reactor m) (same_books c)"
  by (simp add: preserves_def on_reactor_def same_books_reactor split: prod.splits)

lemma preserves_background: "preserves spawn_background (same_books c)"
  by (simp add: preserves_def spawn_background_def bindE_def modifyE_def same_books_spawn)

lemma preserves_body: "preserves (operation_body f operation) (same_books c)"
  by (cases operation)
     (auto simp: connect_body_def reconnect_body_def intro!: inv_intros preserves_on_reactor preserves_background)

lemma preserves_operation: "preserves (run_operation f operation) (same_books c)"
  by (auto simp: run_operation_def split: ffi_op.split intro!: inv_intros preserves_body preserves_on_reactor)

lemma preserves_step_body: "preserves (step_body f begun) (same_books c)"
  by (auto simp: step_body_def split: sum.split intro!: inv_intros preserves_on_reactor)

section \<open>Every step keeps the books\<close>

lemma holding_gone: "i \<notin> tk_id ` set ts \<Longrightarrow> map (\<lambda>t. if tk_id t = i then t\<lparr> tk_finished := True \<rparr> else t) ts = ts"
  by (induction ts) auto

lemma holding_Cons:
  "holding (t # ts) = (if tk_finished t then [] else case task_target (tk_task t) of None \<Rightarrow> [] | Some tg \<Rightarrow> [(tk_id t, tg)]) @ holding ts"
  by (simp add: holding_def List.map_filter_def split: option.split)

lemma holding_ids: "(i, tg) \<in> set (holding ts) \<Longrightarrow> i \<in> tk_id ` set ts"
  by (induction ts) (auto simp: holding_Cons holding_def List.map_filter_def split: if_splits option.splits)

lemma holding_finish:
  "distinct (map tk_id ts) \<Longrightarrow> (i, tg) \<in> set (holding ts)
   \<Longrightarrow> mset (holding ts) = add_mset (i, tg) (mset (holding (map (\<lambda>t. if tk_id t = i then t\<lparr> tk_finished := True \<rparr> else t) ts)))"
proof (induction ts)
  case Nil
  then show ?case by (simp add: holding_def List.map_filter_def)
next
  case (Cons t ts)
  show ?case
  proof (cases "tk_id t = i")
    case True
    with Cons.prems have gone: "i \<notin> tk_id ` set ts" by auto
    then have "(i, tg) \<notin> set (holding ts)" using holding_ids by blast
    with Cons.prems True gone show ?thesis
      by (cases "task_target (tk_task t)") (auto simp: holding_Cons holding_gone split: if_splits)
  next
    case False
    with Cons show ?thesis by (auto simp: holding_Cons split: if_splits option.splits)
  qed
qed

lemma client_ok_frame:
  "client_ok f (c\<lparr> cl_reactor := r \<rparr>) = client_ok f c"
  "client_ok f (c\<lparr> cl_forwarded := n \<rparr>) = client_ok f c"
  "client_ok f (c\<lparr> cl_host_calls := hs \<rparr>) = client_ok f c"
  by (simp_all add: client_ok_def tasks_ok_def targets_ok_def ids_ok_def pending_def queued_def resolution_ok_def)

lemma client_ok_same:
  "cl_tasks c' = cl_tasks c \<Longrightarrow> cl_next_task c' = cl_next_task c \<Longrightarrow> cl_started c' = cl_started c
   \<Longrightarrow> cl_resolved c' = cl_resolved c \<Longrightarrow> cl_panicked c' = cl_panicked c \<Longrightarrow> queued c' = queued c
   \<Longrightarrow> client_ok f c \<longleftrightarrow> client_ok f c'"
  by (simp add: client_ok_def tasks_ok_def targets_ok_def ids_ok_def pending_def resolution_ok_def)

lemma client_ok_call: "client_ok f (call_host call c) = client_ok f c"
  by (simp add: call_host_def client_ok_frame split: option.split)

lemma resolution_ok_more:
  "set (cl_started c) \<subseteq> set (cl_started c') \<Longrightarrow> resolution_ok f c x \<Longrightarrow> resolution_ok f c' x"
  unfolding resolution_ok_def by (cases x; simp; blast)

lemma start_ok:
  assumes ok: "client_ok f c" and tg: "task_target task = Some (fn, userdata)"
  shows "client_ok f (start fn userdata task c)"
proof -
  let ?c = "start fn userdata task c"
  have p: "pending ?c = pending c @ [(cl_next_task c, fn, userdata)]"
    using tg by (simp add: start_def spawn_tracked_def pending_def holding_append holding_unfinished)
      (simp add: holding_def List.map_filter_def)
  have s: "cl_started ?c = cl_started c @ [(cl_next_task c, fn, userdata)]" "queued ?c = queued c"
    "cl_resolved ?c = cl_resolved c" "cl_panicked ?c = cl_panicked c" "cl_next_task ?c = Suc (cl_next_task c)"
    by (simp_all add: start_def spawn_tracked_def queued_def)
  have "tasks_ok ?c"
    using ok tasks_spawn[of "c\<lparr> cl_started := cl_started ?c \<rparr>" task] by (simp add: client_ok_def start_def tasks_ok_def spawn_tracked_def)
  moreover have "targets_ok ?c"
    using ok by (auto simp: client_ok_def targets_ok_def p s)
  moreover have "ids_ok ?c"
    using ok by (simp add: client_ok_def ids_ok_def p s)
  moreover have "\<forall>x\<in>set (cl_resolved ?c). resolution_ok f ?c x"
    using ok resolution_ok_more[of c ?c f] by (auto simp: client_ok_def s)
  ultimately show ?thesis by (simp add: client_ok_def)
qed

lemma queued_send: "queued (send_job job c) = queued c @ (case job_target job of None \<Rightarrow> [] | Some tg \<Rightarrow> [tg])"
  by (simp add: queued_def send_job_def List.map_filter_def split: option.split)

lemma finish_books:
  "tasks_ok (finish i c) = tasks_ok c" "queued (finish i c) = queued c" "cl_started (finish i c) = cl_started c"
  "cl_resolved (finish i c) = cl_resolved c" "cl_panicked (finish i c) = cl_panicked c" "cl_next_task (finish i c) = cl_next_task c"
proof -
  have ids: "map tk_id (cl_tasks (finish i c)) = map tk_id (cl_tasks c)" by (simp add: finish_def)
  then have "tk_id ` set (cl_tasks (finish i c)) = tk_id ` set (cl_tasks c)" by (metis set_map)
  then have "(\<forall>t\<in>set (cl_tasks (finish i c)). tk_id t < n) = (\<forall>t\<in>set (cl_tasks c). tk_id t < n)" for n
    by (metis (no_types, lifting) image_iff)
  with ids show "tasks_ok (finish i c) = tasks_ok c" by (simp add: tasks_ok_def) (simp add: finish_def)
qed (simp_all add: finish_def queued_def)

lemma ended_ok:
  assumes ok: "client_ok f c" and t: "(i, tg) \<in> set (pending c)"
    and kept: "preserves m (same_books c)" and job: "\<And>res. job_target (job res) = Some (i, tg)"
  shows "client_ok f (ended i job (m c))"
proof -
  obtain res c1 where m: "m c = (res, c1)" by fastforce
  have same: "same_books c c1"
    using kept ok same_books_refl[of c] by (auto simp: preserves_def client_ok_def m dest: spec[of _ c])
  obtain c2 where e: "ended i job (m c) = finish i c2" and c2: "tasks_ok c2" "pending c2 = pending c"
      "cl_started c2 = cl_started c" "cl_resolved c2 = cl_resolved c" "cl_next_task c \<le> cl_next_task c2"
    and q: "queued c2 = queued c @ [(i, tg)] \<and> cl_panicked c2 = cl_panicked c
         \<or> queued c2 = queued c \<and> cl_panicked c2 = cl_panicked c @ [i]"
  proof (cases res)
    case (Inr x)
    show ?thesis
      by (rule that[of "send_job (job x) c1"])
         (use same Inr in \<open>simp_all add: ended_def m queued_send job same_books_def send_job_def tasks_ok_def pending_def queued_def List.map_filter_def\<close>)
  next
    case (Inl e)
    show ?thesis
      by (rule that[of "c1\<lparr> cl_panicked := cl_panicked c1 @ [i] \<rparr>"])
         (use same Inl in \<open>simp_all add: ended_def m same_books_def tasks_ok_def pending_def queued_def\<close>)
  qed
  have p: "mset (pending c) = add_mset (i, tg) (mset (pending (finish i c2)))"
    using holding_finish[of "cl_tasks c2" i tg] c2(1,2) t by (simp add: pending_def finish_def tasks_ok_def)
  then have ids: "mset (map fst (pending c)) = add_mset i (mset (map fst (pending (finish i c2))))"
    by (metis fst_conv image_mset_add_mset mset_map)
  have sub: "set (pending (finish i c2)) \<subseteq> set (pending c)"
    using p by (metis mset_subset_eq_insertD set_mset_add_mset_insert set_mset_mset subset_insertI)
  have "targets_ok (finish i c2)"
    using ok sub t q c2 by (auto simp: client_ok_def targets_ok_def finish_books)
  moreover have "ids_ok (finish i c2)"
    using ok q ids by (auto simp: client_ok_def ids_ok_def finish_books c2)
  ultimately show ?thesis
    using ok c2 by (auto simp: e client_ok_def finish_books resolution_ok_def)
qed

lemma pending_find:
  "find (\<lambda>t. tk_id t = i) (unfinished c) = Some t \<Longrightarrow> task_target (tk_task t) = Some tg \<Longrightarrow> (i, tg) \<in> set (pending c)"
  by (auto simp: find_Some_iff pending_def holding_def unfinished_def List.map_filter_def image_iff
      dest!: nth_mem intro!: bexI[of _ t])

lemma run_task_ok:
  assumes ok: "client_ok f c" and r: "run_task f i c = Some c'"
  shows "client_ok f c'"
proof -
  from r obtain t where t: "find (\<lambda>t. tk_id t = i) (unfinished c) = Some t"
    by (auto simp: run_task_def split: option.splits)
  show ?thesis
  proof (cases "tk_task t")
    case (Operating completion operation)
    with r t have c': "c' = ended i (\<lambda>(res, hook). Resolve i (completion\<lparr> c_before_callback := hook \<rparr>) res) (run_operation f operation c)"
      by (simp add: run_task_def)
    show ?thesis
      unfolding c'
      by (rule ended_ok[OF ok pending_find[OF t] preserves_operation, where tg = "(c_fn completion, c_userdata completion)"])
         (auto simp: Operating)
  next
    case (Stepping completion begun)
    with r t have c': "c' = ended i (Resolve_Step i completion) (step_body f begun c)" by (simp add: run_task_def)
    show ?thesis
      unfolding c'
      by (rule ended_ok[OF ok pending_find[OF t] preserves_step_body, where tg = "(sc_fn completion, sc_userdata completion)"])
         (auto simp: Stepping)
  qed (use r t in \<open>simp_all add: run_task_def\<close>)
qed

lemma hook_books: "client_ok f (run_hook g hook c) = client_ok f c"
  by (simp add: run_hook_def on_reactor_def client_ok_frame split: option.split prod.split)

lemma hook_control: "run_hook g hook (c\<lparr> cl_control := jobs \<rparr>) = (run_hook g hook c)\<lparr> cl_control := jobs \<rparr>"
  by (simp add: run_hook_def on_reactor_def split: option.split prod.split)

lemma recorded_ok:
  assumes "client_ok f (c\<lparr> cl_control := job # jobs \<rparr>)" and "job_target job = Some (i, fn, userdata)"
    and "case call of Some h \<Rightarrow> admitted \<and> fn = Some (host_fn h) \<and> userdata = host_userdata h
        | None \<Rightarrow> clean_json f \<longrightarrow> \<not> admitted \<or> fn = None"
  shows "client_ok f (record_resolved i admitted call (c\<lparr> cl_control := jobs \<rparr>))"
proof -
  have here: "(i, fn, userdata) \<in> set (cl_started c)"
    using assms(1,2) by (auto simp: client_ok_def targets_ok_def queued_def List.map_filter_def)
  show ?thesis
    unfolding record_resolved_def client_ok_call
    using assms here
    by (auto simp: client_ok_def tasks_ok_def targets_ok_def ids_ok_def pending_def queued_def List.map_filter_def resolution_ok_def)
qed

lemma clean_completed:
  "clean_json f \<Longrightarrow> CHR 0x00 \<notin> set (case v of Some j \<Rightarrow> f_to_string f j | None \<Rightarrow> ''{}'')"
  by (simp add: clean_json_def split: option.split)

lemma clean_error: "clean_json f \<Longrightarrow> error_json f e name \<noteq> None"
  by (auto simp: clean_json_def error_json_def CString_new_def fallback_error_json_def Let_def split: option.splits)

lemma resolve_call:
  "case resolve f admitted completion res of
     Some (hook, h) \<Rightarrow> admitted \<and> c_fn completion = Some (host_fn h) \<and> c_userdata completion = host_userdata h
   | None \<Rightarrow> clean_json f \<longrightarrow> \<not> admitted \<or> c_fn completion = None"
proof (cases "c_fn completion = None \<or> \<not> admitted")
  case True
  then show ?thesis by (auto simp: resolve_def split: option.split)
next
  case False
  then obtain fn where fn: "c_fn completion = Some fn" "admitted" by auto
  show ?thesis
  proof (cases res)
    case (Inl e)
    with fn clean_error[of f e "c_operation completion"] show ?thesis by (auto simp: resolve_def split: option.split)
  next
    case (Inr v)
    with fn clean_completed[of f v] show ?thesis by (auto simp: resolve_def CString_new_def split: option.split)
  qed
qed

lemma resolve_step_call:
  "case resolve_step f admitted completion res of
     Some h \<Rightarrow> admitted \<and> sc_fn completion = Some (host_fn h) \<and> sc_userdata completion = host_userdata h
   | None \<Rightarrow> clean_json f \<longrightarrow> \<not> admitted \<or> sc_fn completion = None"
  using clean_error[of f "projl res" "''step''"]
  by (cases res; cases "sc_fn completion"; cases admitted; cases "error_json f (projl res) ''step''")
     (auto simp: resolve_step_def)

lemma run_job_ok:
  assumes ok: "client_ok f c" and r: "run_job f cbs admitted c = Some c'"
  shows "client_ok f c'"
proof -
  from r obtain job jobs where q: "cl_control c = job # jobs" by (auto simp: run_job_def split: list.splits)
  then have ok': "client_ok f (c\<lparr> cl_control := job # jobs \<rparr>)" using ok by (metis client.surjective client.update_convs(4))
  show ?thesis
  proof (cases job)
    case (Resolve i completion res)
    note call = resolve_call[of f admitted completion res]
    show ?thesis
    proof (cases "resolve f admitted completion res")
      case None
      have "client_ok f (record_resolved i admitted None (c\<lparr> cl_control := jobs \<rparr>))"
        by (rule recorded_ok[OF ok', where fn = "c_fn completion" and userdata = "c_userdata completion"])
           (use call None Resolve in simp_all)
      with r q None Resolve show ?thesis by (simp add: run_job_def)
    next
      case (Some p)
      obtain hook h where p: "p = (hook, h)" by (cases p)
      let ?c = "run_hook f hook (c\<lparr> cl_control := jobs \<rparr>)"
      have "?c = (run_hook f hook c)\<lparr> cl_control := jobs \<rparr>" by (rule hook_control)
      moreover have "client_ok f ((run_hook f hook c)\<lparr> cl_control := job # jobs \<rparr>)"
        using ok' by (simp add: hook_books flip: hook_control)
      ultimately have "client_ok f (record_resolved i admitted (Some h) ?c)"
        using call Some Resolve p
        by (auto intro!: recorded_ok[where job = job and fn = "c_fn completion" and userdata = "c_userdata completion"])
      with r q Some Resolve p show ?thesis by (simp add: run_job_def)
    qed
  next
    case (Resolve_Step i completion res)
    have "client_ok f (record_resolved i admitted (resolve_step f admitted completion res) (c\<lparr> cl_control := jobs \<rparr>))"
      by (rule recorded_ok[OF ok', where fn = "sc_fn completion" and userdata = "sc_userdata completion"])
         (use resolve_step_call[of f admitted completion res] Resolve_Step in simp_all)
    with r q Resolve_Step show ?thesis by (simp add: run_job_def)
  next
    case (Dispatch event)
    have "client_ok f (c\<lparr> cl_control := jobs \<rparr>)"
      using ok' by (simp add: client_ok_def tasks_ok_def targets_ok_def ids_ok_def pending_def queued_def
          List.map_filter_def Dispatch resolution_ok_def)
    with r q Dispatch show ?thesis by (auto simp: run_job_def client_ok_call)
  qed
qed

lemma forward_ok:
  assumes "client_ok f c" and "forward_event cbs c = Some c'"
  shows "client_ok f c'"
proof -
  have "client_ok f c \<longleftrightarrow> client_ok f c'"
    by (rule client_ok_same) (use assms(2) in \<open>auto simp: forward_event_def queued_def send_job_def List.map_filter_def split: if_splits\<close>)
  with assms(1) show ?thesis by simp
qed

lemma clock_ok: "client_ok g (snd (clock f c)) = client_ok g c"
  by (simp add: clock_def client_ok_frame split: prod.split)

lemma spawn_completion_ok:
  "client_ok f c \<Longrightarrow> client_ok f (spawn_completion (Completion_new fn userdata name) operation c)"
  by (simp add: spawn_completion_def start_ok Completion_new_def)

lemma refused_ok: "client_ok g (refuse_at_once fn userdata msg c) = client_ok g c"
  by (simp add: refuse_at_once_def client_ok_call)

lemma send_command_ok:
  assumes "client_ok g c"
  shows "client_ok g (send_command_live f name args ups fn userdata c)"
proof -
  obtain ms c1 where c1: "clock f c = (ms, c1)" by fastforce
  obtain ms' c2 where c2: "clock f c1 = (ms', c2)" by fastforce
  have ok: "client_ok g c1" "client_ok g c2"
    using clock_ok[of g f c] clock_ok[of g f c1] assms by (simp_all add: c1 c2)
  show ?thesis
  proof (cases "parse_args f args")
    case (Inl e)
    then show ?thesis by (simp add: send_command_live_def c1 refused_ok ok)
  next
    case args: (Inr v)
    show ?thesis
      by (cases "parse_uploads f ups") (simp_all add: send_command_live_def c1 c2 args refused_ok ok spawn_completion_ok)
  qed
qed

lemma step_live_ok:
  assumes "client_ok g c"
  shows "client_ok g (step_live f state cmds fn userdata c)"
proof -
  obtain res r where m: "attemptE (begin_request f state cmds) (cl_reactor c) = (res, r)" by fastforce
  then show ?thesis
    using assms by (cases res) (simp_all add: step_live_def on_reactor_def client_ok_frame start_ok)
qed

lemma client_step_ok:
  assumes "client_step f cbs a c = Some c'" and "client_ok f c"
  shows "client_ok f c'"
proof (cases a)
  case (Start_Op name fn userdata operation)
  with assms show ?thesis by (auto simp: async_op_def spawn_completion_ok)
next
  case (Start_Command name args ups fn userdata)
  with assms show ?thesis by (auto simp: reactor_send_command_def send_command_ok)
next
  case (Start_Step state cmds fn userdata)
  with assms show ?thesis by (auto simp: reactor_step_def step_live_ok)
next
  case (Run_Task i)
  with assms show ?thesis by (simp add: run_task_ok)
next
  case Forward_Event
  with assms forward_ok show ?thesis by simp
next
  case (Run_Job admitted)
  with assms run_job_ok show ?thesis by simp
qed

lemma client_run_ok: "client_run f cbs acts c = Some c' \<Longrightarrow> client_ok f c \<Longrightarrow> client_ok f c'"
  by (induction acts arbitrary: c) (auto simp: bind_eq_Some_conv dest: client_step_ok)

lemma client_new_ok: "client_ok f (Client_new r)"
  by (simp add: client_ok_def Client_new_def tasks_ok_def targets_ok_def ids_ok_def pending_def queued_def holding_def
      List.map_filter_def)

section \<open>Properties\<close>

lemma pending_task:
  assumes "(i, tg) \<in> set (pending c)" and "tasks_ok c"
  shows "run_task f i c \<noteq> None"
proof -
  obtain t where t: "t \<in> set (unfinished c)" "tk_id t = i" "task_target (tk_task t) = Some tg"
    using assms(1) by (auto simp: pending_def holding_def unfinished_def List.map_filter_def)
  have "distinct (map tk_id (unfinished c))"
    using assms(2) by (auto simp: tasks_ok_def unfinished_def distinct_map intro: inj_on_subset)
  moreover obtain u where u: "find (\<lambda>t. tk_id t = i) (unfinished c) = Some u"
    using t by (cases "find (\<lambda>t. tk_id t = i) (unfinished c)") (auto simp: find_None_iff)
  moreover have "u \<in> set (unfinished c)" "tk_id u = i" using u by (auto simp: find_Some_iff)
  ultimately have "u = t" using t by (metis distinct_map inj_on_eq_iff)
  with u t(3) show ?thesis by (cases "tk_task t") (simp_all add: run_task_def)
qed


text \<open>A bound that is none, refused through its completion; another call is still running.\<close>

definition sample_ffi :: "nat ffi" where
  "sample_ffi = \<lparr> f_env = quick_env Stepped, f_from_str = (\<lambda>s. if s = ''[]'' then Inr (JArray []) else Inl ''expected value''),
     f_to_string = (\<lambda>_. ''{}''), f_details = (\<lambda>d. Some (ed_code d)), f_error_value = (\<lambda>_. None), f_capabilities_value = (\<lambda>_. None),
     f_uploads = (\<lambda>_. Inr None), f_stats_value = (\<lambda>_. Inr JNull), f_read_file = (\<lambda>_ r. (Inl ''not found'', r)),
     f_mime = (\<lambda>_. ''text/plain''), f_encoding = (\<lambda>_. None), f_h264 = 2 \<rparr>"

definition sample_acts :: "client_act list" where
  "sample_acts = [Start_Op ''set_bitrate'' (Some 7) 9 (Op_Bitrate (-5) (-1) (-1)), Start_Op ''disconnect'' (Some 8) 9 Op_Disconnect,
     Run_Task 0, Run_Job True]"

lemma sample_runs:
  "map_option (\<lambda>c. (map fst (cl_started c), map fst (pending c), queued c, cl_resolved c, cl_panicked c, cl_host_calls c))
     (client_run sample_ffi None sample_acts (Client_new quick_reactor))
   = Some ([0, 1], [1], [], [(0, True, Some (Call_Completion 7 0 None (Some ''INVALID_STATE'') 9))], [],
       [Call_Completion 7 0 None (Some ''INVALID_STATE'') 9])"
  by (simp add: sample_acts_def async_op_def spawn_completion_def start_def spawn_tracked_def Client_new_def
      Completion_new_def run_task_def unfinished_def run_operation_def set_bitrate_body_def bitrate_bound_def
      unit_result_def on_reactor_def io_eval ended_def finish_def send_job_def run_job_def resolve_def error_json_def
      sample_ffi_def error_details_def CString_new_def record_resolved_def run_hook_def call_host_def pending_def holding_def
      queued_def List.map_filter_def INVALID_STATE_def)


lemma find_last: "(\<forall>t\<in>set ts. \<not> P t) \<Longrightarrow> P u \<Longrightarrow> find P (ts @ [u]) = Some u"
  by (induction ts) auto

text \<open>
  C26: A command whose arguments are not JSON is answered inside the call, on the caller's thread and
  without asking the gate, with the code -1 and a plain message: nothing is sent, and no task is started. A
  step whose state is not JSON goes the usual way: it takes no input frame and leaves the reactor as it
  was, and its task queues the error for the control thread.
\<close>

theorem malformed_calls:
  assumes "client_run f cbs acts (Client_new r) = Some c"
    and "parse_args f args = Inl e" and "CHR 0x00 \<notin> set e" and "parse_state (f_from_str f) (opt_string state) = Inl err"
  shows "(\<exists>w. send_command_live f name args ups (Some fn) userdata c = c
            \<lparr> cl_reactor := (cl_reactor c)\<lparr> r_world := w \<rparr>,
              cl_host_calls := cl_host_calls c @ [Call_Completion fn (-1) None (Some e) userdata] \<rparr>)
    \<and> (\<exists>c' c''. step_live f state cmds (Some fn) userdata c = c' \<and> cl_reactor c' = cl_reactor c \<and> cl_host_calls c' = cl_host_calls c
          \<and> run_task f (cl_next_task c) c' = Some c'' \<and> cl_reactor c'' = cl_reactor c
          \<and> cl_control c'' = cl_control c @ [Resolve_Step (cl_next_task c) \<lparr> sc_fn = Some fn, sc_userdata = userdata \<rparr> (Inl err)])"
proof -
  have "client_ok f c" by (rule client_run_ok[OF assms(1) client_new_ok])
  then have fresh: "\<forall>t\<in>set (cl_tasks c). tk_id t \<noteq> cl_next_task c" by (auto simp: client_ok_def tasks_ok_def)
  obtain ms w where "monotonic_ms (e_peer (f_env f)) (r_world (cl_reactor c)) = (ms, w)" by fastforce
  then have "send_command_live f name args ups (Some fn) userdata c = c\<lparr> cl_reactor := (cl_reactor c)\<lparr> r_world := w \<rparr>,
      cl_host_calls := cl_host_calls c @ [Call_Completion fn (-1) None (Some e) userdata] \<rparr>"
    using assms(2,3) by (simp add: send_command_live_def clock_def refuse_at_once_def call_host_def CString_new_def)
  moreover
  let ?c = "step_live f state cmds (Some fn) userdata c"
  have c': "?c = start (Some fn) userdata (Stepping \<lparr> sc_fn = Some fn, sc_userdata = userdata \<rparr> (Inl err)) c"
    using assms(4) by (simp add: step_live_def begin_request_def on_reactor_def io_eval)
  have "find (\<lambda>t. tk_id t = cl_next_task c) (unfinished ?c)
      = Some \<lparr> tk_id = cl_next_task c, tk_task = Stepping \<lparr> sc_fn = Some fn, sc_userdata = userdata \<rparr> (Inl err), tk_finished = False \<rparr>"
    using fresh by (auto simp: c' unfinished_def start_def spawn_tracked_def intro!: find_last)
  then have "run_task f (cl_next_task c) ?c
      = Some (ended (cl_next_task c) (Resolve_Step (cl_next_task c) \<lparr> sc_fn = Some fn, sc_userdata = userdata \<rparr>) (Inr (Inl err), ?c))"
    by (simp add: run_task_def step_body_def io_eval map_ok_def)
  then have "run_task f (cl_next_task c) ?c = Some (finish (cl_next_task c)
      (send_job (Resolve_Step (cl_next_task c) \<lparr> sc_fn = Some fn, sc_userdata = userdata \<rparr> (Inl err)) ?c))"
    by (simp add: ended_def)
  moreover have "cl_reactor ?c = cl_reactor c" "cl_host_calls ?c = cl_host_calls c" "cl_control ?c = cl_control c"
    by (simp_all add: c' start_def spawn_tracked_def)
  ultimately show ?thesis by (auto simp: finish_def send_job_def)
qed

theorem malformed_calls_witness:
  "\<exists>w. send_command_live sample_ffi ''reset'' (Some ''{'') None (Some 7) 9 (Client_new quick_reactor)
     = (Client_new quick_reactor)\<lparr> cl_reactor := quick_reactor\<lparr> r_world := w \<rparr>,
          cl_host_calls := [Call_Completion 7 (-1) None (Some ''invalid args_json: expected value'') 9] \<rparr>"
proof -
  have brace: "lossy ''{'' = ''{''" "from_utf8_lossy ''{'' = ''{''" by code_simp+
  have parsed: "parse_args sample_ffi (Some ''{'') = Inl ''invalid args_json: expected value''"
    "parse_state (f_from_str sample_ffi) (opt_string (Some ''{'')) = Inl (Decode ''state_json is not valid JSON: expected value'')"
    by (simp_all add: parse_args_def parse_state_def opt_string_def brace sample_ffi_def)
  have "client_run sample_ffi None [] (Client_new quick_reactor) = Some (Client_new quick_reactor)" by simp
  from malformed_calls[OF this parsed(1) _ parsed(2), where name = "''reset''" and ups = None and fn = 7 and userdata = 9]
  show ?thesis by (simp add: Client_new_def)
qed

end
