(* ===== verification/Ffi_Sync.thy ===== *)
theory Ffi_Sync
  imports Ffi_Calls Audio_Input "HOL-Library.List_Lexorder" "HOL-Library.Char_ord"
begin

text \<open>
  The synchronous half of the C boundary (\<^verbatim>\<open>reactor-ffi/src/lib.rs\<close>): what the host reads back at once
  and the media it lends for a push. The memory a pointer leads to is the readable bytes from there on,
  \<^const>\<open>None\<close> for a null pointer; what a call passes on is a slice from its start. A null handle is
  \<^const>\<open>None\<close>, and a string handed to the host \<^const>\<open>None\<close> when it is a null pointer.
\<close>

section \<open>Reading back\<close>

definition reactor_status :: "'w client option \<Rightarrow> string" where
  "reactor_status h = (let s = (case h of None \<Rightarrow> ''disconnected'' | Some c \<Rightarrow> ReactorStatus_as_str (s_status (r_state (cl_reactor c)))) in
     if s = ''connecting'' then ''connecting''
     else if s = ''waiting'' then ''waiting''
     else if s = ''ready'' then ''ready''
     else ''disconnected'')"

definition reactor_session_id :: "'w client option \<Rightarrow> string option" where
  "reactor_session_id h = (case h of None \<Rightarrow> None
   | Some c \<Rightarrow> (case s_session_id (r_state (cl_reactor c)) of Some sid \<Rightarrow> CString_new sid | None \<Rightarrow> None))"

definition reactor_tracks :: "(TrackCapability list \<Rightarrow> string option) \<Rightarrow> 'w client option \<Rightarrow> string option" where
  "reactor_tracks to_string h = (case h of None \<Rightarrow> None
   | Some c \<Rightarrow> (case to_string (s_tracks (r_state (cl_reactor c))) of Some text \<Rightarrow> CString_new text | None \<Rightarrow> None))"

text \<open>Names are sorted by their bytes.\<close>

definition reactor_paused_tracks :: "'w ffi \<Rightarrow> 'w client option \<Rightarrow> string option" where
  "reactor_paused_tracks f h = (case h of None \<Rightarrow> None
   | Some c \<Rightarrow> CString_new (f_to_string f (JArray (map JString (sorted_list_of_set (s_paused_tracks (r_state (cl_reactor c))))))))"

definition error_details_ptr :: "'w ffi \<Rightarrow> CoreError \<Rightarrow> string \<Rightarrow> string option" where
  "error_details_ptr f err operation = error_json f err operation"

definition reactor_unpublish_track :: "'w ffi \<Rightarrow> string \<Rightarrow> 'w client option \<Rightarrow> string option \<times> 'w client option" where
  "reactor_unpublish_track f name h = (case h of
     None \<Rightarrow> (error_details_ptr f (InvalidState ''no active handle'') ''unpublish_track'', None)
   | Some c \<Rightarrow> (case on_reactor (unpublish_track (f_env f) (lossy name)) c of
       (Inl (Fail err), c) \<Rightarrow> (error_details_ptr f err ''unpublish_track'', Some c)
     | (_, c) \<Rightarrow> (None, Some c)))"

definition reactor_push_begin :: "'w client option \<Rightarrow> u64" where
  "reactor_push_begin h = (case h of None \<Rightarrow> 0 | Some c \<Rightarrow> st_generation (r_stage_times (cl_reactor c)))"

definition reactor_clear_step_inputs :: "'w client option \<Rightarrow> 'w client option" where
  "reactor_clear_step_inputs h = map_option (\<lambda>c. snd (on_reactor clear_step_inputs c)) h"

text \<open>The frame the host's callback is delivering on this thread, until the host marks it.\<close>

record Delivering =
  dl_track :: string
  dl_elapsed_ms :: f64
  dl_generation :: u64

definition Delivering_record :: "Delivering \<Rightarrow> StageTimes \<Rightarrow> StageTimes" where
  "Delivering_record d st = st_add_from (dl_generation d) (dl_track d) DELIVERY (dl_elapsed_ms d) st"

definition reactor_frame_delivered :: "Delivering option \<Rightarrow> StageTimes \<Rightarrow> Delivering option \<times> StageTimes" where
  "reactor_frame_delivered here st = (case here of None \<Rightarrow> (None, st) | Some d \<Rightarrow> (None, Delivering_record d st))"

section \<open>Lent media\<close>

definition run_live :: "('w reactor, unit) io \<Rightarrow> 'w client \<Rightarrow> 'w client" where
  "run_live m c = snd (on_reactor m c)"

definition reactor_push_video_frame ::
    "'w ffi \<Rightarrow> string option \<Rightarrow> bytes option \<Rightarrow> u32 \<Rightarrow> u32 \<Rightarrow> 'w client option \<Rightarrow> 'w client option" where
  "reactor_push_video_frame f track_name data width height h = (case (h, track_name, data) of
     (Some c, Some name, Some mem) \<Rightarrow>
       Some (run_live (push_video_frame (f_env f) (lossy name) (take (frame_len width height) mem) width height) c)
   | _ \<Rightarrow> h)"

definition reactor_push_video_frame_with_metadata ::
    "'w ffi \<Rightarrow> string option \<Rightarrow> bytes option \<Rightarrow> u32 \<Rightarrow> u32 \<Rightarrow> bytes option \<Rightarrow> u32 \<Rightarrow> 'w client option \<Rightarrow> 'w client option" where
  "reactor_push_video_frame_with_metadata f track_name data width height user_data user_data_len h =
     (case (h, track_name, data) of
        (Some c, Some name, Some mem) \<Rightarrow>
          Some (run_live (push_video_frame_with_metadata (f_env f) (lossy name) (take (frame_len width height) mem)
            width height (lent_tag user_data user_data_len)) c)
      | _ \<Rightarrow> h)"

definition reactor_push_video_frame_with_metadata_at ::
    "'w ffi \<Rightarrow> string option \<Rightarrow> bytes option \<Rightarrow> u32 \<Rightarrow> u32 \<Rightarrow> bytes option \<Rightarrow> u32 \<Rightarrow> i64 \<Rightarrow> 'w client option \<Rightarrow> 'w client option" where
  "reactor_push_video_frame_with_metadata_at f track_name data width height user_data user_data_len capture_time_us h =
     (case (h, track_name, data) of
        (Some c, Some name, Some mem) \<Rightarrow>
          Some (run_live (push_video_frame_with_metadata_at (f_env f) (lossy name) (take (frame_len width height) mem)
            width height (lent_tag user_data user_data_len) capture_time_us) c)
      | _ \<Rightarrow> h)"

definition reactor_push_video_frame_timed ::
    "'w ffi \<Rightarrow> string option \<Rightarrow> bytes option \<Rightarrow> u32 \<Rightarrow> u32 \<Rightarrow> bytes option \<Rightarrow> u32 \<Rightarrow> bool \<Rightarrow> i64 \<Rightarrow> f64 \<Rightarrow> u64
     \<Rightarrow> 'w client option \<Rightarrow> 'w client option" where
  "reactor_push_video_frame_timed f track_name data width height user_data user_data_len has_capture_time capture_time_us
     binding_ms gen h = (case (h, track_name, data) of
        (Some c, Some name, Some mem) \<Rightarrow>
          Some (run_live (push_video_frame_timed (f_env f) (lossy name) (take (frame_len width height) mem)
            width height (lent_tag user_data user_data_len) (if has_capture_time then Some capture_time_us else None)
            binding_ms gen) c)
      | _ \<Rightarrow> h)"

definition reactor_push_step_encoded_video_frame ::
    "'w ffi \<Rightarrow> string option \<Rightarrow> int \<Rightarrow> bytes option \<Rightarrow> nat \<Rightarrow> u32 \<Rightarrow> u32 \<Rightarrow> bytes option \<Rightarrow> u32 \<Rightarrow> bool \<Rightarrow> i64
     \<Rightarrow> 'w client option \<Rightarrow> 'w client option" where
  "reactor_push_step_encoded_video_frame f track_name encoding data data_len width height user_data user_data_len
     has_capture_time capture_time_us h = (case (h, track_name, data) of
        (Some c, Some name, Some mem) \<Rightarrow>
          (case f_encoding f encoding of
             None \<Rightarrow> h
           | Some enc \<Rightarrow> Some (run_live (push_step_encoded_video_frame (f_env f) (lossy name) enc (take data_len mem)
               width height (lent_metadata user_data user_data_len)
               (if has_capture_time then Some capture_time_us else None)) c))
      | _ \<Rightarrow> h)"

definition reactor_push_audio_frame ::
    "'w ffi \<Rightarrow> string option \<Rightarrow> u16 list option \<Rightarrow> u32 \<Rightarrow> u32 \<Rightarrow> u32 \<Rightarrow> 'w client option \<Rightarrow> 'w client option" where
  "reactor_push_audio_frame f track_name data samples_per_channel sample_rate num_channels h =
     (case (h, track_name, data) of
        (Some c, Some name, Some mem) \<Rightarrow>
          if \<not> supported_format sample_rate num_channels then h
          else (case samples_len samples_per_channel num_channels of
            None \<Rightarrow> h
          | Some n \<Rightarrow> Some (run_live (push_audio_frame (f_env f) (lossy name) (take n mem) sample_rate num_channels) c))
      | _ \<Rightarrow> h)"

section \<open>Properties\<close>

lemma frame_len_mod: "frame_len width height = unat width * unat height * 4 mod 2 ^ 32"
  by (simp add: frame_len_def unat_word_ariths mod_mult_left_eq)

lemma mod_self_iff: "0 < n \<Longrightarrow> a mod n = a \<longleftrightarrow> a < n" for a n :: nat
  by (metis mod_less mod_less_divisor)

lemma frame_len_exact: "frame_len width height = unat width * unat height * 4 \<longleftrightarrow> unat width * unat height * 4 < 2 ^ 32"
  unfolding frame_len_mod by (rule mod_self_iff) simp

lemma samples_exact:
  assumes "supported_format rate channels"
  shows "samples_len samples channels = Some (unat samples * unat channels)"
proof -
  have "channels = 1 \<or> channels = 2" using assms by (auto simp: supported_format_def)
  then have "unat channels \<le> 2" by auto
  then have "unat samples * unat channels \<le> unat samples * 2" by simp
  also have "\<dots> < 2 ^ 33" using unsigned_less[of samples] by simp
  finally show ?thesis by (simp add: samples_len_def checked_mul_def usize_max_def)
qed

text \<open>A frame whose length wrapped is not the length its dimensions promise, so a stepped session refuses it.\<close>

lemma wrapped_refused:
  assumes "2 ^ 32 \<le> unat width * unat height * 4"
  shows "raw_video_frame w (take (frame_len width height) mem) width height Bgra metadata capture_time_us = None"
proof -
  have "frame_len width height < 2 ^ 32" by (simp add: frame_len_mod)
  moreover have "length (take (frame_len width height) mem) \<le> frame_len width height" by simp
  ultimately have "length (take (frame_len width height) mem) \<noteq> unat width * unat height * 4" using assms by linarith
  then show ?thesis by (auto simp: raw_video_frame_def checked_mul_def split: option.split)
qed

text \<open>
  C28: Of a lent frame the core is handed the frame's own bytes exactly when its length fits 32 bits; the
  length of a larger one wraps, so it is handed fewer bytes than the frame has, which a stepped session
  refuses whatever they are. Of lent samples it is handed all of them, in every supported format.
\<close>

theorem lent_media:
  assumes "unat width * unat height * 4 \<le> length mem" and "supported_format rate channels"
    and "unat samples * unat channels \<le> length pcm"
  shows "(\<exists>pixels. reactor_push_video_frame f (Some name) (Some mem) width height (Some c)
        = Some (run_live (push_video_frame (f_env f) (lossy name) pixels width height) c)
      \<and> length pixels = unat width * unat height * 4 mod 2 ^ 32
      \<and> (unat width * unat height * 4 < 2 ^ 32 \<longleftrightarrow> pixels = take (unat width * unat height * 4) mem)
      \<and> (2 ^ 32 \<le> unat width * unat height * 4
          \<longrightarrow> raw_video_frame (e_wire (f_env f)) pixels width height Bgra metadata capture_time_us = None))
    \<and> reactor_push_audio_frame f (Some name) (Some pcm) samples rate channels (Some c)
      = Some (run_live (push_audio_frame (f_env f) (lossy name) (take (unat samples * unat channels) pcm) rate channels) c)"
proof -
  let ?n = "unat width * unat height * 4"
  have "frame_len width height \<le> ?n" by (simp only: frame_len_mod mod_less_eq_dividend)
  then have len: "length (take (frame_len width height) mem) = ?n mod 2 ^ 32"
    using assms(1) by (simp only: length_take frame_len_mod)
  have whole: "?n < 2 ^ 32 \<longleftrightarrow> take (frame_len width height) mem = take ?n mem"
    using len assms(1) frame_len_exact[of width height] by (metis length_take min.absorb2 mod_self_iff zero_less_numeral zero_less_power)
  have "\<exists>pixels. reactor_push_video_frame f (Some name) (Some mem) width height (Some c)
        = Some (run_live (push_video_frame (f_env f) (lossy name) pixels width height) c)
      \<and> length pixels = ?n mod 2 ^ 32 \<and> (?n < 2 ^ 32 \<longleftrightarrow> pixels = take ?n mem)
      \<and> (2 ^ 32 \<le> ?n \<longrightarrow> raw_video_frame (e_wire (f_env f)) pixels width height Bgra metadata capture_time_us = None)"
    using len whole wrapped_refused[of width height]
    by (intro exI[of _ "take (frame_len width height) mem"]) (simp add: reactor_push_video_frame_def)
  moreover have "reactor_push_audio_frame f (Some name) (Some pcm) samples rate channels (Some c)
      = Some (run_live (push_audio_frame (f_env f) (lossy name) (take (unat samples * unat channels) pcm) rate channels) c)"
    using assms(2) by (simp add: reactor_push_audio_frame_def samples_exact)
  ultimately show ?thesis ..
qed

text \<open>A frame of 32768 pixels a side takes four gigabytes; its length wraps to nothing.\<close>

theorem lent_media_witness:
  "\<forall>(f :: nat ffi) c. \<exists>pixels. reactor_push_video_frame f (Some ''cam'') (Some (replicate (2 ^ 32) 0)) 32768 32768 (Some c)
        = Some (run_live (push_video_frame (f_env f) (lossy ''cam'') pixels 32768 32768) c)
      \<and> length pixels = 0 \<and> raw_video_frame (e_wire (f_env f)) pixels 32768 32768 Bgra None None = None"
proof (intro allI)
  fix f :: "nat ffi" and c
  show "\<exists>pixels. reactor_push_video_frame f (Some ''cam'') (Some (replicate (2 ^ 32) 0)) 32768 32768 (Some c)
        = Some (run_live (push_video_frame (f_env f) (lossy ''cam'') pixels 32768 32768) c)
      \<and> length pixels = 0 \<and> raw_video_frame (e_wire (f_env f)) pixels 32768 32768 Bgra None None = None"
    using lent_media [where width = 32768 and height = 32768 and mem = "replicate (2 ^ 32) 0" and rate = 48000 and channels = 2
        and samples = 1 and pcm = "[3, 4]" and f = f and c = c and name = "''cam''" and metadata = None and capture_time_us = None]
    by (auto simp: supported_format_def)
qed

end
