(* ===== verification/Wasm_Push.thy ===== *)
theory Wasm_Push
  imports Reactor_Invariant Stats
begin

text \<open>
  Frames pushed from a web page (\<^verbatim>\<open>reactor-wasm/src/pixels.rs\<close> and the push methods of
  \<^verbatim>\<open>reactor-wasm/src/client.rs\<close>). The core drops a frame it cannot take with no more than a log line,
  so the client checks what it is given and throws. A thrown \<^verbatim>\<open>JsValue\<close> is the error it is made from.
  The names of formats and codecs arrive as optional strings. \<open>umax\<close> is the largest \<^verbatim>\<open>usize\<close> of the
  target, which has 32 bits in a browser and 64 where the tests run; \<open>h264\<close> is the number of
  \<^verbatim>\<open>FrameEncoding::H264\<close> in the generated code.
\<close>

section \<open>Pixel formats and codecs\<close>

datatype PixelFormat = PF_Rgba | PF_Rgb | PF_Bgra

definition quoted :: "string \<Rightarrow> string" where
  "quoted s = [CHR 0x22] @ s @ [CHR 0x22]"

definition ticked :: "string \<Rightarrow> string" where
  "ticked s = [CHR 0x27] @ s @ [CHR 0x27]"

definition PixelFormat_parse :: "string option \<Rightarrow> (string, PixelFormat) result" where
  "PixelFormat_parse name = (let n = (case name of None \<Rightarrow> ''rgba'' | Some n \<Rightarrow> n) in
     if n = ''rgba'' then Inr PF_Rgba
     else if n = ''rgb'' then Inr PF_Rgb
     else if n = ''bgra'' then Inr PF_Bgra
     else Inl (''unknown pixel format '' @ ticked n @ '' (expected '' @ quoted ''rgba'' @ '', '' @ quoted ''rgb''
            @ '' or '' @ quoted ''bgra'' @ '')''))"

fun pf_bytes_per_pixel :: "PixelFormat \<Rightarrow> nat" where
  "pf_bytes_per_pixel PF_Rgb = 3"
| "pf_bytes_per_pixel PF_Rgba = 4"
| "pf_bytes_per_pixel PF_Bgra = 4"

fun pf_debug :: "PixelFormat \<Rightarrow> string" where
  "pf_debug PF_Rgba = ''Rgba''"
| "pf_debug PF_Rgb = ''Rgb''"
| "pf_debug PF_Bgra = ''Bgra''"

definition dimensions :: "u32 \<Rightarrow> u32 \<Rightarrow> string" where
  "dimensions width height = show_nat (unat width) @ ''x'' @ show_nat (unat height)"

definition usize_mul :: "nat \<Rightarrow> nat \<Rightarrow> nat \<Rightarrow> nat option" where
  "usize_mul umax a b = (if a * b \<le> umax then Some (a * b) else None)"

definition check_size :: "nat \<Rightarrow> nat \<Rightarrow> u32 \<Rightarrow> u32 \<Rightarrow> PixelFormat \<Rightarrow> (string, unit) result" where
  "check_size umax byte_length width height format =
     (if width = 0 \<or> height = 0 then Inl (''a '' @ dimensions width height @ '' frame has no pixels'')
      else case Option.bind (usize_mul umax (unat width) (unat height)) (\<lambda>pixels. usize_mul umax pixels (pf_bytes_per_pixel format)) of
        None \<Rightarrow> Inl (''a '' @ dimensions width height @ '' frame is too large'')
      | Some expected \<Rightarrow>
          if byte_length \<noteq> expected
          then Inl (show_nat byte_length @ '' bytes is not a '' @ dimensions width height @ '' '' @ pf_debug format
                    @ '' frame ('' @ show_nat expected @ '' bytes)'')
          else Inr ())"

datatype EncodedCodec = EC_H264

definition EncodedCodec_parse :: "string option \<Rightarrow> (string, EncodedCodec) result" where
  "EncodedCodec_parse name = (let n = (case name of None \<Rightarrow> ''h264'' | Some n \<Rightarrow> n) in
     if n = ''h264'' then Inr EC_H264
     else Inl (''unknown codec '' @ ticked n @ '' (expected '' @ quoted ''h264'' @ '')''))"

definition check_encoded :: "nat \<Rightarrow> u32 \<Rightarrow> u32 \<Rightarrow> (string, unit) result" where
  "check_encoded byte_length width height =
     (if byte_length = 0 then Inl ''an encoded frame needs data''
      else if width = 0 \<or> height = 0
      then Inl (''width and height are the decoded frame'' @ [CHR 0x27] @ ''s, and a '' @ dimensions width height @ '' frame has no pixels'')
      else Inr ())"

section \<open>The client's push methods\<close>

record ReactorClient =
  stepped :: bool

definition invalid :: "string \<Rightarrow> CoreError" where
  "invalid message = InvalidState message"

definition call_of :: "string \<Rightarrow> string \<Rightarrow> string" where
  "call_of operation name = operation @ ''('' @ ticked name @ '')''"

definition invalid_in :: "string \<Rightarrow> string \<Rightarrow> (string, 'a) result \<Rightarrow> ('s, 'a) io" where
  "invalid_in operation name r = (case r of
     Inl e \<Rightarrow> failE (invalid (call_of operation name @ '': '' @ e))
   | Inr x \<Rightarrow> retE x)"

fun track_kind_name :: "TrackKind \<Rightarrow> string" where
  "track_kind_name Video = ''video''"
| "track_kind_name Audio = ''audio''"

fun direction_str :: "TrackDirection \<Rightarrow> string" where
  "direction_str Recvonly = ''recvonly''"
| "direction_str Sendonly = ''sendonly''"

definition ensure_pushable :: "ReactorClient \<Rightarrow> string \<Rightarrow> string \<Rightarrow> TrackKind \<Rightarrow> ('w reactor, unit) io" where
  "ensure_pushable c operation name kind =
     (if \<not> stepped c
      then failE (invalid (call_of operation name @ '' needs a session created with generation: '' @ quoted ''stepped''
             @ ''; a streamed session sends media from a MediaStreamTrack given to publishTrack''))
      else
        bindE (readE s_tracks) (\<lambda>ts.
        if ts = [] then retE ()
        else case find (\<lambda>t. tc_name t = name) ts of
          Some t \<Rightarrow>
            if tc_direction t = Sendonly \<and> tc_kind t = kind then retE ()
            else failE (invalid (call_of operation name @ '': '' @ ticked name @ '' is a '' @ direction_str (tc_direction t)
                   @ '' '' @ track_kind_name (tc_kind t) @ '' track, not a sendonly '' @ track_kind_name kind @ '' one''))
        | None \<Rightarrow> failE (invalid (call_of operation name @ '': the model declares no track named '' @ ticked name))))"


definition capture_time :: "f64 option \<Rightarrow> string \<Rightarrow> string \<Rightarrow> ('s, i64 option) io" where
  "capture_time us operation name = (case us of
     None \<Rightarrow> retE None
   | Some us \<Rightarrow>
       if is_finite us then retE (Some (f64_as_i64 (f64_round us)))
       else failE (invalid (call_of operation name @ '': captureTimeUs must be a finite number'')))"

definition video_frame_format ::
    "nat \<Rightarrow> ReactorClient \<Rightarrow> string \<Rightarrow> nat \<Rightarrow> u32 \<Rightarrow> u32 \<Rightarrow> string option \<Rightarrow> ('w reactor, PixelFormat) io" where
  "video_frame_format umax c name byte_length width height format =
     bindE (ensure_pushable c ''pushVideoFrame'' name Video) (\<lambda>_.
     bindE (invalid_in ''pushVideoFrame'' name (PixelFormat_parse format)) (\<lambda>format.
     bindE (invalid_in ''pushVideoFrame'' name (check_size umax byte_length width height format)) (\<lambda>_.
     retE format)))"

fun layout_of :: "PixelFormat \<Rightarrow> PixelLayout" where
  "layout_of PF_Rgba = Rgba"
| "layout_of PF_Rgb = Rgb"
| "layout_of PF_Bgra = Bgra"

definition wasm_push_video_frame ::
    "nat \<Rightarrow> 'w env \<Rightarrow> ReactorClient \<Rightarrow> string \<Rightarrow> bytes \<Rightarrow> u32 \<Rightarrow> u32 \<Rightarrow> string option \<Rightarrow> bytes option \<Rightarrow> f64 option \<Rightarrow>
       ('w reactor, unit) io" where
  "wasm_push_video_frame umax e c name data width height format metadata capture_time_us =
     bindE (video_frame_format umax c name (length data) width height format) (\<lambda>format.
     bindE (capture_time capture_time_us ''pushVideoFrame'' name) (\<lambda>capture_time_us.
     push_step_video_frame e name data width height (layout_of format) metadata capture_time_us))"

definition check_video_frame ::
    "nat \<Rightarrow> ReactorClient \<Rightarrow> string \<Rightarrow> nat \<Rightarrow> u32 \<Rightarrow> u32 \<Rightarrow> string option \<Rightarrow> ('w reactor, unit) io" where
  "check_video_frame umax c name byte_length width height format =
     bindE (video_frame_format umax c name byte_length width height format) (\<lambda>_. retE ())"

definition encoded_frame_codec ::
    "ReactorClient \<Rightarrow> string \<Rightarrow> string option \<Rightarrow> nat \<Rightarrow> u32 \<Rightarrow> u32 \<Rightarrow> f64 option \<Rightarrow> ('w reactor, EncodedCodec \<times> i64 option) io" where
  "encoded_frame_codec c name codec byte_length width height capture_time_us =
     bindE (ensure_pushable c ''pushEncodedVideoFrame'' name Video) (\<lambda>_.
     bindE (invalid_in ''pushEncodedVideoFrame'' name (EncodedCodec_parse codec)) (\<lambda>codec.
     bindE (invalid_in ''pushEncodedVideoFrame'' name (check_encoded byte_length width height)) (\<lambda>_.
     bindE (capture_time capture_time_us ''pushEncodedVideoFrame'' name) (\<lambda>at_us. retE (codec, at_us)))))"

definition wasm_push_encoded_video_frame ::
    "int \<Rightarrow> 'w env \<Rightarrow> ReactorClient \<Rightarrow> string \<Rightarrow> string option \<Rightarrow> bytes \<Rightarrow> u32 \<Rightarrow> u32 \<Rightarrow> bytes option \<Rightarrow> f64 option \<Rightarrow>
       ('w reactor, unit) io" where
  "wasm_push_encoded_video_frame h264 e c name codec data width height metadata capture_time_us =
     bindE (encoded_frame_codec c name codec (length data) width height capture_time_us) (\<lambda>(codec, at_us).
     push_step_encoded_video_frame e name (case codec of EC_H264 \<Rightarrow> h264) data width height metadata at_us)"

definition check_encoded_video_frame ::
    "ReactorClient \<Rightarrow> string \<Rightarrow> string option \<Rightarrow> nat \<Rightarrow> u32 \<Rightarrow> u32 \<Rightarrow> f64 option \<Rightarrow> ('w reactor, unit) io" where
  "check_encoded_video_frame c name codec byte_length width height capture_time_us =
     bindE (encoded_frame_codec c name codec byte_length width height capture_time_us) (\<lambda>_. retE ())"

definition check_audio_frame :: "ReactorClient \<Rightarrow> string \<Rightarrow> u16 list \<Rightarrow> u32 \<Rightarrow> ('w reactor, unit) io" where
  "check_audio_frame c name samples channels =
     bindE (ensure_pushable c ''pushAudioFrame'' name Audio) (\<lambda>_.
     if channels = 0 \<or> length samples mod unat channels \<noteq> 0
     then failE (invalid (call_of ''pushAudioFrame'' name @ '': '' @ show_nat (length samples)
            @ '' samples do not divide into '' @ show_nat (unat channels) @ '' channels''))
     else retE ())"

definition wasm_push_audio_frame ::
    "'w env \<Rightarrow> ReactorClient \<Rightarrow> string \<Rightarrow> u16 list \<Rightarrow> u32 \<Rightarrow> u32 \<Rightarrow> ('w reactor, unit) io" where
  "wasm_push_audio_frame e c name samples sample_rate channels =
     bindE (check_audio_frame c name samples channels) (\<lambda>_.
     push_audio_frame e name samples sample_rate channels)"

section \<open>What the checks let through\<close>

text \<open>The declared tracks are those of the capabilities, on every interleaving.\<close>

definition tracks_inv :: "State \<Rightarrow> bool" where
  "tracks_inv s \<longleftrightarrow> (\<forall>caps. s_capabilities s = Some caps \<longrightarrow> s_tracks s = tracks caps)"

lemma tracks_inv_step: "atomic e r r' \<Longrightarrow> tracks_inv (r_state r) \<Longrightarrow> tracks_inv (r_state r')"
  by (induction rule: atomic.induct)
    (auto simp: tracks_inv_def section_defs beside_def elim!: quiet.cases split: option.splits)

lemma tracks_inv_trace: "trace e r r' \<Longrightarrow> tracks_inv (r_state r) \<Longrightarrow> tracks_inv (r_state r')"
  unfolding trace_def by (induction rule: rtranclp_induct) (auto intro: tracks_inv_step)

lemma tracks_inv_new: "tracks_inv (r_state (Reactor_new options world))"
  by (simp add: tracks_inv_def Reactor_new_def State_default_def)

lemma bindE_reads:
  "snd (m r) = r \<Longrightarrow> bindE m f r = (case fst (m r) of Inl err \<Rightarrow> (Inl err, r) | Inr y \<Rightarrow> f y r)"
  by (cases "m r") (auto simp: bindE_def split: sum.splits)

text \<open>The checks read the reactor and leave it as it is.\<close>

lemma reads [simp]:
  "snd (ensure_pushable c op name kind r) = r" "snd (invalid_in op name v s) = s" "snd (capture_time us op name s) = s"
  by (auto simp: ensure_pushable_def invalid_in_def capture_time_def bindE_def getE_def failE_def retE_def
      split: sum.splits option.splits)

lemma invalid_in_ok: "fst (invalid_in op name v s) = Inr y \<Longrightarrow> v = Inr y"
  by (auto simp: invalid_in_def failE_def retE_def split: sum.splits)

lemma ensure_pushable_takes:
  assumes "fst (ensure_pushable c op name kind r) = Inr ()" and "tracks_inv (r_state r)"
    and "name \<notin> s_paused_tracks (r_state r)"
    and "\<And>caps. s_capabilities (r_state r) = Some caps \<Longrightarrow> tracks caps \<noteq> []"
  shows "takes_step_input name kind (r_state r)"
proof (cases "s_capabilities (r_state r)")
  case (Some caps)
  then obtain t where "find (\<lambda>t. tc_name t = name) (tracks caps) = Some t" "tc_direction t = Sendonly" "tc_kind t = kind"
    using assms(1,2,4)
    by (auto simp: ensure_pushable_def tracks_inv_def bindE_def getE_def failE_def retE_def split: if_splits option.splits)
  then have "\<exists>t \<in> set (tracks caps). tc_name t = name \<and> tc_direction t = Sendonly \<and> tc_kind t = kind"
    by (metis (mono_tags, lifting) find_Some_iff nth_mem)
  then show ?thesis using Some assms(3) by (auto simp: takes_step_input_def list_ex_iff)
qed (use assms(3) in \<open>simp add: takes_step_input_def\<close>)

lemma ensure_pushable_stepped: "fst (ensure_pushable c op name kind r) = Inr () \<Longrightarrow> stepped c"
  by (auto simp: ensure_pushable_def failE_def split: if_splits)

text \<open>A frame of the size the client checked is a frame of the core's.\<close>

lemma layout_bytes: "bytes_per_pixel (layout_of f) = pf_bytes_per_pixel f"
  by (cases f) simp_all

lemma check_size_iff:
  "check_size umax n wd ht f = Inr () \<longleftrightarrow> wd \<noteq> 0 \<and> ht \<noteq> 0 \<and> n = unat wd * unat ht * pf_bytes_per_pixel f
     \<and> unat wd * unat ht * pf_bytes_per_pixel f \<le> umax"
proof -
  have "unat wd * unat ht \<le> unat wd * unat ht * pf_bytes_per_pixel f" by (cases f) simp_all
  then have "unat wd * unat ht * pf_bytes_per_pixel f \<le> umax \<Longrightarrow> unat wd * unat ht \<le> umax" by (rule order_trans)
  then show ?thesis by (auto simp: check_size_def usize_mul_def split: option.splits if_splits)
qed

lemma checked_frame_made:
  assumes "check_size umax (length px) wd ht fmt = Inr ()" and "umax \<le> usize_max"
  shows "\<exists>f. raw_video_frame w px wd ht (layout_of fmt) m t = Some f"
  using assms unfolding raw_video_frame_iff layout_bytes check_size_iff by auto

text \<open>A frame that is taken is the newest in the buffer.\<close>

lemma push_input_buffers:
  assumes "buffers (e_wire e) (r_step_inputs r) q"
  shows "\<exists>r' n. push_inputE e name k (Some f) r = (Inr (), r') \<and> n \<le> length q
     \<and> buffers (e_wire e) (r_step_inputs r') (drop n q @ [(name, f)])"
proof -
  let ?a = "(name, k, f, peer_max_message_bytes (e_peer e) (r_world r))"
  obtain b' n where "push_one (e_wire e) ?a (r_step_inputs r) = Some b'" "n \<le> length q"
    "buffers (e_wire e) b' (drop n (q @ [pushed_item ?a]))"
    using inputs.put_ok [OF assms, of ?a] by blast
  then show ?thesis by (intro exI [of _ "r\<lparr>r_step_inputs := b'\<rparr>"] exI [of _ n]) (simp add: push_inputE_def)
qed

text \<open>A push that succeeded went through all the checks, from a reactor they left as it was.\<close>

lemma codec_case [simp]: "(case c of EC_H264 \<Rightarrow> x) = x"
  by (cases c) simp

lemma video_push_passed:
  assumes "wasm_push_video_frame umax e c name px wd ht format meta us r = (x, r')"
  shows "(\<exists>err. x = Inl err \<and> r' = r) \<or> (\<exists>fmt at_us. fst (ensure_pushable c ''pushVideoFrame'' name Video r) = Inr ()
     \<and> check_size umax (length px) wd ht fmt = Inr ()
     \<and> push_step_video_frame e name px wd ht (layout_of fmt) meta at_us r = (x, r'))"
proof -
  let ?v = "video_frame_format umax c name (length px) wd ht format r"
  have v: "snd ?v = r" and f: "fst ?v = Inr fmt \<Longrightarrow> fst (ensure_pushable c ''pushVideoFrame'' name Video r) = Inr ()
      \<and> check_size umax (length px) wd ht fmt = Inr ()" for fmt
    by (auto simp: video_frame_format_def bindE_reads retE_def dest: invalid_in_ok split: sum.splits)
  show ?thesis using assms f
    by (auto simp: wasm_push_video_frame_def bindE_reads v split: sum.splits)
qed

lemma encoded_push_passed:
  assumes "wasm_push_encoded_video_frame h264 e c name codec data wd ht meta us r = (x, r')"
  shows "(\<exists>err. x = Inl err \<and> r' = r) \<or> (\<exists>at_us. fst (ensure_pushable c ''pushEncodedVideoFrame'' name Video r) = Inr ()
     \<and> check_encoded (length data) wd ht = Inr ()
     \<and> push_step_encoded_video_frame e name h264 data wd ht meta at_us r = (x, r'))"
proof -
  let ?v = "encoded_frame_codec c name codec (length data) wd ht us r"
  have v: "snd ?v = r" and f: "fst ?v = Inr p \<Longrightarrow> fst (ensure_pushable c ''pushEncodedVideoFrame'' name Video r) = Inr ()
      \<and> check_encoded (length data) wd ht = Inr ()" for p
    by (auto simp: encoded_frame_codec_def bindE_reads retE_def dest: invalid_in_ok split: sum.splits)
  show ?thesis using assms f
    by (auto simp: wasm_push_encoded_video_frame_def bindE_reads v split: sum.splits)
qed

lemma audio_push_passed:
  assumes "wasm_push_audio_frame e c name samples rate channels r = (x, r')"
  shows "(\<exists>err. x = Inl err \<and> r' = r) \<or> fst (ensure_pushable c ''pushAudioFrame'' name Audio r) = Inr ()
     \<and> channels \<noteq> 0 \<and> length samples mod unat channels = 0 \<and> push_audio_frame e name samples rate channels r = (x, r')"
proof -
  let ?v = "check_audio_frame c name samples channels r"
  have v: "snd ?v = r" and f: "fst ?v = Inr () \<Longrightarrow> fst (ensure_pushable c ''pushAudioFrame'' name Audio r) = Inr ()
      \<and> channels \<noteq> 0 \<and> length samples mod unat channels = 0"
    by (auto simp: check_audio_frame_def bindE_reads retE_def failE_def split: sum.splits if_splits)
  show ?thesis
  proof (cases "fst ?v")
    case (Inl err)
    then have "wasm_push_audio_frame e c name samples rate channels r = (Inl err, r)"
      by (simp add: wasm_push_audio_frame_def bindE_reads v)
    then show ?thesis using assms by simp
  next
    case (Inr u)
    then show ?thesis using assms f by (simp add: wasm_push_audio_frame_def bindE_reads v)
  qed
qed

section \<open>Properties\<close>

text \<open>
  C24: A frame a page may push is never silently dropped. A push either throws and leaves the client as
  it was, or puts the frame behind those buffered for the next step, possibly in place of the oldest of
  them. This holds in every state the client can reach, for a track that is not paused, when the model
  declared some track if it declared any capabilities: a push to a paused track, or to a model that
  declares no tracks, returns and is dropped.
\<close>

theorem pushed_frame_buffered:
  assumes reach: "trace e (Reactor_new options world) r" and b: "buffers (e_wire e) (r_step_inputs r) q"
    and c: "stepped c \<longleftrightarrow> is_stepped e" and pause: "name \<notin> s_paused_tracks (r_state r)"
    and caps: "\<And>cs. s_capabilities (r_state r) = Some cs \<Longrightarrow> tracks cs \<noteq> []"
    and umax: "umax \<le> usize_max" and h264: "h264 \<noteq> encoding_raw (e_wire e)" "h264 \<noteq> encoding_unspecified (e_wire e)"
    and push: "(x, r') \<in> {wasm_push_video_frame umax e c name px wd ht format meta us r,
        wasm_push_encoded_video_frame h264 e c name codec px wd ht meta us r,
        wasm_push_audio_frame e c name samples rate channels r}"
    and mem: "length samples < 2 ^ 32"
  shows "(\<exists>err. x = Inl err \<and> r' = r)
    \<or> (\<exists>f n. x = Inr () \<and> n \<le> length q \<and> buffers (e_wire e) (r_step_inputs r') (drop n q @ [(name, f)])
        \<and> ((\<exists>layout t. raw_video_frame (e_wire e) px wd ht layout meta t = Some f)
           \<or> (\<exists>t. encoded_video_frame (e_wire e) h264 px wd ht meta t = Some f)
           \<or> raw_audio_frame (e_wire e) samples channels = Some f))"
proof -
  have inv: "tracks_inv (r_state r)" using tracks_inv_trace [OF reach tracks_inv_new] .
  note takes = ensure_pushable_takes [OF _ inv pause caps]
  have buffered: "\<exists>r' n. push_inputE e name k (Some f) r = (Inr (), r') \<and> n \<le> length q
     \<and> buffers (e_wire e) (r_step_inputs r') (drop n q @ [(name, f)])" for k f
    using push_input_buffers [OF b] .
  consider "wasm_push_video_frame umax e c name px wd ht format meta us r = (x, r')"
    | "wasm_push_encoded_video_frame h264 e c name codec px wd ht meta us r = (x, r')"
    | "wasm_push_audio_frame e c name samples rate channels r = (x, r')" using push by auto
  then show ?thesis
  proof cases
    case 1
    from video_push_passed [OF 1] show ?thesis
    proof (elim disjE exE conjE)
      fix fmt at_us assume p: "fst (ensure_pushable c ''pushVideoFrame'' name Video r) = Inr ()"
        "check_size umax (length px) wd ht fmt = Inr ()" "push_step_video_frame e name px wd ht (layout_of fmt) meta at_us r = (x, r')"
      obtain f where f: "raw_video_frame (e_wire e) px wd ht (layout_of fmt) meta at_us = Some f"
        using checked_frame_made [OF p(2) umax] by blast
      show ?thesis using p(3) f c ensure_pushable_stepped [OF p(1)] takes [OF p(1)] buffered [of "kind_video (e_wire e)" f]
        by (fastforce simp: push_step_video_frame_def buffer_video_frame_def bindE_def getE_def whenE_def)
    qed simp
  next
    case 2
    from encoded_push_passed [OF 2] show ?thesis
    proof (elim disjE exE conjE)
      fix at_us assume p: "fst (ensure_pushable c ''pushEncodedVideoFrame'' name Video r) = Inr ()"
        "check_encoded (length px) wd ht = Inr ()" "push_step_encoded_video_frame e name h264 px wd ht meta at_us r = (x, r')"
      obtain f where f: "encoded_video_frame (e_wire e) h264 px wd ht meta at_us = Some f"
        using p(2) h264 by (auto simp: encoded_video_frame_def check_encoded_def split: if_splits)
      show ?thesis using p(3) f c ensure_pushable_stepped [OF p(1)] takes [OF p(1)] buffered [of "kind_video (e_wire e)" f]
        by (fastforce simp: push_step_encoded_video_frame_def bindE_def getE_def whenE_def)
    qed simp
  next
    case 3
    from audio_push_passed [OF 3] show ?thesis
    proof (elim disjE exE conjE)
      assume p: "fst (ensure_pushable c ''pushAudioFrame'' name Audio r) = Inr ()" "channels \<noteq> 0"
        "length samples mod unat channels = 0" "push_audio_frame e name samples rate channels r = (x, r')"
      have "length samples div unat channels < 2 ^ 32" using mem div_le_dividend order_le_less_trans by blast
      then obtain f where f: "raw_audio_frame (e_wire e) samples channels = Some f"
        using p(2,3) by (auto simp: raw_audio_frame_def Let_def unat_eq_0)
      show ?thesis using p(4) f c ensure_pushable_stepped [OF p(1)] takes [OF p(1)] buffered [of "kind_audio (e_wire e)" f]
        by (fastforce simp: push_audio_frame_def bindE_def getE_def whenE_def)
    qed simp
  qed
qed

theorem pushed_frame_buffered_witness:
  "\<exists>x r'. wasm_push_video_frame (2 ^ 32 - 1) (quick_env Stepped) \<lparr> stepped = True \<rparr> ''cam'' [1, 2, 3, 4] 1 1 None None None
      (Reactor_new (ReactorOptions_new ''0'' ''http://host'' ''m'') 0) = (x, r')
     \<and> (\<exists>f n. x = Inr () \<and> buffers (e_wire (quick_env Stepped)) (r_step_inputs r') (drop n [] @ [(''cam'', f)]))"
proof -
  let ?e = "quick_env Stepped" and ?o = "ReactorOptions_new ''0'' ''http://host'' ''m''" and ?r = "Reactor_new (ReactorOptions_new ''0'' ''http://host'' ''m'') 0 :: nat reactor" and ?c = "\<lparr> stepped = True \<rparr>"
  have ok: "ensure_pushable ?c op name kind ?r = (Inr (), ?r)" for op name kind
    by (simp add: ensure_pushable_def bindE_def getE_def retE_def Reactor_new_def State_default_def)
  have "check_size (2 ^ 32 - 1) (Suc (Suc (Suc (Suc 0)))) 1 1 PF_Rgba = Inr ()" unfolding check_size_iff by simp
  then have v: "video_frame_format (2 ^ 32 - 1) ?c ''cam'' (length [1, 2, 3, 4 :: byte]) 1 1 None ?r = (Inr PF_Rgba, ?r)"
    by (simp add: video_frame_format_def ok bindE_def PixelFormat_parse_def invalid_in_def retE_def)
  obtain f where f: "raw_video_frame sample_wire [1, 2, 3, 4] 1 1 Rgba None None = Some f"
    by (simp add: raw_video_frame_iff usize_max_def)
  obtain r' n where r': "push_inputE ?e ''cam'' (kind_video sample_wire) (Some f) ?r = (Inr (), r')"
    using push_input_buffers [of ?e ?r "[]"] buffers_default by (fastforce simp: Reactor_new_def)
  have "takes_step_input ''cam'' Video (r_state ?r)"
    by (simp add: takes_step_input_def Reactor_new_def State_default_def)
  then have p: "wasm_push_video_frame (2 ^ 32 - 1) ?e ?c ''cam'' [1, 2, 3, 4] 1 1 None None None ?r = (Inr (), r')"
    using v r' f by (simp add: wasm_push_video_frame_def push_step_video_frame_def buffer_video_frame_def capture_time_def
        bindE_def getE_def retE_def whenE_def)
  define x :: "(failure, unit) result" where "x = Inr ()"
  have "(\<exists>err. x = Inl err \<and> r' = ?r)
    \<or> (\<exists>f n. x = Inr () \<and> n \<le> length ([] :: (string \<times> Frame) list) \<and> buffers (e_wire ?e) (r_step_inputs r') (drop n [] @ [(''cam'', f)])
        \<and> ((\<exists>layout t. raw_video_frame (e_wire ?e) [1, 2, 3, 4] 1 1 layout None t = Some f)
           \<or> (\<exists>t. encoded_video_frame (e_wire ?e) 2 [1, 2, 3, 4] 1 1 None t = Some f)
           \<or> raw_audio_frame (e_wire ?e) [] 1 = Some f))"
    by (rule pushed_frame_buffered [where e = ?e and options = ?o and world = 0 and c = ?c and umax = "2 ^ 32 - 1"
        and codec = None and format = None and us = None and rate = 48000])
      (use p x_def in \<open>simp_all add: buffers_default Reactor_new_def State_default_def usize_max_def sample_wire_def\<close>)
  then show ?thesis using p x_def by blast
qed

end
