(* ===== verification/Wasm_Channel.thy ===== *)
theory Wasm_Channel
  imports Peer
begin

text \<open>
  Data channels in the browser (\<^verbatim>\<open>limits.rs\<close>, \<^verbatim>\<open>chunking.rs\<close> and the channels of \<^verbatim>\<open>peer.rs\<close> of
  \<^verbatim>\<open>reactor-wasm\<close>): a channel whose peer declared chunking carries each message as frames, queued and
  handed to the browser as its buffer drains, and reassembled on arrival. The wire format is a
  third-party crate's and the record \<open>chunks\<close>; the browser's channel is the record \<open>page\<close>, an error
  of which is what it describes itself as. Callbacks of a page run one at a time.
\<close>

section \<open>Limits\<close>

definition MIB :: u64 where
  "MIB = 1024 * 1024"

definition WASM_DEFAULT_MAX_MESSAGE_SIZE :: u64 where
  "WASM_DEFAULT_MAX_MESSAGE_SIZE = 64 * MIB"

definition WASM_MIN_MAX_MESSAGE_SIZE :: u64 where
  "WASM_MIN_MAX_MESSAGE_SIZE = 256 * 1024"

definition WASM_MAX_MAX_MESSAGE_SIZE :: u64 where
  "WASM_MAX_MAX_MESSAGE_SIZE = 1024 * MIB"

definition MIN_QUEUE_LIMIT :: u64 where
  "MIN_QUEUE_LIMIT = 128 * MIB"

definition wasm_max_message_size :: "u64 option \<Rightarrow> (string, u64) result" where
  "wasm_max_message_size asked = (case asked of
     None \<Rightarrow> Inr WASM_DEFAULT_MAX_MESSAGE_SIZE
   | Some n \<Rightarrow>
       if \<not> (WASM_MIN_MAX_MESSAGE_SIZE \<le> n \<and> n \<le> WASM_MAX_MAX_MESSAGE_SIZE)
       then Inl (''options.maxMessageSize must be from '' @ show_nat (unat WASM_MIN_MAX_MESSAGE_SIZE) @ '' (256 KiB) to ''
              @ show_nat (unat WASM_MAX_MAX_MESSAGE_SIZE) @ '' (1 GiB) bytes, got '' @ show_nat (unat n))
       else Inr n)"

definition queue_limit :: "u64 \<Rightarrow> u64" where
  "queue_limit max_size = max MIN_QUEUE_LIMIT (if unat max_size * 2 < 2 ^ 64 then max_size * 2 else - 1)"

definition clamp_u32 :: "u64 \<Rightarrow> u32" where
  "clamp_u32 n = (if unat n < 2 ^ 32 then ucast n else - 1)"

section \<open>The wire format and the channel\<close>

record SendConfig =
  chunk_size :: u64
  scf_max_message_size :: u64
  scf_queue_limit :: u64
  low_water :: u64

datatype send_error = SE_TooLarge u64 u64 | SE_QueueFull string

datatype chunk_delivery = CD_Message bytes | CD_Pending | CD_Dropped nat

text \<open>A frame the reassembler refuses is \<^const>\<open>None\<close>.\<close>

record ('p, 'q, 'r) chunks =
  ck_declare :: "string \<Rightarrow> 'p \<Rightarrow> string"
  ck_parse :: "string \<Rightarrow> 'p option"
  ck_local :: "u64 \<Rightarrow> 'p"
  ck_effective_max :: "u64 \<Rightarrow> 'p \<Rightarrow> u64"
  ck_browser_chunk_size :: u64
  ck_default :: SendConfig
  ck_queue :: "SendConfig \<Rightarrow> 'q"
  ck_config :: "'q \<Rightarrow> SendConfig"
  ck_push :: "bytes \<Rightarrow> bool \<Rightarrow> 'q \<Rightarrow> (send_error, unit) result \<times> 'q"
  ck_next_frame :: "u64 \<Rightarrow> 'q \<Rightarrow> bytes option \<times> 'q"
  ck_clear :: "'q \<Rightarrow> 'q"
  ck_reassembler :: "u64 \<Rightarrow> 'r"
  ck_frame :: "bytes \<Rightarrow> 'r \<Rightarrow> chunk_delivery option \<times> 'r"
  ck_reset :: "'r \<Rightarrow> 'r"

datatype ready_state = RS_Connecting | RS_Open | RS_Closing | RS_Closed

fun ready_debug :: "ready_state \<Rightarrow> string" where
  "ready_debug RS_Connecting = ''Connecting''"
| "ready_debug RS_Open = ''Open''"
| "ready_debug RS_Closing = ''Closing''"
| "ready_debug RS_Closed = ''Closed''"

record 'b page =
  pg_ready_state :: "nat \<Rightarrow> 'b \<Rightarrow> ready_state"
  pg_buffered_amount :: "nat \<Rightarrow> 'b \<Rightarrow> u32"
  pg_set_low_threshold :: "nat \<Rightarrow> u32 \<Rightarrow> 'b \<Rightarrow> 'b"
  pg_send_bytes :: "nat \<Rightarrow> bytes \<Rightarrow> 'b \<Rightarrow> (string, unit) result \<times> 'b"
  pg_send_str :: "nat \<Rightarrow> string \<Rightarrow> 'b \<Rightarrow> (string, unit) result \<times> 'b"
  pg_close_channel :: "nat \<Rightarrow> 'b \<Rightarrow> 'b"

definition js_err :: "string \<Rightarrow> CoreError" where
  "js_err description = Http description"

definition is_utf8 :: "string \<Rightarrow> bool" where
  "is_utf8 s \<longleftrightarrow> from_utf8_lossy s = s"

definition as_text :: "bytes \<Rightarrow> string" where
  "as_text payload = map (\<lambda>b. char_of (unat b)) payload"

definition as_bytes :: "string \<Rightarrow> bytes" where
  "as_bytes s = map (\<lambda>c. of_nat (of_char c)) s"

section \<open>Negotiation and framing\<close>

record 'p Negotiation =
  local_max :: u64
  ng_remote :: "'p option"

definition Negotiation_new :: "u64 \<Rightarrow> 'p Negotiation" where
  "Negotiation_new n = \<lparr> local_max = n, ng_remote = None \<rparr>"

definition ng_declare :: "('p, 'q, 'r) chunks \<Rightarrow> string \<Rightarrow> 'p Negotiation \<Rightarrow> string" where
  "ng_declare ck offer ng = ck_declare ck offer (ck_local ck (local_max ng))"

definition ng_on_answer :: "('p, 'q, 'r) chunks \<Rightarrow> string \<Rightarrow> 'p Negotiation \<Rightarrow> 'p Negotiation" where
  "ng_on_answer ck answer ng = ng\<lparr> ng_remote := ck_parse ck answer \<rparr>"

definition ng_clear :: "'p Negotiation \<Rightarrow> 'p Negotiation" where
  "ng_clear ng = ng\<lparr> ng_remote := None \<rparr>"

definition send_config :: "('p, 'q, 'r) chunks \<Rightarrow> 'p \<Rightarrow> 'p Negotiation \<Rightarrow> SendConfig" where
  "send_config ck remote ng = (ck_default ck)
     \<lparr> chunk_size := ck_browser_chunk_size ck, scf_max_message_size := ck_effective_max ck (local_max ng) remote,
       scf_queue_limit := queue_limit (local_max ng) \<rparr>"

record ('q, 'r) Chunked =
  fc_queue :: 'q
  fc_reassembler :: 'r

definition framing_decide ::
    "('p, 'q, 'r) chunks \<Rightarrow> 'b page \<Rightarrow> nat \<Rightarrow> 'p Negotiation \<Rightarrow> ('q, 'r) Chunked option \<Rightarrow> 'b \<Rightarrow> bool \<times> ('q, 'r) Chunked option \<times> 'b" where
  "framing_decide ck pg channel ng framing b = (case ng_remote ng of
     None \<Rightarrow> (False, framing, b)
   | Some remote \<Rightarrow>
       (let config = send_config ck remote ng;
            b = pg_set_low_threshold pg channel (clamp_u32 (low_water config)) b
        in (True, Some \<lparr> fc_queue = ck_queue ck config, fc_reassembler = ck_reassembler ck (local_max ng) \<rparr>, b)))"

definition framing_max_message_size :: "('p, 'q, 'r) chunks \<Rightarrow> ('q, 'r) Chunked option \<Rightarrow> u64 option" where
  "framing_max_message_size ck framing = map_option (\<lambda>c. scf_max_message_size (ck_config ck (fc_queue c))) framing"

text \<open>The loop returns \<^const>\<open>None\<close> when it never ends.\<close>

partial_function (option) pump_queue ::
    "('p, 'q, 'r) chunks \<Rightarrow> 'b page \<Rightarrow> nat \<Rightarrow> 'q \<Rightarrow> 'b \<Rightarrow> ((CoreError, unit) result \<times> 'q \<times> 'b) option" where
  [code]: "pump_queue ck pg channel q b =
     (case ck_next_frame ck (ucast (pg_buffered_amount pg channel b)) q of
        (None, q) \<Rightarrow> Some (Inr (), q, b)
      | (Some frame, q) \<Rightarrow>
          (case pg_send_bytes pg channel frame b of
             (Inl e, b) \<Rightarrow> Some (Inl (js_err e), ck_clear ck q, b)
           | (Inr _, b) \<Rightarrow> pump_queue ck pg channel q b))"

definition framing_pump ::
    "('p, 'q, 'r) chunks \<Rightarrow> 'b page \<Rightarrow> nat \<Rightarrow> ('q, 'r) Chunked option \<Rightarrow> 'b
     \<Rightarrow> ((CoreError, unit) result \<times> ('q, 'r) Chunked option \<times> 'b) option" where
  "framing_pump ck pg channel framing b = (case framing of
     None \<Rightarrow> Some (Inr (), None, b)
   | Some c \<Rightarrow> map_option (\<lambda>(res, q, b). (res, Some (c\<lparr> fc_queue := q \<rparr>), b)) (pump_queue ck pg channel (fc_queue c) b))"

text \<open>The inner option is \<^const>\<open>None\<close> on a plain channel.\<close>

definition framing_send ::
    "('p, 'q, 'r) chunks \<Rightarrow> 'b page \<Rightarrow> nat \<Rightarrow> bytes \<Rightarrow> bool \<Rightarrow> ('q, 'r) Chunked option \<Rightarrow> 'b
     \<Rightarrow> ((CoreError, unit) result option \<times> ('q, 'r) Chunked option \<times> 'b) option" where
  "framing_send ck pg channel payload binary framing b = (case framing of
     None \<Rightarrow> Some (None, None, b)
   | Some c \<Rightarrow> (case ck_push ck payload binary (fc_queue c) of (queued, q) \<Rightarrow>
       let framing = Some (c\<lparr> fc_queue := q \<rparr>) in
       case queued of
         Inr _ \<Rightarrow> map_option (\<lambda>(res, framing, b). (Some res, framing, b)) (framing_pump ck pg channel framing b)
       | Inl (SE_TooLarge n mx) \<Rightarrow> Some (Some (Inl (MessageTooLarge (unat n) (unat mx))), framing, b)
       | Inl (SE_QueueFull text) \<Rightarrow> Some (Some (Inl (CoreError.Peer text)), framing, b)))"

datatype Received = RV_Message bytes | RV_Nothing | RV_Broken

definition framing_receive ::
    "('p, 'q, 'r) chunks \<Rightarrow> 'b page \<Rightarrow> nat \<Rightarrow> bytes \<Rightarrow> bool \<Rightarrow> ('q, 'r) Chunked option \<Rightarrow> 'b
     \<Rightarrow> Received option \<times> ('q, 'r) Chunked option \<times> 'b" where
  "framing_receive ck pg channel frame is_text framing b = (case framing of
     None \<Rightarrow> (None, None, b)
   | Some c \<Rightarrow>
       (case (if is_text then (None, fc_reassembler c) else ck_frame ck frame (fc_reassembler c)) of
          (Some (CD_Message data), r) \<Rightarrow> (Some (RV_Message data), Some (c\<lparr> fc_reassembler := r \<rparr>), b)
        | (Some CD_Pending, r) \<Rightarrow> (Some RV_Nothing, Some (c\<lparr> fc_reassembler := r \<rparr>), b)
        | (Some (CD_Dropped _), r) \<Rightarrow> (Some RV_Nothing, Some (c\<lparr> fc_reassembler := r \<rparr>), b)
        | (None, r) \<Rightarrow> (Some RV_Broken, Some \<lparr> fc_queue = ck_clear ck (fc_queue c), fc_reassembler = ck_reset ck r \<rparr>,
            pg_close_channel pg channel b)))"

section \<open>A channel\<close>

text \<open>\<open>cs_events\<close> is what was sent to the core.\<close>

record ('p, 'q, 'r, 'b) channel_state =
  cs_negotiation :: "'p Negotiation"
  cs_framing :: "('q, 'r) Chunked option"
  cs_page :: 'b
  cs_events :: "PeerEvent list"

definition channel_send ::
    "('p, 'q, 'r) chunks \<Rightarrow> 'b page \<Rightarrow> nat \<Rightarrow> bytes \<Rightarrow> bool \<Rightarrow> ('p, 'q, 'r, 'b) channel_state
     \<Rightarrow> ((CoreError, unit) result \<times> ('p, 'q, 'r, 'b) channel_state) option" where
  "channel_send ck pg channel payload binary s =
     (let ready = pg_ready_state pg channel (cs_page s) in
      if ready \<noteq> RS_Open
      then Some (Inl (InvalidState (''data channel not open (state: '' @ ready_debug ready @ '')'')), s)
      else case framing_send ck pg channel payload binary (cs_framing s) (cs_page s) of
        None \<Rightarrow> None
      | Some (Some sent, framing, b) \<Rightarrow> Some (sent, s\<lparr> cs_framing := framing, cs_page := b \<rparr>)
      | Some (None, _, _) \<Rightarrow>
          if \<not> binary \<and> \<not> is_utf8 (as_text payload)
          then Some (Inl (Decode ''non-utf8 payload sent as a text frame''), s)
          else (case (if binary then pg_send_bytes pg channel payload (cs_page s)
                      else pg_send_str pg channel (as_text payload) (cs_page s)) of
                  (Inl e, b) \<Rightarrow> Some (Inl (js_err e), s\<lparr> cs_page := b \<rparr>)
                | (Inr _, b) \<Rightarrow> Some (Inr (), s\<lparr> cs_page := b \<rparr>)))"

datatype js_data = Js_Buffer bytes | Js_View bytes | Js_String string | Js_Other

fun message_bytes :: "js_data \<Rightarrow> bytes option" where
  "message_bytes (Js_Buffer data) = Some data"
| "message_bytes (Js_View data) = Some data"
| "message_bytes (Js_String text) = Some (as_bytes text)"
| "message_bytes Js_Other = None"

fun is_js_string :: "js_data \<Rightarrow> bool" where
  "is_js_string (Js_String _) = True"
| "is_js_string _ = False"

definition on_open ::
    "('p, 'q, 'r) chunks \<Rightarrow> 'b page \<Rightarrow> nat \<Rightarrow> PeerEvent \<Rightarrow> ('p, 'q, 'r, 'b) channel_state \<Rightarrow> ('p, 'q, 'r, 'b) channel_state" where
  "on_open ck pg channel opened s = (case framing_decide ck pg channel (cs_negotiation s) (cs_framing s) (cs_page s) of
     (_, framing, b) \<Rightarrow> s\<lparr> cs_framing := framing, cs_page := b, cs_events := cs_events s @ [opened] \<rparr>)"

definition on_buffered_amount_low ::
    "('p, 'q, 'r) chunks \<Rightarrow> 'b page \<Rightarrow> nat \<Rightarrow> ('p, 'q, 'r, 'b) channel_state \<Rightarrow> ('p, 'q, 'r, 'b) channel_state option" where
  "on_buffered_amount_low ck pg channel s =
     map_option (\<lambda>(_, framing, b). s\<lparr> cs_framing := framing, cs_page := b \<rparr>) (framing_pump ck pg channel (cs_framing s) (cs_page s))"

definition on_message_frame ::
    "('p, 'q, 'r) chunks \<Rightarrow> 'b page \<Rightarrow> nat \<Rightarrow> (bytes \<Rightarrow> PeerEvent) \<Rightarrow> js_data \<Rightarrow> ('p, 'q, 'r, 'b) channel_state \<Rightarrow> ('p, 'q, 'r, 'b) channel_state" where
  "on_message_frame ck pg channel message data s = (case message_bytes data of
     None \<Rightarrow> s
   | Some payload \<Rightarrow>
       (case framing_receive ck pg channel payload (is_js_string data) (cs_framing s) (cs_page s) of
          (res, framing, b) \<Rightarrow>
            s\<lparr> cs_framing := framing, cs_page := b,
               cs_events := cs_events s @ (case res of None \<Rightarrow> [message payload] | Some (RV_Message whole) \<Rightarrow> [message whole] | Some _ \<Rightarrow> []) \<rparr>))"

section \<open>What is relied on\<close>

text \<open>
  Of the wire format, of an observation of the frames a queue still holds: a message that is accepted
  fits the limit and its frames go behind the others, and frames come out in order. Of the page, of an
  observation of the frames that went out on a channel: what it takes goes out, in order. Of the
  reassembler: between messages it turns the frames of one that fits into that message, and nothing else.
\<close>

definition queue_laws :: "('p, 'q, 'r) chunks \<Rightarrow> ('q \<Rightarrow> bytes list) \<Rightarrow> (bytes \<Rightarrow> bool \<Rightarrow> bytes list) \<Rightarrow> bool" where
  "queue_laws ck frames encode \<longleftrightarrow>
     (\<forall>p binary q. case ck_push ck p binary q of (res, q') \<Rightarrow> ck_config ck q' = ck_config ck q
        \<and> frames q' = frames q @ (if res = Inr () then encode p binary else [])
        \<and> (res = Inr () \<longrightarrow> length p \<le> unat (scf_max_message_size (ck_config ck q))))
   \<and> (\<forall>room q. case ck_next_frame ck room q of (next_one, q') \<Rightarrow> ck_config ck q' = ck_config ck q
        \<and> frames q = (case next_one of None \<Rightarrow> frames q' | Some f \<Rightarrow> f # frames q'))
   \<and> (\<forall>q. frames (ck_clear ck q) = [])"

definition page_laws :: "'b page \<Rightarrow> nat \<Rightarrow> ('b \<Rightarrow> bytes list) \<Rightarrow> bool" where
  "page_laws pg channel wire \<longleftrightarrow> (\<forall>f b. wire (snd (pg_send_bytes pg channel f b)) =
     wire b @ (if fst (pg_send_bytes pg channel f b) = Inr () then [f] else []))"

fun feed :: "('p, 'q, 'r) chunks \<Rightarrow> bytes list \<Rightarrow> 'r \<Rightarrow> chunk_delivery option list \<times> 'r" where
  "feed ck [] r = ([], r)"
| "feed ck (f # fs) r = (case ck_frame ck f r of (d, r) \<Rightarrow> case feed ck fs r of (ds, r) \<Rightarrow> (d # ds, r))"

definition delivered :: "chunk_delivery option list \<Rightarrow> bytes list" where
  "delivered ds = List.map_filter (\<lambda>d. case d of Some (CD_Message m) \<Rightarrow> Some m | _ \<Rightarrow> None) ds"

definition reassembly_laws ::
    "('p, 'q, 'r) chunks \<Rightarrow> (bytes \<Rightarrow> bool \<Rightarrow> bytes list) \<Rightarrow> (nat \<Rightarrow> 'r \<Rightarrow> bool) \<Rightarrow> bool" where
  "reassembly_laws ck encode idle \<longleftrightarrow> (\<forall>n r p binary. idle n r \<and> length p \<le> n \<longrightarrow>
     (case feed ck (encode p binary) r of (ds, r') \<Rightarrow> idle n r' \<and> None \<notin> set ds \<and> delivered ds = [p]))"

section \<open>Sending and receiving in order\<close>

datatype channel_op = CO_Send bytes bool | CO_Low

text \<open>The messages that were accepted, in order, and the channel after the operations.\<close>

fun channel_run ::
    "('p, 'q, 'r) chunks \<Rightarrow> 'b page \<Rightarrow> nat \<Rightarrow> channel_op list \<Rightarrow> ('p, 'q, 'r, 'b) channel_state
     \<Rightarrow> ((bytes \<times> bool) list \<times> ('p, 'q, 'r, 'b) channel_state) option" where
  "channel_run ck pg channel [] s = Some ([], s)"
| "channel_run ck pg channel (CO_Send p binary # ops) s = (case channel_send ck pg channel p binary s of
     None \<Rightarrow> None
   | Some (res, s') \<Rightarrow> map_option (\<lambda>(accepted, s''). ((if res = Inr () then [(p, binary)] else []) @ accepted, s''))
       (channel_run ck pg channel ops s'))"
| "channel_run ck pg channel (CO_Low # ops) s = (case on_buffered_amount_low ck pg channel s of
     None \<Rightarrow> None | Some s' \<Rightarrow> channel_run ck pg channel ops s')"

definition takes_all :: "'b page \<Rightarrow> nat \<Rightarrow> bool" where
  "takes_all pg channel \<longleftrightarrow> (\<forall>f b. fst (pg_send_bytes pg channel f b) = Inr ())"

lemma next_law:
  assumes "queue_laws ck frames encode" and "ck_next_frame ck room q = (nf, q')"
  shows "ck_config ck q' = ck_config ck q \<and> frames q = (case nf of None \<Rightarrow> frames q' | Some f \<Rightarrow> f # frames q')"
proof -
  have "case ck_next_frame ck room q of (nf, q') \<Rightarrow> ck_config ck q' = ck_config ck q
      \<and> frames q = (case nf of None \<Rightarrow> frames q' | Some f \<Rightarrow> f # frames q')"
    using assms(1) by (simp add: queue_laws_def)
  then show ?thesis by (simp add: assms(2))
qed

lemma push_law:
  assumes "queue_laws ck frames encode" and "ck_push ck p binary q = (res, q')"
  shows "ck_config ck q' = ck_config ck q" "frames q' = frames q @ (if res = Inr () then encode p binary else [])"
    "res = Inr () \<Longrightarrow> length p \<le> unat (scf_max_message_size (ck_config ck q))"
proof -
  have "case ck_push ck p binary q of (res, q') \<Rightarrow> ck_config ck q' = ck_config ck q
        \<and> frames q' = frames q @ (if res = Inr () then encode p binary else [])
        \<and> (res = Inr () \<longrightarrow> length p \<le> unat (scf_max_message_size (ck_config ck q)))"
    using assms(1) by (simp add: queue_laws_def)
  then show "ck_config ck q' = ck_config ck q" "frames q' = frames q @ (if res = Inr () then encode p binary else [])"
    "res = Inr () \<Longrightarrow> length p \<le> unat (scf_max_message_size (ck_config ck q))"
    by (simp_all add: assms(2))
qed

lemma sent_law: "page_laws pg channel wire \<Longrightarrow> pg_send_bytes pg channel f b = (Inr u, b') \<Longrightarrow> wire b' = wire b @ [f]"
  unfolding page_laws_def by (erule allE[of _ f], erule allE[of _ b]) simp

lemma refused_law: "pg_send_bytes pg channel f b = (Inl e, b') \<Longrightarrow> \<not> takes_all pg channel"
  unfolding takes_all_def by (intro notI, erule allE[of _ f], erule allE[of _ b]) simp

lemma pump_ends:
  assumes q: "queue_laws ck frames encode" and p: "page_laws pg channel wire"
  shows "\<exists>res q' b'. pump_queue ck pg channel q b = Some (res, q', b')
     \<and> (res = Inr () \<longrightarrow> ck_config ck q' = ck_config ck q \<and> wire b' @ frames q' = wire b @ frames q)
     \<and> (res \<noteq> Inr () \<longrightarrow> frames q' = [] \<and> \<not> takes_all pg channel)"
proof (induction "length (frames q)" arbitrary: q b rule: less_induct)
  case less
  let ?room = "ucast (pg_buffered_amount pg channel b)"
  obtain nf q1 where n: "ck_next_frame ck ?room q = (nf, q1)" by fastforce
  have law: "ck_config ck q1 = ck_config ck q" "frames q = (case nf of None \<Rightarrow> frames q1 | Some f \<Rightarrow> f # frames q1)"
    using next_law[OF q n] by simp_all
  show ?case
  proof (cases nf)
    case None
    with law n show ?thesis by (simp add: pump_queue.simps)
  next
    case (Some f)
    obtain res b1 where sent: "pg_send_bytes pg channel f b = (res, b1)" by fastforce
    show ?thesis
    proof (cases res)
      case (Inl e)
      have "frames (ck_clear ck q1) = []" using q by (simp add: queue_laws_def)
      moreover have "\<not> takes_all pg channel" using refused_law[OF sent[unfolded Inl]] .
      ultimately show ?thesis using n Some sent Inl by (simp add: pump_queue.simps)
    next
      case (Inr u)
      have wire: "wire b1 = wire b @ [f]" using sent_law[OF p sent[unfolded Inr]] .
      have "length (frames q1) < length (frames q)" using law Some by simp
      then obtain res' q' b' where r: "pump_queue ck pg channel q1 b1 = Some (res', q', b')"
        and inv: "res' = Inr () \<longrightarrow> ck_config ck q' = ck_config ck q1 \<and> wire b' @ frames q' = wire b1 @ frames q1"
          "res' \<noteq> Inr () \<longrightarrow> frames q' = [] \<and> \<not> takes_all pg channel"
        using less.hyps by blast
      have "pump_queue ck pg channel q b = Some (res', q', b')" using n Some sent Inr r by (simp add: pump_queue.simps)
      then show ?thesis using inv wire law Some by auto
    qed
  qed
qed

text \<open>What went out on a chunked channel, and what its queue still holds.\<close>

definition stream :: "('q \<Rightarrow> bytes list) \<Rightarrow> ('b \<Rightarrow> bytes list) \<Rightarrow> ('p, 'q, 'r, 'b) channel_state \<Rightarrow> bytes list" where
  "stream frames wire s = wire (cs_page s) @ (case cs_framing s of None \<Rightarrow> [] | Some c \<Rightarrow> frames (fc_queue c))"

definition chunked_limit :: "('p, 'q, 'r) chunks \<Rightarrow> ('p, 'q, 'r, 'b) channel_state \<Rightarrow> nat option" where
  "chunked_limit ck s = map_option unat (framing_max_message_size ck (cs_framing s))"

definition encoded :: "(bytes \<Rightarrow> bool \<Rightarrow> bytes list) \<Rightarrow> (bytes \<times> bool) list \<Rightarrow> bytes list" where
  "encoded encode ms = concat (map (\<lambda>(p, binary). encode p binary) ms)"

lemma channel_pump:
  assumes "queue_laws ck frames encode" and "page_laws pg channel wire" and "takes_all pg channel"
    and "chunked_limit ck s = Some n"
  shows "\<exists>framing b. framing_pump ck pg channel (cs_framing s) (cs_page s) = Some (Inr (), framing, b)
     \<and> stream frames wire (s\<lparr> cs_framing := framing, cs_page := b \<rparr>) = stream frames wire s
     \<and> chunked_limit ck (s\<lparr> cs_framing := framing, cs_page := b \<rparr>) = Some n"
proof -
  obtain c where c: "cs_framing s = Some c" using assms(4) by (auto simp: chunked_limit_def framing_max_message_size_def)
  obtain res q' b' where "pump_queue ck pg channel (fc_queue c) (cs_page s) = Some (res, q', b')"
    "res = Inr () \<longrightarrow> ck_config ck q' = ck_config ck (fc_queue c) \<and> wire b' @ frames q' = wire (cs_page s) @ frames (fc_queue c)"
    "res \<noteq> Inr () \<longrightarrow> frames q' = [] \<and> \<not> takes_all pg channel"
    using pump_ends[OF assms(1,2)] by blast
  then show ?thesis
    using assms(3,4) c by (auto simp: framing_pump_def stream_def chunked_limit_def framing_max_message_size_def)
qed

lemma channel_send_chunked:
  assumes laws: "queue_laws ck frames encode" "page_laws pg channel wire" "takes_all pg channel"
    and s: "chunked_limit ck s = Some n"
  shows "\<exists>res s'. channel_send ck pg channel p binary s = Some (res, s') \<and> chunked_limit ck s' = Some n
     \<and> stream frames wire s' = stream frames wire s @ (if res = Inr () then encode p binary else [])
     \<and> (res = Inr () \<longrightarrow> length p \<le> n)"
proof (cases "pg_ready_state pg channel (cs_page s) = RS_Open")
  case False
  with s show ?thesis by (simp add: channel_send_def)
next
  case True
  obtain c where c: "cs_framing s = Some c" using s by (auto simp: chunked_limit_def framing_max_message_size_def)
  obtain queued q where p: "ck_push ck p binary (fc_queue c) = (queued, q)" by fastforce
  note law = push_law[OF laws(1) p]
  let ?s = "s\<lparr> cs_framing := Some (c\<lparr> fc_queue := q \<rparr>) \<rparr>"
  have lim: "chunked_limit ck ?s = Some n" using s c law(1) by (simp add: chunked_limit_def framing_max_message_size_def)
  have str: "stream frames wire ?s = stream frames wire s @ (if queued = Inr () then encode p binary else [])"
    using law(2) by (simp add: stream_def c)
  show ?thesis
  proof (cases queued)
    case (Inr u)
    obtain framing b where pump: "framing_pump ck pg channel (cs_framing ?s) (cs_page ?s) = Some (Inr (), framing, b)"
      "stream frames wire (?s\<lparr> cs_framing := framing, cs_page := b \<rparr>) = stream frames wire ?s"
      "chunked_limit ck (?s\<lparr> cs_framing := framing, cs_page := b \<rparr>) = Some n"
      using channel_pump[OF laws lim] by blast
    moreover have "length p \<le> n" using law(3) s c Inr by (simp add: chunked_limit_def framing_max_message_size_def)
    ultimately show ?thesis using True c p Inr str by (simp add: channel_send_def framing_send_def)
  next
    case (Inl e)
    with True c p lim str show ?thesis by (cases e) (simp_all add: channel_send_def framing_send_def)
  qed
qed

lemma channel_run_chunked:
  assumes laws: "queue_laws ck frames encode" "page_laws pg channel wire" "takes_all pg channel"
  shows "chunked_limit ck s = Some n \<Longrightarrow> \<exists>accepted s'. channel_run ck pg channel ops s = Some (accepted, s')
     \<and> stream frames wire s' = stream frames wire s @ encoded encode accepted \<and> (\<forall>(p, binary)\<in>set accepted. length p \<le> n)"
proof (induction ops arbitrary: s)
  case Nil
  then show ?case by (simp add: encoded_def)
next
  case (Cons op ops)
  show ?case
  proof (cases op)
    case (CO_Send p binary)
    obtain res s' where s': "channel_send ck pg channel p binary s = Some (res, s')" "chunked_limit ck s' = Some n"
      "stream frames wire s' = stream frames wire s @ (if res = Inr () then encode p binary else [])" "res = Inr () \<longrightarrow> length p \<le> n"
      using channel_send_chunked[OF laws Cons.prems] by blast
    with Cons.IH[OF s'(2)] CO_Send show ?thesis by (auto simp: encoded_def)
  next
    case CO_Low
    obtain framing b where "framing_pump ck pg channel (cs_framing s) (cs_page s) = Some (Inr (), framing, b)"
      and s': "stream frames wire (s\<lparr> cs_framing := framing, cs_page := b \<rparr>) = stream frames wire s"
        "chunked_limit ck (s\<lparr> cs_framing := framing, cs_page := b \<rparr>) = Some n"
      using channel_pump[OF laws Cons.prems] by blast
    with Cons.IH[OF s'(2)] CO_Low show ?thesis by (simp add: on_buffered_amount_low_def)
  qed
qed

text \<open>The other end, as the frames arrive.\<close>

definition arrivals ::
    "('p, 'q, 'r) chunks \<Rightarrow> 'b page \<Rightarrow> nat \<Rightarrow> (bytes \<Rightarrow> PeerEvent) \<Rightarrow> bytes list \<Rightarrow> ('p, 'q, 'r, 'b) channel_state \<Rightarrow> ('p, 'q, 'r, 'b) channel_state" where
  "arrivals ck pg channel message fs s = fold (\<lambda>f. on_message_frame ck pg channel message (Js_Buffer f)) fs s"

lemma arrivals_feed:
  "cs_framing s = Some c \<Longrightarrow> feed ck fs (fc_reassembler c) = (ds, r) \<Longrightarrow> None \<notin> set ds
   \<Longrightarrow> cs_framing (arrivals ck pg channel message fs s) = Some (c\<lparr> fc_reassembler := r \<rparr>)
     \<and> cs_events (arrivals ck pg channel message fs s) = cs_events s @ map message (delivered ds)"
proof (induction fs arbitrary: s c ds)
  case Nil
  then show ?case by (simp add: arrivals_def delivered_def List.map_filter_def)
next
  case (Cons f fs)
  obtain d r1 where d: "ck_frame ck f (fc_reassembler c) = (d, r1)" by fastforce
  obtain ds1 r2 where f: "feed ck fs r1 = (ds1, r2)" by fastforce
  have ds: "ds = d # ds1" "r = r2" using d f Cons.prems(2) by simp_all
  then have good: "d \<noteq> None" "None \<notin> set ds1"
    using Cons.prems(3) by (cases d; simp)+
  let ?s = "on_message_frame ck pg channel message (Js_Buffer f) s"
  have s: "cs_framing ?s = Some (c\<lparr> fc_reassembler := r1 \<rparr>) \<and> cs_events ?s = cs_events s @ map message (delivered [d])"
    using d good Cons.prems(1)
    by (cases d; cases "the d") (auto simp: on_message_frame_def framing_receive_def delivered_def List.map_filter_def)
  have "feed ck fs (fc_reassembler (c\<lparr> fc_reassembler := r1 \<rparr>)) = (ds1, r)" using f ds by simp
  from Cons.IH[OF conjunct1[OF s] this good(2)] s
  show ?case by (simp add: arrivals_def ds(1)) (simp add: delivered_def List.map_filter_def)
qed

lemma arrivals_encoded:
  assumes law: "reassembly_laws ck encode idle"
  shows "cs_framing s = Some c \<Longrightarrow> idle n (fc_reassembler c) \<Longrightarrow> \<forall>(p, binary)\<in>set ms. length p \<le> n
   \<Longrightarrow> cs_events (arrivals ck pg channel message (encoded encode ms) s) = cs_events s @ map (message \<circ> fst) ms"
proof (induction ms arbitrary: s c)
  case Nil
  then show ?case by (simp add: encoded_def arrivals_def)
next
  case (Cons m ms)
  obtain p binary where m: "m = (p, binary)" by (cases m)
  obtain ds r where f: "feed ck (encode p binary) (fc_reassembler c) = (ds, r)" by fastforce
  have "idle n (fc_reassembler c) \<and> length p \<le> n" using Cons.prems m by auto
  then have "case feed ck (encode p binary) (fc_reassembler c) of (ds, r') \<Rightarrow> idle n r' \<and> None \<notin> set ds \<and> delivered ds = [p]"
    by (rule law[unfolded reassembly_laws_def, rule_format])
  with f have d: "idle n r" "None \<notin> set ds" "delivered ds = [p]" by simp_all
  let ?s = "arrivals ck pg channel message (encode p binary) s"
  note a = arrivals_feed[OF Cons.prems(1) f d(2), of pg channel message]
  have "cs_events (arrivals ck pg channel message (encoded encode ms) ?s) = cs_events ?s @ map (message \<circ> fst) ms"
    by (rule Cons.IH[where c = "c\<lparr> fc_reassembler := r \<rparr>"]) (use a d Cons.prems in auto)
  then show ?case using a d by (simp add: m arrivals_def encoded_def)
qed


text \<open>A format of two frames a message, the first one empty, on a page that takes everything.\<close>

definition two_frames :: "bytes \<Rightarrow> bool \<Rightarrow> bytes list" where
  "two_frames p binary = [[], p]"

definition two_chunks :: "(u64, SendConfig \<times> bytes list, bool) chunks" where
  "two_chunks = \<lparr> ck_declare = (\<lambda>offer _. offer), ck_parse = (\<lambda>_. Some 262144), ck_local = id, ck_effective_max = min,
     ck_browser_chunk_size = 4096,
     ck_default = \<lparr> chunk_size = 0, scf_max_message_size = 0, scf_queue_limit = 0, low_water = 0 \<rparr>,
     ck_queue = (\<lambda>config. (config, [])), ck_config = fst,
     ck_push = (\<lambda>p binary (config, fs). if length p \<le> unat (scf_max_message_size config) then (Inr (), (config, fs @ two_frames p binary))
        else (Inl (SE_TooLarge (of_nat (length p)) (scf_max_message_size config)), (config, fs))),
     ck_next_frame = (\<lambda>room (config, fs). case fs of [] \<Rightarrow> (None, (config, fs)) | f # fs \<Rightarrow> (Some f, (config, fs))),
     ck_clear = (\<lambda>(config, fs). (config, [])), ck_reassembler = (\<lambda>_. False),
     ck_frame = (\<lambda>f started. if started then (Some (CD_Message f), False) else if f = [] then (Some CD_Pending, True) else (None, False)),
     ck_reset = (\<lambda>_. False) \<rparr>"

definition open_page :: "bytes list page" where
  "open_page = \<lparr> pg_ready_state = (\<lambda>_ _. RS_Open), pg_buffered_amount = (\<lambda>_ _. 0), pg_set_low_threshold = (\<lambda>_ _ b. b),
     pg_send_bytes = (\<lambda>_ f b. (Inr (), b @ [f])), pg_send_str = (\<lambda>_ _ b. (Inr (), b)), pg_close_channel = (\<lambda>_ b. b) \<rparr>"

definition opened_channel :: "(u64, SendConfig \<times> bytes list, bool, bytes list) channel_state" where
  "opened_channel = on_open two_chunks open_page 0 DataChannelOpen
     \<lparr> cs_negotiation = ng_on_answer two_chunks ''answer'' (Negotiation_new WASM_DEFAULT_MAX_MESSAGE_SIZE),
       cs_framing = None, cs_page = [], cs_events = [] \<rparr>"

lemma two_queue: "queue_laws two_chunks snd two_frames"
  by (auto simp: queue_laws_def two_chunks_def split: list.splits)

lemma two_reassembly: "reassembly_laws two_chunks two_frames (\<lambda>n started. \<not> started)"
  by (simp add: reassembly_laws_def two_chunks_def two_frames_def delivered_def List.map_filter_def)

lemma open_page_laws: "page_laws open_page 0 id" "takes_all open_page 0"
  by (simp_all add: page_laws_def takes_all_def open_page_def)

lemma opened_channel_eq:
  "cs_framing opened_channel = Some \<lparr> fc_queue = (\<lparr> chunk_size = 4096, scf_max_message_size = 262144, scf_queue_limit = 134217728, low_water = 0 \<rparr>, []),
     fc_reassembler = False \<rparr>" "cs_page opened_channel = []" "cs_events opened_channel = [DataChannelOpen]"
  by (simp_all add: opened_channel_def on_open_def framing_decide_def ng_on_answer_def Negotiation_new_def two_chunks_def open_page_def
      send_config_def queue_limit_def MIN_QUEUE_LIMIT_def WASM_DEFAULT_MAX_MESSAGE_SIZE_def MIB_def)


end
