(* ===== verification/Spec2Isabelle.thy ===== *)
theory Spec2Isabelle
  imports Reactor_Requests Reactor_Stats Audio_Input Host_Thread Clip_Download Ffi_Transport Ffi_Client Ffi_Sync Wasm_Push Wasm_Channel
begin

text \<open>
  The Reactor client SDK, verified: the crates \<^verbatim>\<open>reactor-core\<close> and \<^verbatim>\<open>reactor-protocol\<close> under
  \<^verbatim>\<open>src/crates\<close>, and the logic of the bindings over them. The core holds the client's logic: it creates
  or joins a session with the coordinator over HTTP, negotiates a WebRTC transport, sends commands, steps
  and media over it, and reports events, errors and statistics. The bindings \<^verbatim>\<open>reactor-ffi\<close> (C) and
  \<^verbatim>\<open>reactor-wasm\<close> (browsers) pass calls through to it; what they do themselves is how a host's callbacks
  are run and shut down, and how media, steps and clips cross the boundary.

  \<^bold>\<open>How the program is modelled.\<close>
  Data are records and datatypes with the source's fields and variants; machine integers are words,
  \<^verbatim>\<open>f64\<close> is a datatype with IEEE 754 rounding (\<open>F64\<close>), a string is its list of UTF-8 bytes. A fallible
  function returns a sum whose left side is \<open>CoreError\<close>; a panic of the source is the value \<open>Panic\<close> of
  the effect monad of \<open>Effects\<close>, or \<^const>\<open>None\<close> in a pure function. The HTTP client, the token provider,
  the platform, the WebRTC engine, the serde derives and the generated wire code are not part of the
  sources: they are the records \<open>host\<close>, \<open>transport\<close>, \<open>codec\<close> and \<open>wire\<close>, arguments of every definition
  that uses them. A hash map is an association list, and an operation that iterates over one takes the
  order as an argument (\<^typ>\<open>'a iter\<close>), so a theorem holds for every order.

  The reactor's state behind its mutexes is the record \<open>reactor\<close>: \<open>r_state\<close> is \<^verbatim>\<open>State\<close>, the
  correlators, step inputs, stage times and sampler are fields of their own. A oneshot channel is a
  number: what was sent on it is in \<open>r_control_sent\<close> or \<open>r_data_sent\<close>, the readiness gates that fired are
  in \<open>r_gates_fired\<close>, and the events published are in \<open>r_events\<close>. An operation is a function on that
  state; where the source awaits, it calls a function of the host that maps the whole state, so whatever
  other tasks do in the meantime is covered. \<open>Reactor_Steps\<close> names what they can do: \<open>atomic\<close> lists the
  sections the code runs between two awaits, \<open>trace\<close> is any interleaving of them, and \<open>rely\<close> says the
  host's awaited functions are such interleavings. Tasks interleave at awaits, as on
  one thread; that threads of a host could also interleave between a lock and the event published after
  it is released is not modelled. The two futures
  \<^verbatim>\<open>connect\<close> joins for preset tracks are run one after the other.

  \<^bold>\<open>The theories.\<close>
  \<^item> \<open>Prelude\<close>, \<open>F64\<close>, \<open>Effects\<close>: machine types, maps, strings, floats, the effect monad and its rules.
  \<^item> \<open>Backoff\<close> (\<^verbatim>\<open>backoff.rs\<close>), \<open>Errors\<close> (\<^verbatim>\<open>error.rs\<close>), \<open>Http\<close> (\<^verbatim>\<open>http.rs\<close>), \<open>Auth\<close> (\<^verbatim>\<open>auth.rs\<close>),
    \<open>Protocol\<close> (\<^verbatim>\<open>reactor-protocol\<close>): delays of the polling loops, error codes and recoverability, status
    checks, tokens, JSON and protobuf structures.
  \<^item> \<open>Coordinator\<close> (\<^verbatim>\<open>coordinator.rs\<close>, \<^verbatim>\<open>signaling.rs\<close>): every request of the session and signaling APIs, in
    the cloud and against a local runtime; polling is sound and bounded.
  \<^item> \<open>Wire\<close>: the messages of the generated code as the sources use them, and \<^verbatim>\<open>messaging.rs\<close>.
  \<^item> \<open>Correlators\<close> (\<^verbatim>\<open>control.rs\<close>, \<^verbatim>\<open>data.rs\<close>): requests and their replies. The locale for the tables
    of waiting requests is interpreted on both; each request is answered at most once.
  \<^item> \<open>Step_Frames\<close> (\<^verbatim>\<open>step/mod.rs\<close>, \<^verbatim>\<open>step/decode.rs\<close>), \<open>Step_Inputs\<close> (\<^verbatim>\<open>step/inputs.rs\<close>): the frames of a
    step; the input buffer refines a queue trimmed from its oldest frame.
  \<^item> \<open>Stage_Times\<close> (\<^verbatim>\<open>stage_times.rs\<close>, \<^verbatim>\<open>message_stages.rs\<close>): timings per connection, as the locale
    \<open>windowed\<close>, interpreted on both kinds.
  \<^item> \<open>Recording\<close> (\<^verbatim>\<open>recording.rs\<close>): clips, their playlists and the requests that fetch them.
  \<^item> \<open>Events\<close> (\<^verbatim>\<open>events.rs\<close>, \<^verbatim>\<open>state.rs\<close>): the dispatcher and its subscribers.
  \<^item> \<open>Peer\<close> (\<^verbatim>\<open>peer.rs\<close>, \<^verbatim>\<open>runtime.rs\<close>): the engine's data and interface, timeouts.
  \<^item> \<open>Stats\<close>, \<open>Client_Stats\<close> (\<^verbatim>\<open>stats.rs\<close>): the sampler behind \<open>get_stats\<close> and the reporter of client
    stats; the locale \<open>batch_reporter\<close> states what a batch that was not sent may change, and both
    reporters interpret it.
  \<^item> \<open>Reactor_State\<close>, \<open>Reactor_Tracks\<close>, \<open>Reactor_Connect\<close>, \<open>Reactor_Messaging\<close>, \<open>Reactor_Frames\<close>,
    \<open>Reactor_Stats\<close> (\<^verbatim>\<open>reactor.rs\<close>, split as its sections are): the options and state; control requests,
    tracks, clips, uploads and the keep-alive; connecting and tearing down; commands and steps; pushed
    frames and engine events; statistics.
  \<^item> \<open>Reactor_Steps\<close>, \<open>Reactor_Runs\<close>: the step relation, and that every operation is a run of it.
    \<open>Reactor_Invariant\<close>: the invariants of every interleaving, the readiness gate, trickled candidates.
    \<open>Reactor_Lifecycle\<close>, \<open>Reactor_Requests\<close>: what connecting, disconnecting and the keep-alive
    guarantee, and what callers can rely on. \<open>Reactor_Sample\<close>: concrete hosts for the witnesses.
  \<^item> \<open>Callbacks\<close>, \<open>Host_Thread\<close> (\<^verbatim>\<open>reactor-ffi/src/callbacks.rs\<close>, \<^verbatim>\<open>reactor_destroy\<close> of \<^verbatim>\<open>lib.rs\<close>): threads
    that enter the host and the gate that keeps them out once it was retired, a machine whose steps are
    the points where threads interleave; the bounded queues and their workers, as the locale
    \<open>lossy_queue\<close>; destroying a handle.
  \<^item> \<open>Audio_Input\<close> (\<^verbatim>\<open>audio_input.rs\<close>), \<open>Clip_Download\<close> (\<^verbatim>\<open>download_clip_to_file\<close> of \<^verbatim>\<open>lib.rs\<close>),
    \<open>Ffi_Step\<close> (\<^verbatim>\<open>step.rs\<close>), all of \<^verbatim>\<open>reactor-ffi\<close>: pushed audio in blocks of 10 ms, a clip written to a
    file, the commands of a step and the result a host reads back.
  \<^item> \<open>Ffi_Stats\<close>, \<open>Ffi_Peer\<close>, \<open>Ffi_Transport\<close> (\<^verbatim>\<open>peer.rs\<close> of \<^verbatim>\<open>reactor-ffi\<close>): the native transport over the
    engine, which is the record \<open>engine\<close>: its statistics, its state and methods, and its guarantees; it
    satisfies \<open>rely\<close>, so what is proved of the core holds over it.
  \<^item> \<open>Ffi_Config\<close>, \<open>Ffi_Calls\<close>, \<open>Ffi_Client\<close>, \<open>Ffi_Sync\<close> (\<^verbatim>\<open>lib.rs\<close> of \<^verbatim>\<open>reactor-ffi\<close>): the options a client is
    created with; the calls that start a task and the completion it answers through, as a machine of the
    host, the tasks and the control thread; events; the media a host lends and what it reads back.
  \<^item> \<open>Wasm_Push\<close> (\<^verbatim>\<open>pixels.rs\<close> and the push methods of \<^verbatim>\<open>client.rs\<close> of \<^verbatim>\<open>reactor-wasm\<close>): what a page may
    push, and that the core does not drop it. \<open>Wasm_Channel\<close> (\<^verbatim>\<open>limits.rs\<close>, \<^verbatim>\<open>chunking.rs\<close>, the channels of
    \<^verbatim>\<open>peer.rs\<close>): chunked data channels, over the wire-format crate (\<open>chunks\<close>) and the browser (\<open>page\<close>).

  \<^bold>\<open>Loops.\<close>
  The polling loops run at most \<^verbatim>\<open>max_attempts\<close> times and are recursions on that number. The keep-alive,
  the client-stats task and the wait for a clip's playlist may run forever, and are partial functions:
  \<^const>\<open>None\<close> is not returning. That the keep-alive ends with its connection and that a wait with a timeout
  ends are theorems, and so is that feeding a channel from its queue ends. Decoding UTF-8 uses fuel, one unit per byte, shown to be enough.

  \<^bold>\<open>Not modelled.\<close>
  The rest of \<^verbatim>\<open>reactor-wasm\<close>: its conversions to JavaScript values and the assembly of a peer connection,
  which are calls of the browser's API. Of \<^verbatim>\<open>reactor-ffi\<close> the allocation and
  freeing of what crosses the boundary and the HTTP client. A task of the C boundary is one step for the
  client's own books, although its reactor interleaves as above. \<^verbatim>\<open>device.rs\<close> and the tokio
  platform (system calls), logging, and the code the build generates from protobuf files. Poisoned
  mutexes are not: no modelled section panics while it holds one, except where \<open>Panic\<close> says so. Counters
  wrap where a release build wraps.
\<close>

end
